theory Spec2Isabelle
  imports Complex_Main "HOL-Library.AList"
begin

section \<open>Python primitives used by the log-parsing modules\<close>

text \<open>
  The four modules (coverage\_metrics, primerclip, jax\_trimmer, hisat2) are line scanners
  built from \<^verbatim>\<open>re.search\<close>, \<^verbatim>\<open>str.splitlines\<close>, \<^verbatim>\<open>float\<close>, \<^verbatim>\<open>int\<close> and dictionary
  assignment. A text is a list of characters with code points below 256. Dictionaries are
  association lists in insertion order with distinct keys; \<^verbatim>\<open>d[k] = v\<close> is
  \<^const>\<open>AList.update\<close>, which replaces the value in place or appends a new entry, as a Python
  dictionary does.
\<close>

subsection \<open>Character classes\<close>

definition is_digit :: "char \<Rightarrow> bool" where
  "is_digit c = (c \<in> set ''0123456789'')"

text \<open>\<^verbatim>\<open>\s\<close> of a \<^verbatim>\<open>str\<close> pattern: the code points below 256 for which \<^verbatim>\<open>str.isspace\<close> holds.\<close>

definition is_space :: "char \<Rightarrow> bool" where
  "is_space c = (c \<in> set [CHR 0x09, CHR 0x0A, CHR 0x0B, CHR 0x0C, CHR 0x0D,
                           CHR 0x1C, CHR 0x1D, CHR 0x1E, CHR 0x1F, CHR 0x20,
                           CHR 0x85, CHR 0xA0])"

datatype citem = CDigit | CSpace | CChar char

fun citem_ok :: "citem \<Rightarrow> char \<Rightarrow> bool" where
  "citem_ok CDigit c = is_digit c"
| "citem_ok CSpace c = is_space c"
| "citem_ok (CChar d) c = (c = d)"

text \<open>
  \<open>Dot\<close> is \<^verbatim>\<open>.\<close> (any character but a newline, no DOTALL flag is used), \<open>Item\<close> is
  \<^verbatim>\<open>\d\<close>, \<^verbatim>\<open>\s\<close> or one character, \<open>SetOf\<close> is \<^verbatim>\<open>[...]\<close> and \<open>NotSetOf\<close> is \<^verbatim>\<open>[^...]\<close>.
\<close>

datatype cclass = Dot | Item citem | SetOf "citem list" | NotSetOf "citem list"

fun cclass_ok :: "cclass \<Rightarrow> char \<Rightarrow> bool" where
  "cclass_ok Dot c = (c \<noteq> CHR 0x0A)"
| "cclass_ok (Item i) c = citem_ok i c"
| "cclass_ok (SetOf is) c = list_ex (\<lambda>i. citem_ok i c) is"
| "cclass_ok (NotSetOf is) c = (\<not> list_ex (\<lambda>i. citem_ok i c) is)"

subsection \<open>Regular expressions with capture groups\<close>

text \<open>
  The fragment of Python's \<^verbatim>\<open>re\<close> syntax the modules use: literal text, one character of
  a class, \<^verbatim>\<open>c+\<close> on a class, \<^verbatim>\<open>r?\<close> and \<^verbatim>\<open>(?:r)?\<close>, concatenation, a capture group
  \<^verbatim>\<open>(r)\<close> and the anchor \<^verbatim>\<open>^\<close>.
\<close>

text \<open>\<open>strip_prefix p xs\<close> is what follows \<open>p\<close> in \<open>xs\<close>, when \<open>xs\<close> begins with \<open>p\<close>.\<close>

fun strip_prefix :: "string \<Rightarrow> string \<Rightarrow> string option" where
  "strip_prefix [] xs = Some xs"
| "strip_prefix (p # ps) [] = None"
| "strip_prefix (p # ps) (x # xs) = (if p = x then strip_prefix ps xs else None)"

datatype regex =
    Lit string
  | Cls cclass
  | Many1 cclass
  | Opt regex
  | Cat regex regex
  | Group regex
  | Bol

fun seq :: "regex list \<Rightarrow> regex" where
  "seq [] = Lit []"
| "seq [r] = r"
| "seq (r # rs) = Cat r (seq rs)"

fun ngroups :: "regex \<Rightarrow> nat" where
  "ngroups (Opt r) = ngroups r"
| "ngroups (Cat r1 r2) = ngroups r1 + ngroups r2"
| "ngroups (Group r) = Suc (ngroups r)"
| "ngroups _ = 0"

text \<open>
  \<open>rx_match r (i, xs)\<close> lists, in the order in which a backtracking matcher tries them
  (greedy quantifiers first), every way \<open>r\<close> can match a prefix of \<open>xs\<close>, the rest of the
  subject from offset \<open>i\<close>: the groups captured (numbered by their opening parenthesis,
  \<open>None\<close> for a group that took no part) and the position after the match.
\<close>

fun rx_match :: "regex \<Rightarrow> nat \<times> string \<Rightarrow> (string option list \<times> nat \<times> string) list" where
  "rx_match (Lit s) (i, xs) =
     (case strip_prefix s xs of None \<Rightarrow> [] | Some ys \<Rightarrow> [([], i + length s, ys)])"
| "rx_match (Cls c) (i, xs) =
     (case xs of [] \<Rightarrow> [] | x # xs' \<Rightarrow> if cclass_ok c x then [([], Suc i, xs')] else [])"
| "rx_match (Many1 c) (i, xs) =
     map (\<lambda>n. ([], i + n, drop n xs)) (rev [1 ..< Suc (length (takeWhile (cclass_ok c) xs))])"
| "rx_match (Opt r) (i, xs) = rx_match r (i, xs) @ [(replicate (ngroups r) None, i, xs)]"
| "rx_match (Cat r1 r2) (i, xs) =
     concat (map (\<lambda>(g1, j, ys). map (\<lambda>(g2, k, zs). (g1 @ g2, k, zs)) (rx_match r2 (j, ys)))
                 (rx_match r1 (i, xs)))"
| "rx_match (Group r) (i, xs) =
     map (\<lambda>(g, j, ys). (Some (take (j - i) xs) # g, j, ys)) (rx_match r (i, xs))"
| "rx_match Bol (i, xs) = (if i = 0 then [([], i, xs)] else [])"

text \<open>
  \<^verbatim>\<open>re.search(r, l)\<close>: the first offset, from the left, at which the pattern matches, and
  the first match there. The match object is the list of its groups 1, 2, ...
\<close>

type_synonym match = "string option list"

fun search_from :: "regex \<Rightarrow> nat \<Rightarrow> string \<Rightarrow> match option" where
  "search_from r i xs =
     (case rx_match r (i, xs) of
        (g, _) # _ \<Rightarrow> Some g
      | [] \<Rightarrow> (case xs of [] \<Rightarrow> None | _ # xs' \<Rightarrow> search_from r (Suc i) xs'))"

definition re_search :: "regex \<Rightarrow> string \<Rightarrow> match option" where
  "re_search r l = search_from r 0 l"

text \<open>\<^verbatim>\<open>match.group(n)\<close>, \<open>None\<close> for a group that took no part in the match.\<close>

definition mgroup :: "match \<Rightarrow> nat \<Rightarrow> string option" where
  "mgroup m n = (case drop (n - 1) m of g # _ \<Rightarrow> g | [] \<Rightarrow> None)"

subsection \<open>Substring test, replace, rsplit, splitlines\<close>

text \<open>\<^verbatim>\<open>sub in s\<close>.\<close>

fun str_in :: "string \<Rightarrow> string \<Rightarrow> bool" where
  "str_in sub [] = (sub = [])"
| "str_in sub (x # xs) = (if strip_prefix sub (x # xs) \<noteq> None then True else str_in sub xs)"

text \<open>\<^verbatim>\<open>s.replace(old, "")\<close> for a non-empty \<open>old\<close>: every occurrence, left to right.\<close>

fun remove_all :: "string \<Rightarrow> string \<Rightarrow> string" where
  "remove_all old [] = []"
| "remove_all old (x # xs) =
     (if old \<noteq> [] \<and> strip_prefix old (x # xs) \<noteq> None
      then remove_all old (drop (length old - 1) xs)
      else x # remove_all old xs)"

text \<open>\<^verbatim>\<open>s.rsplit("_", 1)[0]\<close>: the text before the last underscore, all of \<open>s\<close> without one.\<close>

definition rsplit1_head :: "string \<Rightarrow> string" where
  "rsplit1_head s =
     (if CHR ''_'' \<in> set s then rev (tl (dropWhile (\<lambda>c. c \<noteq> CHR ''_'') (rev s))) else s)"

text \<open>
  \<^verbatim>\<open>str.splitlines()\<close>: the line boundaries below code point 256, the pair CR LF counting
  as one; the boundaries are dropped and a final boundary opens no empty line.
\<close>

definition is_linebreak :: "char \<Rightarrow> bool" where
  "is_linebreak c = (c \<in> set [CHR 0x0A, CHR 0x0B, CHR 0x0C, CHR 0x0D,
                               CHR 0x1C, CHR 0x1D, CHR 0x1E, CHR 0x85])"

fun splitlines_acc :: "string \<Rightarrow> string \<Rightarrow> string list" where
  "splitlines_acc cur [] = (if cur = [] then [] else [rev cur])"
| "splitlines_acc cur (x # xs) =
     (if x = CHR 0x0D \<and> xs \<noteq> [] \<and> hd xs = CHR 0x0A then rev cur # splitlines_acc [] (tl xs)
      else if is_linebreak x then rev cur # splitlines_acc [] xs
      else splitlines_acc (x # cur) xs)"

definition splitlines :: "string \<Rightarrow> string list" where
  "splitlines s = splitlines_acc [] s"

subsection \<open>Numbers\<close>

text \<open>
  A stored value is a Python \<^verbatim>\<open>int\<close> or \<^verbatim>\<open>float\<close>. A float is represented by the exact
  decimal value of its literal; the rounding to binary64 (and the overflow to \<^verbatim>\<open>inf\<close> of
  literals beyond its range) is not represented.
\<close>

datatype pyval = PyInt int | PyFloat rat

datatype error = ValueError | TypeError | OverflowError | UserWarning | ModuleNoSamplesFound

definition digits_val :: "string \<Rightarrow> nat" where
  "digits_val ds = foldl (\<lambda>a c. 10 * a + (of_char c - 48)) 0 (filter is_digit ds)"

text \<open>A digit part of a numeric literal: digits, with single underscores between digits.\<close>

fun digitpart_ok :: "string \<Rightarrow> bool" where
  "digitpart_ok [] = False"
| "digitpart_ok [c] = is_digit c"
| "digitpart_ok (c # d # cs) =
     (is_digit c \<and> (if d = CHR ''_'' then digitpart_ok cs else digitpart_ok (d # cs)))"

definition dig_us :: "char \<Rightarrow> bool" where
  "dig_us c = (is_digit c \<or> c = CHR ''_'')"

text \<open>The exponent of a float literal: \<open>None\<close> when malformed, else its sign and size.\<close>

definition float_exponent :: "string \<Rightarrow> (bool \<times> nat) option" where
  "float_exponent s =
     (case s of
        [] \<Rightarrow> Some (False, 0)
      | c # t \<Rightarrow>
          if c \<in> set ''eE'' then
            (let (neg, ds) = (case t of
                                [] \<Rightarrow> (False, [])
                              | sg # t' \<Rightarrow> if sg = CHR ''-'' then (True, t')
                                          else if sg = CHR ''+'' then (False, t')
                                          else (False, t))
             in if digitpart_ok ds then Some (neg, digits_val ds) else None)
          else None)"

text \<open>
  \<^verbatim>\<open>float(s)\<close> on a text that begins with a digit or a point, which every capture group
  of the modules does (so the forms with a sign, surrounding blanks, \<^verbatim>\<open>inf\<close> and \<^verbatim>\<open>nan\<close>
  cannot reach it): an integer part, an optional point and fraction, an optional exponent.
  Anything else raises ValueError; \<^verbatim>\<open>float(None)\<close> raises TypeError.
\<close>

definition float_str :: "string \<Rightarrow> error + pyval" where
  "float_str s =
     (let ip = takeWhile dig_us s; r1 = dropWhile dig_us s;
          fp = (case r1 of [] \<Rightarrow> [] | c # t \<Rightarrow> if c = CHR ''.'' then takeWhile dig_us t else []);
          r2 = (case r1 of [] \<Rightarrow> [] | c # t \<Rightarrow> if c = CHR ''.'' then dropWhile dig_us t else r1)
      in if (ip = [] \<or> digitpart_ok ip) \<and> (fp = [] \<or> digitpart_ok fp) \<and> (ip \<noteq> [] \<or> fp \<noteq> [])
         then (case float_exponent r2 of
                 None \<Rightarrow> Inl ValueError
               | Some (neg, e) \<Rightarrow>
                   (let m = of_nat (digits_val ip)
                            + of_nat (digits_val fp) / 10 ^ length (filter is_digit fp)
                    in Inr (PyFloat (if neg then m / 10 ^ e else m * 10 ^ e))))
         else Inl ValueError)"

definition py_float :: "string option \<Rightarrow> error + pyval" where
  "py_float g = (case g of None \<Rightarrow> Inl TypeError | Some s \<Rightarrow> float_str s)"

text \<open>
  \<^verbatim>\<open>int(s)\<close> on a text that begins with a digit (the captures of \<^verbatim>\<open>(\d+)\<close>); the limit on
  the number of digits that recent interpreters impose is not represented.
\<close>

definition py_int :: "string option \<Rightarrow> error + pyval" where
  "py_int g =
     (case g of
        None \<Rightarrow> Inl TypeError
      | Some s \<Rightarrow> if digitpart_ok s then Inr (PyInt (int (digits_val s))) else Inl ValueError)"

section \<open>The data model\<close>

text \<open>
  A sample record maps metric keys to values; a module's result maps sample names to sample
  records. A log file handle carries the sample name guessed by the host, the file name and
  the content: the text, or for hisat2 (\<^verbatim>\<open>filehandles=True\<close>) the lines an open file yields,
  each with its line end.
\<close>

type_synonym dict = "(string \<times> pyval) list"
type_synonym samples = "(string \<times> dict) list"

record 'c logfile =
  f_s_name :: string
  f_fn :: string
  f_f :: 'c

text \<open>
  A column header of the general-statistics table: title, the bounds of the display range,
  the suffix and the colour scale (\<open>None\<close> for \<^verbatim>\<open>False\<close>). The description text is left out.
\<close>

record header =
  title :: string
  hmin :: "int option"
  hmax :: "int option"
  suffix :: "string option"
  scale :: "string option"

definition plain_header :: "string \<Rightarrow> header" where
  "plain_header t = \<lparr>title = t, hmin = Some 0, hmax = None, suffix = None, scale = None\<rparr>"

text \<open>A bar chart handed to the host: its data, its categories (key, colour, name), its id.\<close>

record bargraph =
  plot_data :: samples
  plot_cats :: "(string \<times> string \<times> string) list"
  plot_id :: string

text \<open>
  What a module asks of the host, in call order: log messages, \<^verbatim>\<open>add_data_source\<close>,
  \<^verbatim>\<open>add_software_version\<close>, \<^verbatim>\<open>write_data_file\<close>, \<^verbatim>\<open>general_stats_addcols\<close> and
  \<^verbatim>\<open>add_section\<close>. The data handed over is recorded as it is at the time of the call.
\<close>

datatype effect =
    LogDebug string
  | LogInfoFound nat
  | AddDataSource string string
  | AddSoftwareVersion
  | WriteDataFile samples string
  | GeneralStatsAddcols samples "(string \<times> header) list"
  | AddSection bargraph

text \<open>The three report contributions: data file, table columns, chart.\<close>

fun is_contribution :: "effect \<Rightarrow> bool" where
  "is_contribution (WriteDataFile _ _) = True"
| "is_contribution (GeneralStatsAddcols _ _) = True"
| "is_contribution (AddSection _) = True"
| "is_contribution _ = False"

text \<open>
  Modelled from the spec: the host's sample-ignore filter (\<^verbatim>\<open>ignore_samples\<close> of the base
  module, not part of these sources) removes the samples whose name the host's configuration
  ignores and keeps the others as they are. The configuration is the predicate \<open>ig\<close>.
\<close>

definition ignore_samples :: "(string \<Rightarrow> bool) \<Rightarrow> (string \<times> 'r) list \<Rightarrow> (string \<times> 'r) list" where
  "ignore_samples ig d = filter (\<lambda>(n, _). \<not> ig n) d"

text \<open>
  The state of a module object: its result mapping and the calls it has made to the host.
  In coverage\_metrics, primerclip and jax\_trimmer a stored record is never written again,
  so the mapping holds the records themselves (\<open>'r = dict\<close>); hisat2 writes to stored records
  through a second reference, so there the mapping holds addresses into a heap of dictionary
  objects (\<open>'r = nat\<close>). A function that can raise returns \<open>Inl (e, self)\<close>, the exception
  and the object as the exception leaves it, or \<open>Inr self\<close>.
\<close>

record 'r module =
  data :: "(string \<times> 'r) list"
  trace :: "effect list"

text \<open>The loop of \<^verbatim>\<open>__init__\<close> over the files the host found.\<close>

fun parse_files :: "('f \<Rightarrow> 's \<Rightarrow> error \<times> 's + 's) \<Rightarrow> 'f list \<Rightarrow> 's \<Rightarrow> error \<times> 's + 's" where
  "parse_files parse [] self = Inr self"
| "parse_files parse (f # fs) self =
     (case parse f self of Inl x \<Rightarrow> Inl x | Inr self' \<Rightarrow> parse_files parse fs self')"

section \<open>The line scanner\<close>

text \<open>
  The inner loop that coverage\_metrics, primerclip and hisat2 share word for word, up to the
  conversion (\<^verbatim>\<open>float\<close> or \<^verbatim>\<open>int\<close>):
  \<^verbatim>\<open>for k, r in regexes.items(): match = re.search(r, l); if match: parsed_data[k] = conv(match.group(1))\<close>
\<close>

fun scan_line :: "(string option \<Rightarrow> error + pyval) \<Rightarrow> (string \<times> regex) list \<Rightarrow> string \<Rightarrow> dict
                  \<Rightarrow> error + dict" where
  "scan_line conv [] l parsed_data = Inr parsed_data"
| "scan_line conv ((k, r) # regexes) l parsed_data =
     (case re_search r l of
        None \<Rightarrow> scan_line conv regexes l parsed_data
      | Some m \<Rightarrow>
          (case conv (mgroup m 1) of
             Inl e \<Rightarrow> Inl e
           | Inr v \<Rightarrow> scan_line conv regexes l (AList.update k v parsed_data)))"

text \<open>The outer loop over the lines of one file; an exception ends it.\<close>

fun scan_lines :: "(string option \<Rightarrow> error + pyval) \<Rightarrow> (string \<times> regex) list \<Rightarrow> string list \<Rightarrow> dict
                   \<Rightarrow> error + dict" where
  "scan_lines conv regexes [] parsed_data = Inr parsed_data"
| "scan_lines conv regexes (l # ls) parsed_data =
     (case scan_line conv regexes l parsed_data of
        Inl e \<Rightarrow> Inl e
      | Inr parsed_data' \<Rightarrow> scan_lines conv regexes ls parsed_data')"

text \<open>
  The end of a parse function in coverage\_metrics, primerclip and jax\_trimmer: a non-empty
  \<^verbatim>\<open>parsed_data\<close> is stored under the sample name, with a debug message when the name is
  already there.
\<close>

definition store_sample :: "string logfile \<Rightarrow> string \<Rightarrow> dict \<Rightarrow> (dict, 'a) module_scheme
                            \<Rightarrow> (dict, 'a) module_scheme" where
  "store_sample f s_name parsed_data self =
     (if length parsed_data > 0 then
        self\<lparr>trace := trace self
                 @ (if s_name \<in> set (map fst (data self))
                    then [LogDebug (''Duplicate sample name found! Overwriting: '' @ s_name)] else [])
                 @ [AddDataSource (f_fn f) s_name],
             data := AList.update s_name parsed_data (data self)\<rparr>
      else self)"

text \<open>
  The end of \<^verbatim>\<open>__init__\<close> in the same three modules, after the parse loop: the ignore filter,
  the no-samples check, the info message and the data file; the module's table follows.
\<close>

definition finish_init :: "(string \<Rightarrow> bool) \<Rightarrow> string \<Rightarrow> (dict, 'a) module_scheme
                           \<Rightarrow> error \<times> (dict, 'a) module_scheme + (dict, 'a) module_scheme" where
  "finish_init ig fname self0 =
     (let self1 = self0\<lparr>data := ignore_samples ig (data self0)\<rparr>
      in if length (data self1) = 0 then Inl (UserWarning, self1)
         else
           (let self2 = self1\<lparr>trace := trace self1 @ [LogInfoFound (length (data self1))]\<rparr>
            in Inr (self2\<lparr>trace := trace self2 @ [WriteDataFile (data self2) fname]\<rparr>)))"

section \<open>coverage\_metrics\<close>

definition number_opt_frac :: regex where
  "number_opt_frac = seq [Many1 (Item CDigit), Opt (seq [Lit ''.'', Many1 (Item CDigit)])]"

definition coverage_metrics_regexes :: "(string \<times> regex) list" where
  "coverage_metrics_regexes =
     [(''on_target_percent'',
         seq [Lit ''on_target_percent'', Many1 (Item CSpace), Group number_opt_frac]),
      (''coverage_uniformity'',
         seq [Lit ''coverage_uniformity'', Many1 (Item CSpace), Group number_opt_frac])]"

definition parse_coverage_metrics_logs :: "string logfile \<Rightarrow> dict module
                                           \<Rightarrow> error \<times> dict module + dict module" where
  "parse_coverage_metrics_logs f self =
     (let s_name = remove_all ''_amplicon_coverage_metrics'' (f_s_name f)
      in case scan_lines py_float coverage_metrics_regexes (splitlines (f_f f)) [] of
           Inl e \<Rightarrow> Inl (e, self)
         | Inr parsed_data \<Rightarrow> Inr (store_sample f s_name parsed_data self))"

definition coverage_metrics_general_stats_table :: "dict module \<Rightarrow> dict module" where
  "coverage_metrics_general_stats_table self =
     self\<lparr>trace := trace self @ [GeneralStatsAddcols (data self)
        [(''on_target_percent'', plain_header ''On Target Percentage''),
         (''coverage_uniformity'', plain_header ''Coverage Uniformity'')]]\<rparr>"

definition coverage_metrics_init :: "(string \<Rightarrow> bool) \<Rightarrow> string logfile list
                                     \<Rightarrow> error \<times> dict module + dict module" where
  "coverage_metrics_init ig files =
     (case parse_files parse_coverage_metrics_logs files \<lparr>data = [], trace = []\<rparr> of
        Inl x \<Rightarrow> Inl x
      | Inr self0 \<Rightarrow>
          (case finish_init ig ''multiqc_coverage_metrics'' self0 of
             Inl x \<Rightarrow> Inl x
           | Inr self1 \<Rightarrow> Inr (coverage_metrics_general_stats_table self1)))"

section \<open>primerclip\<close>

definition digits_any_digits :: regex where
  "digits_any_digits = seq [Many1 (Item CDigit), Cls Dot, Many1 (Item CDigit)]"

definition primerclip_regexes :: "(string \<times> regex) list" where
  "primerclip_regexes =
     [(''total_alignments'',
         seq [Lit ''Total alignments processed:'', Many1 (Item CSpace),
              Group (Many1 (Item CDigit))]),
      (''total_mapped_alignments'',
         seq [Lit ''Total mapped alignments:'', Many1 (Item CSpace),
              Group (Many1 (Item CDigit))]),
      (''trimmed_by_ge_one_base'',
         seq [Bol, Lit ''Alignments trimmed by >= 1 base:'', Many1 (Item CSpace),
              Group (Many1 (Item CDigit))]),
      (''trimmed_to_zero'',
         seq [Lit ''Alignments trimmed to zero aligned length:'', Many1 (Item CSpace),
              Group digits_any_digits]),
      (''perc_trimmed_by_ge_one_base'',
         seq [Lit ''% Alignments trimmed by >= 1 base:'', Many1 (Item CSpace),
              Group digits_any_digits]),
      (''perc_mapped_after_trimming'',
         seq [Lit ''% Alignments mapped after trimming:'', Many1 (Item CSpace),
              Group digits_any_digits])]"

definition parse_primerclip_logs :: "string logfile \<Rightarrow> dict module
                                     \<Rightarrow> error \<times> dict module + dict module" where
  "parse_primerclip_logs f self =
     (let s_name = remove_all ''_primerclip_runstats'' (f_s_name f)
      in case scan_lines py_float primerclip_regexes (splitlines (f_f f)) [] of
           Inl e \<Rightarrow> Inl (e, self)
         | Inr parsed_data \<Rightarrow> Inr (store_sample f s_name parsed_data self))"

definition primerclip_general_stats_table :: "dict module \<Rightarrow> dict module" where
  "primerclip_general_stats_table self =
     self\<lparr>trace := trace self @ [GeneralStatsAddcols (data self)
        [(''total_alignments'', plain_header ''Total Alignments''),
         (''total_mapped_alignments'', plain_header ''Mapped Alignments''),
         (''trimmed_by_ge_one_base'', plain_header ''Trimmed Alignments''),
         (''trimmed_to_zero'', plain_header ''Removed Alignments'')]]\<rparr>"

definition primerclip_init :: "(string \<Rightarrow> bool) \<Rightarrow> string logfile list
                               \<Rightarrow> error \<times> dict module + dict module" where
  "primerclip_init ig files =
     (case parse_files parse_primerclip_logs files \<lparr>data = [], trace = []\<rparr> of
        Inl x \<Rightarrow> Inl x
      | Inr self0 \<Rightarrow>
          (case finish_init ig ''multiqc_primerclip'' self0 of
             Inl x \<Rightarrow> Inl x
           | Inr self1 \<Rightarrow> Inr (primerclip_general_stats_table self1)))"

section \<open>jax\_trimmer\<close>

text \<open>The two-column (paired-end) table \<^verbatim>\<open>regexes\<close> and the one-column table \<^verbatim>\<open>regexes_se\<close>.\<close>

definition grouped_number :: regex where
  "grouped_number = Group (Group number_opt_frac)"

definition jax_regexes :: "(string \<times> regex) list" where
  "jax_regexes =
     [(''perc_hq'',
         seq [Lit ''Percentage of HQ reads'', Many1 (Item CSpace), Group digits_any_digits,
              Lit ''%'', Many1 (Item CSpace), Group digits_any_digits]),
      (''total_reads'',
         seq [Lit ''Total number of reads'', Many1 (Item CSpace), Group (Many1 (Item CDigit)),
              Many1 (Item CSpace), Group (Many1 (Item CDigit))]),
      (''total_hq_reads'',
         seq [Lit ''Total number of HQ filtered reads'', Many1 (Item CSpace),
              Group (Many1 (Item CDigit)), Many1 (Item CSpace), Group (Many1 (Item CDigit))]),
      (''reads_passing'',
         seq [Lit ''Reads passing filter'', Many1 (Item CSpace), Group (Many1 (Item CDigit)),
              Many1 (Item CSpace), Group (Many1 (Item CDigit))]),
      (''perc_passing'',
         seq [Lit ''Percent reads passing filter'', Many1 (Item CSpace),
              Group digits_any_digits, Lit ''%'', Many1 (Item CSpace), Group digits_any_digits]),
      (''max_trim_len'',
         seq [Lit ''Max Trimmed Length'', Many1 (Item CSpace), grouped_number,
              Many1 (Item CSpace), grouped_number]),
      (''min_trim_len'',
         seq [Lit ''Min Trimmed Length'', Many1 (Item CSpace), grouped_number,
              Many1 (Item CSpace), grouped_number]),
      (''mean_trim_len'',
         seq [Lit ''Mean Trimmed Length'', Many1 (Item CSpace), grouped_number,
              Many1 (Item CSpace), grouped_number])]"

definition jax_regexes_se :: "(string \<times> regex) list" where
  "jax_regexes_se =
     [(''perc_hq'',
         seq [Lit ''Percentage of HQ reads'', Many1 (Item CSpace), Group digits_any_digits,
              Lit ''%'']),
      (''total_reads'',
         seq [Lit ''Total number of reads'', Many1 (Item CSpace), Group (Many1 (Item CDigit))]),
      (''total_hq_reads'',
         seq [Lit ''Total number of HQ filtered reads'', Many1 (Item CSpace),
              Group (Many1 (Item CDigit))]),
      (''reads_passing'',
         seq [Lit ''Reads passing filter'', Many1 (Item CSpace), Group (Many1 (Item CDigit))]),
      (''perc_passing'',
         seq [Lit ''Percent reads passing filter'', Many1 (Item CSpace),
              Group digits_any_digits, Lit ''%'']),
      (''max_trim_len'', seq [Lit ''Max Trimmed Length'', Many1 (Item CSpace), grouped_number]),
      (''min_trim_len'', seq [Lit ''Min Trimmed Length'', Many1 (Item CSpace), grouped_number]),
      (''mean_trim_len'', seq [Lit ''Mean Trimmed Length'', Many1 (Item CSpace), grouped_number])]"

record jax_module = "dict module" +
  pe_bool :: bool

text \<open>
  The paired-end branch of the loop body: groups 1 and 2 of a match, stored under the key
  with \<^verbatim>\<open>_1\<close> and with \<^verbatim>\<open>_2\<close>.
\<close>

fun jax_scan_pe :: "(string \<times> regex) list \<Rightarrow> string \<Rightarrow> dict \<Rightarrow> error + dict" where
  "jax_scan_pe [] l parsed_data = Inr parsed_data"
| "jax_scan_pe ((k, r) # regexes) l parsed_data =
     (case re_search r l of
        None \<Rightarrow> jax_scan_pe regexes l parsed_data
      | Some m \<Rightarrow>
          (case py_float (mgroup m 1) of
             Inl e \<Rightarrow> Inl e
           | Inr v1 \<Rightarrow>
               (case py_float (mgroup m 2) of
                  Inl e \<Rightarrow> Inl e
                | Inr v2 \<Rightarrow>
                    jax_scan_pe regexes l
                      (AList.update (k @ ''_2'') v2 (AList.update (k @ ''_1'') v1 parsed_data)))))"

text \<open>The single-end branch: group 1, stored under the key with \<^verbatim>\<open>_1\<close>.\<close>

fun jax_scan_se :: "(string \<times> regex) list \<Rightarrow> string \<Rightarrow> dict \<Rightarrow> error + dict" where
  "jax_scan_se [] l parsed_data = Inr parsed_data"
| "jax_scan_se ((k, r) # regexes) l parsed_data =
     (case re_search r l of
        None \<Rightarrow> jax_scan_se regexes l parsed_data
      | Some m \<Rightarrow>
          (case py_float (mgroup m 1) of
             Inl e \<Rightarrow> Inl e
           | Inr v1 \<Rightarrow> jax_scan_se regexes l (AList.update (k @ ''_1'') v1 parsed_data)))"

text \<open>
  The loop over the lines: its state is \<^verbatim>\<open>self.pe_bool\<close> and \<^verbatim>\<open>parsed_data\<close>. A line that
  contains \<^verbatim>\<open>Read\<close> is never matched against a table; it sets the flag when it contains
  \<^verbatim>\<open>Read 2\<close>.
\<close>

fun jax_lines :: "string list \<Rightarrow> bool \<times> dict \<Rightarrow> error \<times> bool + bool \<times> dict" where
  "jax_lines [] (pe, parsed_data) = Inr (pe, parsed_data)"
| "jax_lines (l # ls) (pe, parsed_data) =
     (if str_in ''Read'' l then
        (if str_in ''Read 2'' l then jax_lines ls (True, parsed_data)
         else jax_lines ls (pe, parsed_data))
      else
        (case (if pe then jax_scan_pe jax_regexes l parsed_data
               else jax_scan_se jax_regexes_se l parsed_data) of
           Inl e \<Rightarrow> Inl (e, pe)
         | Inr parsed_data' \<Rightarrow> jax_lines ls (pe, parsed_data')))"

definition parse_jax_trimmer_logs :: "string logfile \<Rightarrow> jax_module \<Rightarrow> error \<times> jax_module + jax_module" where
  "parse_jax_trimmer_logs f self =
     (let s_name = rsplit1_head (f_s_name f)
      in case jax_lines (splitlines (f_f f)) (False, []) of
           Inl (e, pe) \<Rightarrow> Inl (e, self\<lparr>pe_bool := pe\<rparr>)
         | Inr (pe, parsed_data) \<Rightarrow> Inr (store_sample f s_name parsed_data (self\<lparr>pe_bool := pe\<rparr>)))"

definition jax_headers_1 :: "(string \<times> header) list" where
  "jax_headers_1 =
     [(''total_reads_1'', plain_header ''Total Reads R1''),
      (''total_hq_reads_1'', plain_header ''Total HQ Reads R1''),
      (''reads_passing_1'', plain_header ''Reads Passing Filter R1''),
      (''min_trim_len_1'', plain_header ''Min Trim Length R1''),
      (''mean_trim_len_1'', plain_header ''Mean Trim Length R1''),
      (''max_trim_len_1'', plain_header ''Max Trim Length R1'')]"

definition jax_headers_2 :: "(string \<times> header) list" where
  "jax_headers_2 =
     [(''total_reads_2'', plain_header ''Total Reads R2''),
      (''total_hq_reads_2'', plain_header ''Total HQ Reads R2''),
      (''reads_passing_2'', plain_header ''Reads Passing Filter R2''),
      (''min_trim_len_2'', plain_header ''Min Trim Length R2''),
      (''mean_trim_len_2'', plain_header ''Mean Trim Length R2''),
      (''max_trim_len_2'', plain_header ''Max Trim Length R2'')]"

definition jax_trimmer_headers :: "jax_module \<Rightarrow> (string \<times> header) list" where
  "jax_trimmer_headers self = jax_headers_1 @ (if pe_bool self then jax_headers_2 else [])"

definition jax_trimmer_general_stats_table :: "jax_module \<Rightarrow> jax_module" where
  "jax_trimmer_general_stats_table self =
     self\<lparr>trace := trace self @ [GeneralStatsAddcols (data self) (jax_trimmer_headers self)]\<rparr>"

definition jax_trimmer_init :: "(string \<Rightarrow> bool) \<Rightarrow> string logfile list
                                \<Rightarrow> error \<times> jax_module + jax_module" where
  "jax_trimmer_init ig files =
     (case parse_files parse_jax_trimmer_logs files \<lparr>data = [], trace = [], pe_bool = False\<rparr> of
        Inl x \<Rightarrow> Inl x
      | Inr self0 \<Rightarrow>
          (case finish_init ig ''multiqc_jax_trimmer'' self0 of
             Inl x \<Rightarrow> Inl x
           | Inr self1 \<Rightarrow> Inr (jax_trimmer_general_stats_table self1)))"

section \<open>hisat2\<close>

definition count_and_percent :: "regex list" where
  "count_and_percent =
     [Group (Many1 (Item CDigit)), Lit '' ('', Many1 (SetOf [CDigit, CChar (CHR ''.'')]),
      Lit ''%)'']"

definition hisat2_regexes :: "(string \<times> regex) list" where
  "hisat2_regexes =
     [(''unpaired_total'',
         seq [Lit ''Total'', Opt (Lit '' unpaired''), Lit '' reads: '', Group (Many1 (Item CDigit))]),
      (''unpaired_aligned_none'',
         seq ([Lit ''Aligned 0 time'', Opt (Lit ''s''), Lit '': ''] @ count_and_percent)),
      (''unpaired_aligned_one'', seq (Lit ''Aligned 1 time: '' # count_and_percent)),
      (''unpaired_aligned_multi'', seq (Lit ''Aligned >1 times: '' # count_and_percent)),
      (''paired_total'', seq [Lit ''Total pairs: '', Group (Many1 (Item CDigit))]),
      (''paired_aligned_none'',
         seq (Lit ''Aligned concordantly or discordantly 0 time: '' # count_and_percent)),
      (''paired_aligned_one'', seq (Lit ''Aligned concordantly 1 time: '' # count_and_percent)),
      (''paired_aligned_multi'', seq (Lit ''Aligned concordantly >1 times: '' # count_and_percent)),
      (''paired_aligned_discord_one'',
         seq (Lit ''Aligned discordantly 1 time: '' # count_and_percent))]"

definition hscmd_regex :: regex where
  "hscmd_regex =
     seq [Lit ''hisat2 '', Many1 Dot, Lit '' -'', Cls (SetOf [CChar (CHR ''1''), CChar (CHR ''U'')]),
          Lit '' '', Group (Many1 (NotSetOf [CSpace, CChar (CHR '','')]))]"

definition overall_regex :: regex where
  "overall_regex =
     seq [Lit ''Overall alignment rate: '', Group (Many1 (SetOf [CDigit, CChar (CHR ''.'')])),
          Lit ''%'']"

text \<open>
  The module object of hisat2: \<^verbatim>\<open>self.hisat2_data\<close> maps a sample name to the address of its
  record, and \<open>heap\<close> holds the dictionary objects; \<open>next_addr\<close> is the first unused address.
\<close>

record hisat2_module = "nat module" +
  heap :: "nat \<Rightarrow> dict"
  next_addr :: nat

text \<open>The mapping as a reader of \<^verbatim>\<open>self.hisat2_data\<close> sees it.\<close>

definition view :: "(nat \<Rightarrow> dict) \<Rightarrow> (string \<times> nat) list \<Rightarrow> samples" where
  "view h d = map (\<lambda>(n, a). (n, h a)) d"

definition hisat2_view :: "hisat2_module \<Rightarrow> samples" where
  "hisat2_view self = view (heap self) (data self)"

text \<open>
  The body of the loop over the lines of a file. Its state is the current sample name, the
  dictionary \<^verbatim>\<open>parsed_data\<close> being filled (held by the local variable alone until it is
  stored) and the module object. \<open>clean_s_name\<close> is the host's method of that name.
\<close>

definition hisat2_line :: "(string \<Rightarrow> string list logfile \<Rightarrow> string) \<Rightarrow> string list logfile \<Rightarrow> string
                            \<Rightarrow> string \<times> dict \<times> hisat2_module
                            \<Rightarrow> error \<times> hisat2_module + string \<times> dict \<times> hisat2_module" where
  "hisat2_line clean_s_name f line st =
     (case st of (s_name0, parsed_data0, self0) \<Rightarrow>
        (case (case re_search hscmd_regex line of
                 None \<Rightarrow> Inr (s_name0, self0)
               | Some m \<Rightarrow>
                   (case mgroup m 1 of
                      None \<Rightarrow> Inl (TypeError, self0)
                    | Some g \<Rightarrow>
                        (let s = clean_s_name g f
                         in Inr (s, self0\<lparr>trace := trace self0 @ [LogDebug
                              (''Found a HISAT2 command, updating sample name to '' @ [CHR 0x27] @ s
                               @ [CHR 0x27])]\<rparr>)))) of
           Inl x \<Rightarrow> Inl x
         | Inr (s_name, self) \<Rightarrow>
             (case scan_line py_int hisat2_regexes line parsed_data0 of
                Inl e \<Rightarrow> Inl (e, self)
              | Inr parsed_data \<Rightarrow>
                  (case re_search overall_regex line of
                     None \<Rightarrow> Inr (s_name, parsed_data, self)
                   | Some overall \<Rightarrow>
                       (case py_float (mgroup overall 1) of
                          Inl e \<Rightarrow> Inl (e, self)
                        | Inr v \<Rightarrow>
                            Inr (f_s_name f, [],
                                 self\<lparr>trace := trace self
                                        @ (if s_name \<in> set (map fst (data self))
                                           then [LogDebug (''Duplicate sample name found! Overwriting: ''
                                                           @ s_name)] else [])
                                        @ [AddDataSource (f_fn f) s_name],
                                      data := AList.update s_name (next_addr self) (data self),
                                      heap := (heap self)(next_addr self :=
                                                AList.update ''overall_alignment_rate'' v parsed_data),
                                      next_addr := Suc (next_addr self)\<rparr>))))))"

fun hisat2_lines :: "(string \<Rightarrow> string list logfile \<Rightarrow> string) \<Rightarrow> string list logfile \<Rightarrow> string list
                     \<Rightarrow> string \<times> dict \<times> hisat2_module
                     \<Rightarrow> error \<times> hisat2_module + string \<times> dict \<times> hisat2_module" where
  "hisat2_lines clean_s_name f [] st = Inr st"
| "hisat2_lines clean_s_name f (line # ls) st =
     (case hisat2_line clean_s_name f line st of
        Inl x \<Rightarrow> Inl x
      | Inr st' \<Rightarrow> hisat2_lines clean_s_name f ls st')"

definition parse_hisat2_logs :: "(string \<Rightarrow> string list logfile \<Rightarrow> string) \<Rightarrow> string list logfile
                                 \<Rightarrow> hisat2_module \<Rightarrow> error \<times> hisat2_module + hisat2_module" where
  "parse_hisat2_logs clean_s_name f self =
     (case hisat2_lines clean_s_name f (f_f f) (f_s_name f, [], self) of
        Inl x \<Rightarrow> Inl x
      | Inr (_, _, self') \<Rightarrow> Inr self')"

definition hisat2_general_stats_table :: "hisat2_module \<Rightarrow> hisat2_module" where
  "hisat2_general_stats_table self =
     self\<lparr>trace := trace self @ [GeneralStatsAddcols (hisat2_view self)
        [(''overall_alignment_rate'',
          \<lparr>title = ''% Aligned'', hmin = Some 0, hmax = Some 100, suffix = Some ''%'',
           scale = Some ''YlGn''\<rparr>)]]\<rparr>"

text \<open>
  \<^verbatim>\<open>float(v)\<close> of a stored value. An int beyond the range of binary64 raises OverflowError;
  the least that does is \<open>2 ^ 1024 - 2 ^ 970\<close>, half way between the largest float and
  \<open>2 ^ 1024\<close>.
\<close>

definition float_overflows :: "int \<Rightarrow> bool" where
  "float_overflows n = (2 ^ 1024 - 2 ^ 970 \<le> \<bar>n\<bar>)"

fun to_float :: "pyval \<Rightarrow> error + rat" where
  "to_float (PyInt n) = (if float_overflows n then Inl OverflowError else Inr (of_int n))"
| "to_float (PyFloat q) = Inr q"

text \<open>\<^verbatim>\<open>float(v) / 2.0\<close>.\<close>

definition halve :: "pyval \<Rightarrow> error + pyval" where
  "halve v = (case to_float v of Inl e \<Rightarrow> Inl e | Inr q \<Rightarrow> Inr (PyFloat (q / 2)))"

definition m_keys :: "string list" where
  "m_keys = [''unpaired_total'', ''unpaired_aligned_none'', ''unpaired_aligned_one'',
             ''unpaired_aligned_multi'']"

text \<open>
  \<^verbatim>\<open>for k in m_keys: if k in data: data[k] = float(data[k]) / 2.0\<close>, on the dictionary. An
  exception leaves the dictionary with the keys before \<open>k\<close> already halved.
\<close>

fun halve_keys :: "string list \<Rightarrow> dict \<Rightarrow> error \<times> dict + dict" where
  "halve_keys [] d = Inr d"
| "halve_keys (k # ks) d =
     (case map_of d k of
        None \<Rightarrow> halve_keys ks d
      | Some v \<Rightarrow>
          (case halve v of
             Inl e \<Rightarrow> Inl (e, d)
           | Inr v' \<Rightarrow> halve_keys ks (AList.update k v' d)))"

text \<open>
  The loop of \<^verbatim>\<open>hisat2_alignment_plot\<close> over \<^verbatim>\<open>self.hisat2_data.items()\<close>. The variable
  \<^verbatim>\<open>data\<close> is the stored record itself (its address \<open>a\<close>), so the assignment to \<^verbatim>\<open>data[k]\<close>
  writes to the heap; \<^verbatim>\<open>sedata\<close> and \<^verbatim>\<open>pedata\<close> receive the same address. An exception
  ends the loop and leaves the heap as written so far.
\<close>

fun split_se_pe :: "(string \<times> nat) list \<Rightarrow> (string \<times> nat) list \<times> (string \<times> nat) list \<times> (nat \<Rightarrow> dict)
                    \<Rightarrow> error \<times> (nat \<Rightarrow> dict)
                        + (string \<times> nat) list \<times> (string \<times> nat) list \<times> (nat \<Rightarrow> dict)" where
  "split_se_pe [] st = Inr st"
| "split_se_pe ((s_name, a) # items) (sedata, pedata, h) =
     (if map_of (h a) ''paired_total'' \<noteq> None
      then (case halve_keys m_keys (h a) of
              Inl (e, d) \<Rightarrow> Inl (e, h(a := d))
            | Inr d \<Rightarrow> split_se_pe items (sedata, AList.update s_name a pedata, h(a := d)))
      else split_se_pe items (AList.update s_name a sedata, pedata, h))"

definition sekeys :: "(string \<times> string \<times> string) list" where
  "sekeys =
     [(''unpaired_aligned_one'', ''#20568f'', ''SE mapped uniquely''),
      (''unpaired_aligned_multi'', ''#f7a35c'', ''SE multimapped''),
      (''unpaired_aligned_none'', ''#981919'', ''SE not aligned'')]"

definition pekeys :: "(string \<times> string \<times> string) list" where
  "pekeys =
     [(''paired_aligned_one'', ''#20568f'', ''PE mapped uniquely''),
      (''paired_aligned_discord_one'', ''#5c94ca'', ''PE mapped discordantly uniquely''),
      (''unpaired_aligned_one'', ''#95ceff'', ''PE one mate mapped uniquely''),
      (''paired_aligned_multi'', ''#f7a35c'', ''PE multimapped''),
      (''unpaired_aligned_multi'', ''#ffeb75'', ''PE one mate multimapped''),
      (''unpaired_aligned_none'', ''#981919'', ''PE neither mate aligned'')]"

definition hisat2_alignment_plot :: "hisat2_module \<Rightarrow> error \<times> hisat2_module + hisat2_module" where
  "hisat2_alignment_plot self =
     (case split_se_pe (data self) ([], [], heap self) of
        Inl (e, h) \<Rightarrow> Inl (e, self\<lparr>heap := h\<rparr>)
      | Inr (sedata, pedata, h) \<Rightarrow>
          Inr (self\<lparr>heap := h,
                    trace := trace self
                      @ (if length sedata > 0
                         then [AddSection \<lparr>plot_data = view h sedata, plot_cats = sekeys,
                                           plot_id = ''hisat2_se_plot''\<rparr>] else [])
                      @ (if length pedata > 0
                         then [AddSection \<lparr>plot_data = view h pedata, plot_cats = pekeys,
                                           plot_id = ''hisat2_pe_plot''\<rparr>] else [])\<rparr>))"

definition hisat2_init :: "(string \<Rightarrow> string list logfile \<Rightarrow> string) \<Rightarrow> (string \<Rightarrow> bool)
                           \<Rightarrow> string list logfile list \<Rightarrow> error \<times> hisat2_module + hisat2_module" where
  "hisat2_init clean_s_name ig files =
     (case parse_files (parse_hisat2_logs clean_s_name) files
             \<lparr>data = [], trace = [], heap = (\<lambda>_. []), next_addr = 0\<rparr> of
        Inl x \<Rightarrow> Inl x
      | Inr self0 \<Rightarrow>
          (let self1 = self0\<lparr>data := ignore_samples ig (data self0)\<rparr>
           in if length (data self1) = 0 then Inl (ModuleNoSamplesFound, self1)
              else
                (let self2 = self1\<lparr>trace := trace self1
                                      @ [LogInfoFound (length (data self1)), AddSoftwareVersion]\<rparr>;
                     self3 = self2\<lparr>trace := trace self2
                                      @ [WriteDataFile (hisat2_view self2) ''multiqc_hisat2'']\<rparr>
                 in hisat2_alignment_plot (hisat2_general_stats_table self3))))"

section \<open>Notions used to state the properties\<close>

text \<open>Line \<open>l\<close> matches the pattern that the table holds for key \<open>k\<close>.\<close>

definition matches :: "(string \<times> regex) list \<Rightarrow> string \<Rightarrow> string \<Rightarrow> bool" where
  "matches regexes k l = (case map_of regexes k of None \<Rightarrow> False | Some r \<Rightarrow> re_search r l \<noteq> None)"

text \<open>
  The class \<open>c\<close> when group 1 of a pattern has the form \<^verbatim>\<open>(c+)\<close>; every pattern of the
  tables that is read with \<^verbatim>\<open>int\<close> has this form, with \<open>c\<close> the digits.
\<close>

fun g1_class :: "regex \<Rightarrow> cclass option" where
  "g1_class (Cat r1 r2) = (if ngroups r1 = 0 then g1_class r2 else g1_class r1)"
| "g1_class (Group r) = (case r of Many1 c \<Rightarrow> Some c | _ \<Rightarrow> None)"
| "g1_class _ = None"


text \<open>
  The sample name of hisat2 in force after the command check at the head of the loop body.
\<close>

definition hisat2_name :: "(string \<Rightarrow> string list logfile \<Rightarrow> string) \<Rightarrow> string list logfile \<Rightarrow> string
                            \<Rightarrow> string \<Rightarrow> string" where
  "hisat2_name clean_s_name f line s_name =
     (case re_search hscmd_regex line of
        None \<Rightarrow> s_name
      | Some m \<Rightarrow> (case mgroup m 1 of None \<Rightarrow> s_name | Some g \<Rightarrow> clean_s_name g f))"

text \<open>
  The lines of a jax\_trimmer log, each with the value of \<^verbatim>\<open>self.pe_bool\<close> when the loop
  reaches it, and the table the loop uses for a value of the flag.
\<close>

fun jax_modes :: "bool \<Rightarrow> string list \<Rightarrow> (bool \<times> string) list" where
  "jax_modes pe [] = []"
| "jax_modes pe (l # ls) =
     (pe, l) # jax_modes (if str_in ''Read'' l \<and> str_in ''Read 2'' l then True else pe) ls"

definition jax_table :: "bool \<Rightarrow> (string \<times> regex) list" where
  "jax_table pe = (if pe then jax_regexes else jax_regexes_se)"

text \<open>
  The heap discipline of hisat2: the records of different sample names are different
  objects, allocated below \<open>next_addr\<close>.
\<close>

definition heap_ok :: "hisat2_module \<Rightarrow> bool" where
  "heap_ok self = (distinct (map snd (data self)) \<and> list_all (\<lambda>a. a < next_addr self) (map snd (data self)))"

text \<open>
  Half of a stored value, as a float. Values for the concrete runs below: a
  \<^verbatim>\<open>clean_s_name\<close> that keeps the captured name, an ignore filter that ignores nothing,
  the hisat2 object before the parse loop, and the outcome of a hisat2 function as a reader
  of the mapping sees it.
\<close>

definition half_of :: "pyval \<Rightarrow> pyval" where
  "half_of v = (case v of PyInt n \<Rightarrow> PyFloat (of_int n / 2) | PyFloat q \<Rightarrow> PyFloat (q / 2))"

definition keep_name :: "string \<Rightarrow> string list logfile \<Rightarrow> string" where
  "keep_name g f = g"

definition ignore_none :: "string \<Rightarrow> bool" where
  "ignore_none n = False"

definition hisat2_new :: hisat2_module where
  "hisat2_new = \<lparr>data = [], trace = [], heap = (\<lambda>_. []), next_addr = 0\<rparr>"

definition outcome_view :: "error \<times> hisat2_module + hisat2_module \<Rightarrow> error + samples" where
  "outcome_view x = (case x of Inl (e, self) \<Rightarrow> Inl e | Inr self \<Rightarrow> Inr (hisat2_view self))"

section \<open>Properties of the matcher and of the line scanner\<close>

lemma strip_prefix_drop: "strip_prefix p xs = Some ys \<Longrightarrow> ys = drop (length p) xs"
  by (induction p xs rule: strip_prefix.induct) (auto split: if_splits)

lemma rx_match_pos:
  "(g, j, ys) \<in> set (rx_match r (i, xs)) \<Longrightarrow> i \<le> j \<and> ys = drop (j - i) xs \<and> length g = ngroups r"
proof (induction r arbitrary: g j ys i xs)
  case (Lit s)
  then show ?case by (auto split: option.splits dest: strip_prefix_drop [OF sym])
next
  case (Cls c)
  then show ?case by (auto split: list.splits if_splits)
next
  case (Many1 c)
  then show ?case by auto
next
  case (Opt r)
  then show ?case by auto
next
  case (Cat r1 r2)
  from Cat.prems obtain g1 j1 ys1 g2 where
    1: "(g1, j1, ys1) \<in> set (rx_match r1 (i, xs))" and
    2: "(g2, j, ys) \<in> set (rx_match r2 (j1, ys1))" and g: "g = g1 @ g2"
    by auto
  from Cat.IH(1) [OF 1] Cat.IH(2) [OF 2] g show ?case by auto
next
  case (Group r)
  then show ?case by auto
next
  case Bol
  then show ?case by (auto split: if_splits)
qed

lemma g1_class_sound:
  "g1_class r = Some c \<Longrightarrow> (g, j, ys) \<in> set (rx_match r (i, xs))
   \<Longrightarrow> \<exists>ds rest. g = Some ds # rest \<and> ds \<noteq> [] \<and> list_all (cclass_ok c) ds"
proof (induction r arbitrary: g j ys i xs)
  case (Cat r1 r2)
  from Cat.prems(2) obtain g1 j1 ys1 g2 where
    1: "(g1, j1, ys1) \<in> set (rx_match r1 (i, xs))" and
    2: "(g2, j, ys) \<in> set (rx_match r2 (j1, ys1))" and g: "g = g1 @ g2"
    by auto
  show ?case
  proof (cases "ngroups r1 = 0")
    case True
    with rx_match_pos [OF 1] have "g1 = []" by simp
    moreover from True Cat.prems(1) have "g1_class r2 = Some c" by simp
    ultimately show ?thesis using Cat.IH(2) [OF _ 2] g by simp
  next
    case False
    with Cat.prems(1) have "g1_class r1 = Some c" by simp
    from Cat.IH(1) [OF this 1] g show ?thesis by auto
  qed
next
  case (Group r)
  from Group.prems(1) have r: "r = Many1 c" by (cases r) auto
  from Group.prems(2) r obtain n where n: "1 \<le> n" "n \<le> length (takeWhile (cclass_ok c) xs)"
    and g: "g = [Some (take n xs)]" by auto
  have "take n xs = take n (takeWhile (cclass_ok c) xs)"
    using n(2) by (metis append_eq_conv_conj takeWhile_dropWhile_id take_all take_append diff_is_0_eq' append_Nil2 take_0)
  then have "list_all (cclass_ok c) (take n xs)"
    by (metis list_all_iff set_takeWhileD in_set_takeD)
  moreover from n have "take n xs \<noteq> []" by auto
  ultimately show ?case using g by simp
qed simp_all

lemma search_from_mem:
  "search_from r i xs = Some g \<Longrightarrow> \<exists>i' xs' st. (g, st) \<in> set (rx_match r (i', xs'))"
proof (induction xs arbitrary: i)
  case Nil
  then show ?case by (auto split: list.splits) (metis list.set_intros(1))
next
  case (Cons x xs)
  show ?case
  proof (cases "rx_match r (i, x # xs)")
    case Nil
    with Cons.prems have "search_from r (Suc i) xs = Some g" by simp
    from Cons.IH [OF this] show ?thesis .
  next
    case (Cons a list)
    with Cons.prems have "(g, snd a) \<in> set (rx_match r (i, x # xs))" by (cases a) auto
    then show ?thesis by blast
  qed
qed

lemma re_search_g1:
  assumes "g1_class r = Some c" and "re_search r l = Some m"
  shows "\<exists>ds. mgroup m 1 = Some ds \<and> ds \<noteq> [] \<and> list_all (cclass_ok c) ds"
proof -
  from assms(2) have "search_from r 0 l = Some m" by (simp only: re_search_def)
  from search_from_mem [OF this] obtain i' xs' j ys where
    "(m, j, ys) \<in> set (rx_match r (i', xs'))" by auto
  from g1_class_sound [OF assms(1) this] show ?thesis by (auto simp: mgroup_def)
qed

lemma digits_digitpart_ok: "ds \<noteq> [] \<Longrightarrow> list_all is_digit ds \<Longrightarrow> digitpart_ok ds"
proof (induction ds rule: digitpart_ok.induct)
  case (3 c d cs)
  then have "d \<noteq> CHR ''_''" by (auto simp: is_digit_def)
  with 3 show ?case by simp
qed simp_all

lemma scan_line_py_int_total:
  "\<forall>(k, r)\<in>set rs. g1_class r = Some (Item CDigit) \<Longrightarrow> \<exists>pd'. scan_line py_int rs l pd = Inr pd'"
proof (induction rs arbitrary: pd)
  case Nil
  then show ?case by simp
next
  case (Cons a rs)
  obtain k r where a: "a = (k, r)" by (cases a)
  with Cons.prems have g1: "g1_class r = Some (Item CDigit)" by simp
  from Cons.prems have rest: "\<forall>(k, r)\<in>set rs. g1_class r = Some (Item CDigit)" by simp
  show ?case
  proof (cases "re_search r l")
    case None
    with a Cons.IH [OF rest] show ?thesis by simp
  next
    case (Some m)
    from re_search_g1 [OF g1 Some] obtain ds where ds: "mgroup m 1 = Some ds" "ds \<noteq> []"
      "list_all (cclass_ok (Item CDigit)) ds" by blast
    then have "list_all is_digit ds" by (simp add: list_all_iff)
    with ds have "py_int (mgroup m 1) = Inr (PyInt (int (digits_val ds)))"
      by (simp add: py_int_def digits_digitpart_ok)
    with a Some Cons.IH [OF rest] show ?thesis by simp
  qed
qed

lemma hisat2_regexes_g1: "\<forall>(k, r)\<in>set hisat2_regexes. g1_class r = Some (Item CDigit)"
  by (simp add: hisat2_regexes_def count_and_percent_def)

lemma hscmd_g1: "g1_class hscmd_regex \<noteq> None"
  by (simp add: hscmd_regex_def)

lemma distinct_tables:
  "distinct (map fst coverage_metrics_regexes)" "distinct (map fst primerclip_regexes)"
  "distinct (map fst hisat2_regexes)"
  by (simp_all add: coverage_metrics_regexes_def primerclip_regexes_def hisat2_regexes_def)

lemma scan_line_other:
  "scan_line conv rs l pd = Inr pd' \<Longrightarrow> k \<notin> set (map fst rs) \<Longrightarrow> map_of pd' k = map_of pd k"
proof (induction rs arbitrary: pd)
  case Nil
  then show ?case by simp
next
  case (Cons a rs)
  obtain k0 r0 where a: "a = (k0, r0)" by (cases a)
  from Cons.prems a show ?case
    by (auto split: option.splits sum.splits dest!: Cons.IH simp: update_conv')
qed

lemma scan_line_miss:
  "scan_line conv rs l pd = Inr pd' \<Longrightarrow> \<not> matches rs k l \<Longrightarrow> distinct (map fst rs)
   \<Longrightarrow> map_of pd' k = map_of pd k"
proof (induction rs arbitrary: pd)
  case Nil
  then show ?case by simp
next
  case (Cons a rs)
  obtain k0 r0 where a: "a = (k0, r0)" by (cases a)
  show ?case
  proof (cases "k0 = k")
    case True
    with Cons.prems a have none: "re_search r0 l = None" by (simp add: matches_def)
    from Cons.prems a True have "k \<notin> set (map fst rs)" by auto
    from Cons.prems a none have "scan_line conv rs l pd = Inr pd'" by simp
    from scan_line_other [OF this \<open>k \<notin> set (map fst rs)\<close>] show ?thesis .
  next
    case False
    with Cons.prems a have m: "\<not> matches rs k l" by (simp add: matches_def)
    from Cons.prems a have d: "distinct (map fst rs)" by simp
    from Cons.prems a False show ?thesis
      by (auto split: option.splits sum.splits dest!: Cons.IH [OF _ m d] simp: update_conv')
  qed
qed

lemma scan_line_hit:
  "scan_line conv rs l pd = Inr pd' \<Longrightarrow> map_of rs k = Some r \<Longrightarrow> re_search r l = Some m
   \<Longrightarrow> distinct (map fst rs) \<Longrightarrow> \<exists>v. conv (mgroup m 1) = Inr v \<and> map_of pd' k = Some v"
proof (induction rs arbitrary: pd)
  case Nil
  then show ?case by simp
next
  case (Cons a rs)
  obtain k0 r0 where a: "a = (k0, r0)" by (cases a)
  show ?case
  proof (cases "k0 = k")
    case True
    with Cons.prems a have r0: "r0 = r" by simp
    from Cons.prems a True have notin: "k \<notin> set (map fst rs)" by auto
    from Cons.prems a True r0 obtain v where v: "conv (mgroup m 1) = Inr v"
      and rest: "scan_line conv rs l (AList.update k v pd) = Inr pd'"
      by (auto split: sum.splits)
    from scan_line_other [OF rest notin] have "map_of pd' k = Some v" by (simp add: update_conv')
    with v show ?thesis by blast
  next
    case False
    with Cons.prems a have mo: "map_of rs k = Some r" by simp
    from Cons.prems a have d: "distinct (map fst rs)" by simp
    from Cons.prems a show ?thesis
      by (auto split: option.splits sum.splits dest!: Cons.IH [OF _ mo Cons.prems(3) d])
  qed
qed

lemma scan_lines_append:
  "scan_lines conv rs (xs @ ys) pd =
     (case scan_lines conv rs xs pd of Inl e \<Rightarrow> Inl e | Inr pd1 \<Rightarrow> scan_lines conv rs ys pd1)"
  by (induction xs arbitrary: pd) (auto split: sum.splits)

lemma scan_lines_miss:
  "scan_lines conv rs ls pd = Inr pd' \<Longrightarrow> \<forall>l\<in>set ls. \<not> matches rs k l \<Longrightarrow> distinct (map fst rs)
   \<Longrightarrow> map_of pd' k = map_of pd k"
proof (induction ls arbitrary: pd)
  case Nil
  then show ?case by simp
next
  case (Cons l ls)
  from Cons.prems obtain pd1 where 1: "scan_line conv rs l pd = Inr pd1"
    and 2: "scan_lines conv rs ls pd1 = Inr pd'" by (auto split: sum.splits)
  from Cons.prems have "map_of pd1 k = map_of pd k" by (intro scan_line_miss [OF 1]) auto
  moreover from Cons.prems have "map_of pd' k = map_of pd1 k" by (intro Cons.IH [OF 2]) auto
  ultimately show ?case by simp
qed

lemma scan_lines_last:
  assumes run: "scan_lines conv rs (pre @ l # post) pd = Inr pd'"
    and r: "map_of rs k = Some r" and m: "re_search r l = Some m"
    and post: "\<forall>l'\<in>set post. \<not> matches rs k l'" and d: "distinct (map fst rs)"
  shows "\<exists>v. conv (mgroup m 1) = Inr v \<and> map_of pd' k = Some v"
proof -
  from run obtain pd1 pd2 where 1: "scan_lines conv rs pre pd = Inr pd1"
    and 2: "scan_line conv rs l pd1 = Inr pd2"
    and 3: "scan_lines conv rs post pd2 = Inr pd'"
    by (auto simp: scan_lines_append split: sum.splits)
  from scan_line_hit [OF 2 r m d] obtain v where v: "conv (mgroup m 1) = Inr v"
    and s: "map_of pd2 k = Some v" by blast
  from scan_lines_miss [OF 3 post d] s have "map_of pd' k = Some v" by simp
  with v show ?thesis by blast
qed

section \<open>Properties of the hisat2 loop\<close>

lemma map_of_view: "map_of (view h d) n = map_option h (map_of d n)"
  by (induction d) (auto simp: view_def)

lemma keys_view: "map fst (view h d) = map fst d"
  by (induction d) (auto simp: view_def)

lemma hscmd_group_some: "re_search hscmd_regex line = Some m \<Longrightarrow> \<exists>g. mgroup m 1 = Some g"
proof -
  assume m: "re_search hscmd_regex line = Some m"
  have "g1_class hscmd_regex = Some (NotSetOf [CSpace, CChar (CHR '','')])"
    by (simp add: hscmd_regex_def)
  from re_search_g1 [OF this m] show ?thesis by blast
qed

lemma hisat2_scan_total: "\<exists>pd'. scan_line py_int hisat2_regexes l pd = Inr pd'"
  by (rule scan_line_py_int_total [OF hisat2_regexes_g1])

lemma hisat2_line_quiet:
  assumes "re_search overall_regex line = None"
  shows "\<exists>pd' self'. hisat2_line clean f line (s, pd, self)
                        = Inr (hisat2_name clean f line s, pd', self')
           \<and> scan_line py_int hisat2_regexes line pd = Inr pd'
           \<and> data self' = data self \<and> heap self' = heap self \<and> next_addr self' = next_addr self
           \<and> filter is_contribution (trace self') = filter is_contribution (trace self)"
proof -
  obtain pd' where pd': "scan_line py_int hisat2_regexes line pd = Inr pd'"
    using hisat2_scan_total by blast
  show ?thesis
  proof (cases "re_search hscmd_regex line")
    case None
    with assms pd' show ?thesis by (simp add: hisat2_line_def hisat2_name_def)
  next
    case (Some m)
    from hscmd_group_some [OF Some] obtain g where "mgroup m 1 = Some g" by blast
    with Some assms pd' show ?thesis by (simp add: hisat2_line_def hisat2_name_def Let_def)
  qed
qed

lemma hisat2_line_store:
  assumes "re_search overall_regex line = Some m" and "py_float (mgroup m 1) = Inr v"
  shows "\<exists>pd1 self'. hisat2_line clean f line (s, pd, self) = Inr (f_s_name f, [], self')
           \<and> scan_line py_int hisat2_regexes line pd = Inr pd1
           \<and> data self' = AList.update (hisat2_name clean f line s) (next_addr self) (data self)
           \<and> heap self' = (heap self)(next_addr self := AList.update ''overall_alignment_rate'' v pd1)
           \<and> next_addr self' = Suc (next_addr self)
           \<and> filter is_contribution (trace self') = filter is_contribution (trace self)"
proof -
  obtain pd1 where pd1: "scan_line py_int hisat2_regexes line pd = Inr pd1"
    using hisat2_scan_total by blast
  show ?thesis
  proof (cases "re_search hscmd_regex line")
    case None
    with assms pd1 show ?thesis by (simp add: hisat2_line_def hisat2_name_def)
  next
    case (Some m')
    from hscmd_group_some [OF Some] obtain g where "mgroup m' 1 = Some g" by blast
    with Some assms pd1 show ?thesis by (simp add: hisat2_line_def hisat2_name_def Let_def)
  qed
qed

lemma hisat2_line_raise:
  assumes "re_search overall_regex line = Some m" and "py_float (mgroup m 1) = Inl e"
  shows "\<exists>self'. hisat2_line clean f line (s, pd, self) = Inl (e, self')
           \<and> data self' = data self \<and> heap self' = heap self \<and> next_addr self' = next_addr self
           \<and> filter is_contribution (trace self') = filter is_contribution (trace self)"
proof -
  obtain pd1 where pd1: "scan_line py_int hisat2_regexes line pd = Inr pd1"
    using hisat2_scan_total by blast
  show ?thesis
  proof (cases "re_search hscmd_regex line")
    case None
    with assms pd1 show ?thesis by (simp add: hisat2_line_def)
  next
    case (Some m')
    from hscmd_group_some [OF Some] obtain g where "mgroup m' 1 = Some g" by blast
    with Some assms pd1 show ?thesis by (simp add: hisat2_line_def Let_def)
  qed
qed

lemma hisat2_lines_append:
  "hisat2_lines clean f (xs @ ys) st =
     (case hisat2_lines clean f xs st of Inl x \<Rightarrow> Inl x | Inr st' \<Rightarrow> hisat2_lines clean f ys st')"
  by (induction xs arbitrary: st) (auto split: sum.splits)

lemma hisat2_lines_quiet:
  "\<forall>l\<in>set ls. re_search overall_regex l = None \<Longrightarrow>
   \<exists>s' pd' self'. hisat2_lines clean f ls (s, pd, self) = Inr (s', pd', self')
      \<and> scan_lines py_int hisat2_regexes ls pd = Inr pd'
      \<and> data self' = data self \<and> heap self' = heap self \<and> next_addr self' = next_addr self
      \<and> filter is_contribution (trace self') = filter is_contribution (trace self)"
proof (induction ls arbitrary: s pd self)
  case Nil
  then show ?case by simp
next
  case (Cons l ls)
  then have q: "re_search overall_regex l = None" and rest: "\<forall>l\<in>set ls. re_search overall_regex l = None"
    by simp_all
  from hisat2_line_quiet [OF q, of clean f s pd self] obtain pd1 self1 where
    1: "hisat2_line clean f l (s, pd, self) = Inr (hisat2_name clean f l s, pd1, self1)"
    and 2: "scan_line py_int hisat2_regexes l pd = Inr pd1"
    and 3: "data self1 = data self" "heap self1 = heap self" "next_addr self1 = next_addr self"
       "filter is_contribution (trace self1) = filter is_contribution (trace self)"
    by blast
  from Cons.IH [OF rest, of "hisat2_name clean f l s" pd1 self1] 1 2 3 show ?case by auto
qed

section \<open>Evaluation and storing\<close>

lemmas eval_defs = py_float_def float_str_def dig_us_def is_digit_def digits_val_def
  float_exponent_def is_space_def is_linebreak_def splitlines_def re_search_def mgroup_def
  py_int_def store_sample_def number_opt_frac_def digits_any_digits_def grouped_number_def
  count_and_percent_def rsplit1_head_def Let_def

lemma store_sample_lookup:
  "parsed_data \<noteq> [] \<Longrightarrow> map_of (data (store_sample f s_name parsed_data self)) s_name = Some parsed_data"
  by (simp add: store_sample_def update_conv')


section \<open>The claims\<close>

subsection \<open>primerclip: the example line\<close>

lemma total_alignments_line:
  "re_search (seq [Lit ''Total alignments processed:'', Many1 (Item CSpace), Group (Many1 (Item CDigit))])
     ''Total alignments processed:    1000'' = Some [Some ''1000'']"
  by (simp add: eval_defs parse_primerclip_logs_def primerclip_regexes_def)

lemma float_1000: "py_float (Some ''1000'') = Inr (PyFloat 1000)"
  by (simp add: eval_defs parse_primerclip_logs_def primerclip_regexes_def)

text \<open>
  Claim C8 says that a log containing the line stores 1000.0. A later line that matches the
  same pattern overwrites the value, here with 5.0; and a line whose capture \<^verbatim>\<open>float\<close>
  rejects ends the parse with ValueError before anything is stored.
\<close>

theorem primerclip_later_line_overwrites_counterexample:
  "parse_primerclip_logs
     \<lparr>f_s_name = ''s1_primerclip_runstats'', f_fn = ''s1_primerclip_runstats.txt'',
      f_f = ''Total alignments processed:    1000'' @ [CHR 0x0A]
            @ ''Total alignments processed:    5''\<rparr> \<lparr>data = [], trace = []\<rparr>
     = Inr \<lparr>data = [(''s1'', [(''total_alignments'', PyFloat 5)])],
            trace = [AddDataSource ''s1_primerclip_runstats.txt'' ''s1'']\<rparr>
   \<and> parse_primerclip_logs
     \<lparr>f_s_name = ''s1_primerclip_runstats'', f_fn = ''s1_primerclip_runstats.txt'',
      f_f = ''Total alignments processed:    1000'' @ [CHR 0x0A]
            @ ''% Alignments mapped after trimming: 1,5''\<rparr> \<lparr>data = [], trace = []\<rparr>
     = Inl (ValueError, \<lparr>data = [], trace = []\<rparr>)"
  by (simp add: eval_defs parse_primerclip_logs_def primerclip_regexes_def)

text \<open>
  Claim C8, amended. In primerclip, when the line \<^verbatim>\<open>Total alignments processed:    1000\<close>
  is the last line of the log that matches the pattern of \<^verbatim>\<open>total_alignments\<close> and the parse
  returns (no capture of the log makes \<^verbatim>\<open>float\<close> raise), the record stored for the sample
  holds \<^verbatim>\<open>total_alignments\<close> with the float 1000.0: the captured digits are converted with
  \<^verbatim>\<open>float\<close>.
\<close>

theorem primerclip_total_alignments_example:
  assumes lines: "splitlines (f_f f) = pre @ ''Total alignments processed:    1000'' # post"
    and last: "\<forall>l'\<in>set post. \<not> matches primerclip_regexes ''total_alignments'' l'"
    and run: "parse_primerclip_logs f self = Inr self'"
  shows "\<exists>parsed_data.
           map_of (data self') (remove_all ''_primerclip_runstats'' (f_s_name f)) = Some parsed_data
           \<and> map_of parsed_data ''total_alignments'' = Some (PyFloat 1000)"
proof -
  from run obtain pd where
    scan: "scan_lines py_float primerclip_regexes (splitlines (f_f f)) [] = Inr pd"
    and self': "self' = store_sample f (remove_all ''_primerclip_runstats'' (f_s_name f)) pd self"
    by (auto simp: parse_primerclip_logs_def Let_def split: sum.splits)
  have r: "map_of primerclip_regexes ''total_alignments''
             = Some (seq [Lit ''Total alignments processed:'', Many1 (Item CSpace),
                          Group (Many1 (Item CDigit))])"
    by (simp add: primerclip_regexes_def)
  from scan_lines_last [OF scan [unfolded lines] r total_alignments_line last distinct_tables(2)]
  have v: "map_of pd ''total_alignments'' = Some (PyFloat 1000)"
    by (simp add: mgroup_def float_1000)
  then have "pd \<noteq> []" by auto
  with self' v show ?thesis by (simp add: store_sample_lookup)
qed

theorem primerclip_total_alignments_example_witness:
  "splitlines (f_f \<lparr>f_s_name = ''s1_primerclip_runstats'', f_fn = ''s1_primerclip_runstats.txt'',
                    f_f = ''Total alignments processed:    1000''\<rparr>)
     = [] @ ''Total alignments processed:    1000'' # []
   \<and> parse_primerclip_logs
        \<lparr>f_s_name = ''s1_primerclip_runstats'', f_fn = ''s1_primerclip_runstats.txt'',
         f_f = ''Total alignments processed:    1000''\<rparr> \<lparr>data = [], trace = []\<rparr>
       = Inr \<lparr>data = [(''s1'', [(''total_alignments'', PyFloat 1000)])],
              trace = [AddDataSource ''s1_primerclip_runstats.txt'' ''s1'']\<rparr>
   \<and> (\<exists>parsed_data.
          map_of [(''s1'', [(''total_alignments'', PyFloat 1000)])] ''s1'' = Some parsed_data
          \<and> map_of parsed_data ''total_alignments'' = Some (PyFloat 1000))"
proof -
  let ?f = "\<lparr>f_s_name = ''s1_primerclip_runstats'', f_fn = ''s1_primerclip_runstats.txt'',
             f_f = ''Total alignments processed:    1000''\<rparr>"
  let ?r = "\<lparr>data = [(''s1'', [(''total_alignments'', PyFloat 1000)])],
              trace = [AddDataSource ''s1_primerclip_runstats.txt'' ''s1'']\<rparr>"
  have 1: "splitlines (f_f ?f) = [] @ ''Total alignments processed:    1000'' # []"
    by (simp add: eval_defs parse_primerclip_logs_def primerclip_regexes_def)
  have 2: "\<forall>l'\<in>set []. \<not> matches primerclip_regexes ''total_alignments'' l'" by simp
  have 3: "parse_primerclip_logs ?f \<lparr>data = [], trace = []\<rparr> = Inr ?r"
    by (simp add: eval_defs parse_primerclip_logs_def primerclip_regexes_def)
  have 4: "remove_all ''_primerclip_runstats'' (f_s_name ?f) = ''s1''" by simp
  from primerclip_total_alignments_example [OF 1 2 3] 1 3 4 show ?thesis by simp
qed

subsection \<open>hisat2: the terminating line\<close>


lemmas hisat2_eval_defs = eval_defs overall_regex_def hscmd_regex_def hisat2_regexes_def
  hisat2_line_def parse_hisat2_logs_def hisat2_view_def view_def hisat2_name_def

text \<open>
  Claim C5. In hisat2, a line that matches \<^verbatim>\<open>Overall alignment rate: ([\d\.]+)%\<close> with a
  capture that \<^verbatim>\<open>float\<close> accepts sets \<^verbatim>\<open>overall_alignment_rate\<close> to that float, stores the
  record under the sample name in force, and resets the sample name to the file's and the
  parsed data to the empty dictionary. For \<^verbatim>\<open>Overall alignment rate: 97.5%\<close> the value is 97.5,
  and a file with two such lines yields two records.
\<close>

theorem hisat2_overall_finalizes:
  "(re_search overall_regex line = Some m \<and> py_float (mgroup m 1) = Inr v \<longrightarrow>
      (\<exists>parsed_data1 self'.
          hisat2_line clean_s_name f line (s_name, parsed_data, self) = Inr (f_s_name f, [], self')
        \<and> scan_line py_int hisat2_regexes line parsed_data = Inr parsed_data1
        \<and> map_of (hisat2_view self') (hisat2_name clean_s_name f line s_name)
            = Some (AList.update ''overall_alignment_rate'' v parsed_data1)))
   \<and> map_sum (\<lambda>(e, self'). (e, hisat2_view self')) hisat2_view
        (parse_hisat2_logs (\<lambda>g f. g)
           \<lparr>f_s_name = ''run'', f_fn = ''run.log'',
            f_f = [''hisat2 -x idx -U a.fq'' @ [CHR 0x0A],
                   ''Total reads: 7'' @ [CHR 0x0A],
                   ''Overall alignment rate: 97.5%'' @ [CHR 0x0A],
                   ''Total reads: 9'' @ [CHR 0x0A],
                   ''Overall alignment rate: 50%'' @ [CHR 0x0A]]\<rparr>
           \<lparr>data = [], trace = [], heap = (\<lambda>_. []), next_addr = 0\<rparr>)
       = Inr [(''a.fq'', [(''unpaired_total'', PyInt 7), (''overall_alignment_rate'', PyFloat (195 / 2))]),
              (''run'', [(''unpaired_total'', PyInt 9), (''overall_alignment_rate'', PyFloat 50)])]"
proof (intro conjI impI)
  assume a: "re_search overall_regex line = Some m \<and> py_float (mgroup m 1) = Inr v"
  then have m: "re_search overall_regex line = Some m" and v: "py_float (mgroup m 1) = Inr v"
    by simp_all
  from hisat2_line_store [OF m v, of clean_s_name f s_name parsed_data self]
  obtain pd1 self' where
    1: "hisat2_line clean_s_name f line (s_name, parsed_data, self) = Inr (f_s_name f, [], self')"
    and 2: "scan_line py_int hisat2_regexes line parsed_data = Inr pd1"
    and 3: "data self' = AList.update (hisat2_name clean_s_name f line s_name) (next_addr self) (data self)"
    and 4: "heap self' = (heap self)(next_addr self := AList.update ''overall_alignment_rate'' v pd1)"
    by blast
  from 3 4 have "map_of (hisat2_view self') (hisat2_name clean_s_name f line s_name)
                   = Some (AList.update ''overall_alignment_rate'' v pd1)"
    by (simp add: hisat2_view_def map_of_view update_conv')
  with 1 2 show "\<exists>parsed_data1 self'.
          hisat2_line clean_s_name f line (s_name, parsed_data, self) = Inr (f_s_name f, [], self')
        \<and> scan_line py_int hisat2_regexes line parsed_data = Inr parsed_data1
        \<and> map_of (hisat2_view self') (hisat2_name clean_s_name f line s_name)
            = Some (AList.update ''overall_alignment_rate'' v parsed_data1)"
    by blast
qed (simp add: hisat2_eval_defs)

theorem hisat2_overall_finalizes_witness:
  "re_search overall_regex (''Overall alignment rate: 97.5%'' @ [CHR 0x0A]) = Some [Some ''97.5'']
   \<and> py_float (mgroup [Some ''97.5''] 1) = Inr (PyFloat (195 / 2))
   \<and> (\<exists>self'.
        hisat2_line (\<lambda>g f. g) \<lparr>f_s_name = ''run'', f_fn = ''run.log'', f_f = []\<rparr>
          (''Overall alignment rate: 97.5%'' @ [CHR 0x0A])
          (''a.fq'', [(''unpaired_total'', PyInt 7)],
           \<lparr>data = [], trace = [], heap = (\<lambda>_. []), next_addr = 0\<rparr>)
          = Inr (''run'', [], self')
        \<and> map_of (hisat2_view self') ''a.fq''
            = Some [(''unpaired_total'', PyInt 7), (''overall_alignment_rate'', PyFloat (195 / 2))])"
proof -
  let ?line = "''Overall alignment rate: 97.5%'' @ [CHR 0x0A]"
  let ?f = "\<lparr>f_s_name = ''run'', f_fn = ''run.log'', f_f = ([] :: string list)\<rparr>"
  let ?self = "\<lparr>data = [], trace = [], heap = (\<lambda>_. []), next_addr = 0\<rparr> :: hisat2_module"
  have 1: "re_search overall_regex ?line = Some [Some ''97.5'']"
    by (simp add: hisat2_eval_defs)
  have 2: "py_float (mgroup [Some ''97.5''] 1) = Inr (PyFloat (195 / 2))"
    by (simp add: eval_defs)
  have 3: "scan_line py_int hisat2_regexes ?line [(''unpaired_total'', PyInt 7)]
             = Inr [(''unpaired_total'', PyInt 7)]"
    by (simp add: hisat2_eval_defs)
  have 4: "hisat2_name (\<lambda>g f. g) ?f ?line ''a.fq'' = ''a.fq''"
    by (simp add: hisat2_eval_defs)
  from hisat2_overall_finalizes [of ?line "[Some ''97.5'']" "PyFloat (195 / 2)" "\<lambda>g f. g" ?f
      "''a.fq''" "[(''unpaired_total'', PyInt 7)]" ?self] 1 2
  obtain pd1 self' where
    a: "hisat2_line (\<lambda>g f. g) ?f ?line (''a.fq'', [(''unpaired_total'', PyInt 7)], ?self)
          = Inr (f_s_name ?f, [], self')"
    and b: "scan_line py_int hisat2_regexes ?line [(''unpaired_total'', PyInt 7)] = Inr pd1"
    and c: "map_of (hisat2_view self') (hisat2_name (\<lambda>g f. g) ?f ?line ''a.fq'')
              = Some (AList.update ''overall_alignment_rate'' (PyFloat (195 / 2)) pd1)"
    by blast
  from b 3 have "pd1 = [(''unpaired_total'', PyInt 7)]" by simp
  with a c 4 have "hisat2_line (\<lambda>g f. g) ?f ?line (''a.fq'', [(''unpaired_total'', PyInt 7)], ?self)
          = Inr (''run'', [], self')
        \<and> map_of (hisat2_view self') ''a.fq''
            = Some [(''unpaired_total'', PyInt 7), (''overall_alignment_rate'', PyFloat (195 / 2))]"
    by simp
  with 1 2 show ?thesis by blast
qed

subsection \<open>The no-samples signal\<close>

lemma ignore_samples_empty: "(ignore_samples ig d = []) = (\<forall>n\<in>set (map fst d). ig n)"
  by (auto simp: ignore_samples_def filter_empty_conv)

lemma parse_files_preserves:
  assumes "\<And>f s s'. parse f s = Inr s' \<Longrightarrow> Q s' = Q s"
  shows "parse_files parse fs s = Inr s' \<Longrightarrow> Q s' = Q s"
proof (induction fs arbitrary: s)
  case Nil
  then show ?case by simp
next
  case (Cons f fs)
  then obtain s1 where 1: "parse f s = Inr s1" and 2: "parse_files parse fs s1 = Inr s'"
    by (auto split: sum.splits)
  from Cons.IH [OF 2] assms [OF 1] show ?case by simp
qed

lemma store_sample_contrib:
  "filter is_contribution (trace (store_sample f s pd self)) = filter is_contribution (trace self)"
  by (simp add: store_sample_def)

lemma parse_coverage_metrics_contrib:
  "parse_coverage_metrics_logs f self = Inr self'
   \<Longrightarrow> filter is_contribution (trace self') = filter is_contribution (trace self)"
  by (auto simp: parse_coverage_metrics_logs_def Let_def store_sample_contrib split: sum.splits)

lemma parse_primerclip_contrib:
  "parse_primerclip_logs f self = Inr self'
   \<Longrightarrow> filter is_contribution (trace self') = filter is_contribution (trace self)"
  by (auto simp: parse_primerclip_logs_def Let_def store_sample_contrib split: sum.splits)

lemma parse_jax_trimmer_contrib:
  "parse_jax_trimmer_logs f self = Inr self'
   \<Longrightarrow> filter is_contribution (trace self') = filter is_contribution (trace self)"
  by (auto simp: parse_jax_trimmer_logs_def Let_def store_sample_contrib split: sum.splits)

lemma hisat2_line_contrib:
  "hisat2_line clean f line (s, pd, self) = Inr (s', pd', self')
   \<Longrightarrow> filter is_contribution (trace self') = filter is_contribution (trace self)"
proof (cases "re_search overall_regex line")
  case None
  assume "hisat2_line clean f line (s, pd, self) = Inr (s', pd', self')"
  with hisat2_line_quiet [OF None, of clean f s pd self] show ?thesis by auto
next
  case (Some m)
  assume run: "hisat2_line clean f line (s, pd, self) = Inr (s', pd', self')"
  show ?thesis
  proof (cases "py_float (mgroup m 1)")
    case (Inl e)
    from hisat2_line_raise [OF Some Inl, of clean f s pd self] run show ?thesis by auto
  next
    case (Inr v)
    from hisat2_line_store [OF Some Inr, of clean f s pd self] run show ?thesis by auto
  qed
qed

lemma hisat2_lines_contrib:
  "hisat2_lines clean f ls (s, pd, self) = Inr (s', pd', self')
   \<Longrightarrow> filter is_contribution (trace self') = filter is_contribution (trace self)"
proof (induction ls arbitrary: s pd self)
  case Nil
  then show ?case by simp
next
  case (Cons l ls)
  then obtain s1 pd1 self1 where 1: "hisat2_line clean f l (s, pd, self) = Inr (s1, pd1, self1)"
    and 2: "hisat2_lines clean f ls (s1, pd1, self1) = Inr (s', pd', self')"
    by (auto split: sum.splits)
  from Cons.IH [OF 2] hisat2_line_contrib [OF 1] show ?case by simp
qed

lemma parse_hisat2_contrib:
  "parse_hisat2_logs clean f self = Inr self'
   \<Longrightarrow> filter is_contribution (trace self') = filter is_contribution (trace self)"
  by (auto simp: parse_hisat2_logs_def split: sum.splits dest: hisat2_lines_contrib)

lemma finish_init_raises:
  "ignore_samples ig (data self0) = [] \<Longrightarrow>
   finish_init ig fname self0 = Inl (UserWarning, self0\<lparr>data := []\<rparr>)"
  by (simp add: finish_init_def Let_def)

lemma no_contribution_iff: "(\<not> list_ex is_contribution es) = (filter is_contribution es = [])"
  by (simp add: list_ex_iff filter_empty_conv)

lemma coverage_metrics_all_ignored:
  assumes "parse_files parse_coverage_metrics_logs files \<lparr>data = [], trace = []\<rparr> = Inr self0"
    and "\<forall>n\<in>set (map fst (data self0)). ig n"
  shows "\<exists>self1. coverage_metrics_init ig files = Inl (UserWarning, self1) \<and> data self1 = []
                  \<and> \<not> list_ex is_contribution (trace self1)"
proof -
  have "filter is_contribution (trace self0) = []"
    using parse_files_preserves [of parse_coverage_metrics_logs
        "\<lambda>s. filter is_contribution (trace s)", OF parse_coverage_metrics_contrib assms(1)]
    by simp
  moreover from assms(2) have "ignore_samples ig (data self0) = []"
    by (simp only: ignore_samples_empty)
  ultimately show ?thesis using assms(1)
    by (simp add: coverage_metrics_init_def finish_init_raises no_contribution_iff)
qed

lemma primerclip_all_ignored:
  assumes "parse_files parse_primerclip_logs files \<lparr>data = [], trace = []\<rparr> = Inr self0"
    and "\<forall>n\<in>set (map fst (data self0)). ig n"
  shows "\<exists>self1. primerclip_init ig files = Inl (UserWarning, self1) \<and> data self1 = []
                  \<and> \<not> list_ex is_contribution (trace self1)"
proof -
  have "filter is_contribution (trace self0) = []"
    using parse_files_preserves [of parse_primerclip_logs
        "\<lambda>s. filter is_contribution (trace s)", OF parse_primerclip_contrib assms(1)]
    by simp
  moreover from assms(2) have "ignore_samples ig (data self0) = []"
    by (simp only: ignore_samples_empty)
  ultimately show ?thesis using assms(1)
    by (simp add: primerclip_init_def finish_init_raises no_contribution_iff)
qed

lemma jax_trimmer_all_ignored:
  assumes "parse_files parse_jax_trimmer_logs files \<lparr>data = [], trace = [], pe_bool = False\<rparr>
             = Inr self0"
    and "\<forall>n\<in>set (map fst (data self0)). ig n"
  shows "\<exists>self1. jax_trimmer_init ig files = Inl (UserWarning, self1) \<and> data self1 = []
                  \<and> \<not> list_ex is_contribution (trace self1)"
proof -
  have "filter is_contribution (trace self0) = []"
    using parse_files_preserves [of parse_jax_trimmer_logs
        "\<lambda>s. filter is_contribution (trace s)", OF parse_jax_trimmer_contrib assms(1)]
    by simp
  moreover from assms(2) have "ignore_samples ig (data self0) = []"
    by (simp only: ignore_samples_empty)
  ultimately show ?thesis using assms(1)
    by (simp add: jax_trimmer_init_def finish_init_raises no_contribution_iff)
qed

lemma hisat2_all_ignored:
  assumes "parse_files (parse_hisat2_logs clean_s_name) files
             \<lparr>data = [], trace = [], heap = (\<lambda>_. []), next_addr = 0\<rparr> = Inr self0"
    and "\<forall>n\<in>set (map fst (data self0)). ig n"
  shows "\<exists>self1. hisat2_init clean_s_name ig files = Inl (ModuleNoSamplesFound, self1)
                  \<and> data self1 = [] \<and> \<not> list_ex is_contribution (trace self1)"
proof -
  have "filter is_contribution (trace self0) = []"
    using parse_files_preserves [of "parse_hisat2_logs clean_s_name"
        "\<lambda>s. filter is_contribution (trace s)", OF parse_hisat2_contrib assms(1)]
    by simp
  moreover from assms(2) have "ignore_samples ig (data self0) = []"
    by (simp only: ignore_samples_empty)
  ultimately show ?thesis using assms(1)
    by (simp add: hisat2_init_def no_contribution_iff)
qed

lemmas simple_eval_defs = eval_defs parse_coverage_metrics_logs_def coverage_metrics_regexes_def
  parse_primerclip_logs_def primerclip_regexes_def parse_jax_trimmer_logs_def jax_regexes_def
  jax_regexes_se_def

text \<open>
  Claim C3. In each of the four modules, when the parse pass returns and the mapping is
  empty, \<^verbatim>\<open>__init__\<close> raises the no-samples signal (\<^verbatim>\<open>UserWarning\<close>, in hisat2
  \<^verbatim>\<open>ModuleNoSamplesFound\<close>) and has made none of the report contributions: no data file, no
  general-statistics columns, no chart.
\<close>

theorem empty_mapping_raises_no_samples:
  "(parse_files parse_coverage_metrics_logs files \<lparr>data = [], trace = []\<rparr> = Inr self0
      \<and> data self0 = [] \<longrightarrow>
      (\<exists>self1. coverage_metrics_init ig files = Inl (UserWarning, self1)
               \<and> \<not> list_ex is_contribution (trace self1)))
   \<and> (parse_files parse_primerclip_logs files \<lparr>data = [], trace = []\<rparr> = Inr self0
      \<and> data self0 = [] \<longrightarrow>
      (\<exists>self1. primerclip_init ig files = Inl (UserWarning, self1)
               \<and> \<not> list_ex is_contribution (trace self1)))
   \<and> (parse_files parse_jax_trimmer_logs files \<lparr>data = [], trace = [], pe_bool = False\<rparr> = Inr jself0
      \<and> data jself0 = [] \<longrightarrow>
      (\<exists>self1. jax_trimmer_init ig files = Inl (UserWarning, self1)
               \<and> \<not> list_ex is_contribution (trace self1)))
   \<and> (parse_files (parse_hisat2_logs clean_s_name) hfiles
         \<lparr>data = [], trace = [], heap = (\<lambda>_. []), next_addr = 0\<rparr> = Inr hself0
      \<and> data hself0 = [] \<longrightarrow>
      (\<exists>self1. hisat2_init clean_s_name ig hfiles = Inl (ModuleNoSamplesFound, self1)
               \<and> \<not> list_ex is_contribution (trace self1)))"
proof (intro conjI impI)
  assume "parse_files parse_coverage_metrics_logs files \<lparr>data = [], trace = []\<rparr> = Inr self0
            \<and> data self0 = []"
  then show "\<exists>self1. coverage_metrics_init ig files = Inl (UserWarning, self1)
                 \<and> \<not> list_ex is_contribution (trace self1)"
    using coverage_metrics_all_ignored [of files self0 ig] by auto
next
  assume "parse_files parse_primerclip_logs files \<lparr>data = [], trace = []\<rparr> = Inr self0
            \<and> data self0 = []"
  then show "\<exists>self1. primerclip_init ig files = Inl (UserWarning, self1)
                 \<and> \<not> list_ex is_contribution (trace self1)"
    using primerclip_all_ignored [of files self0 ig] by auto
next
  assume "parse_files parse_jax_trimmer_logs files \<lparr>data = [], trace = [], pe_bool = False\<rparr>
            = Inr jself0 \<and> data jself0 = []"
  then show "\<exists>self1. jax_trimmer_init ig files = Inl (UserWarning, self1)
                 \<and> \<not> list_ex is_contribution (trace self1)"
    using jax_trimmer_all_ignored [of files jself0 ig] by auto
next
  assume "parse_files (parse_hisat2_logs clean_s_name) hfiles
         \<lparr>data = [], trace = [], heap = (\<lambda>_. []), next_addr = 0\<rparr> = Inr hself0 \<and> data hself0 = []"
  then show "\<exists>self1. hisat2_init clean_s_name ig hfiles = Inl (ModuleNoSamplesFound, self1)
                 \<and> \<not> list_ex is_contribution (trace self1)"
    using hisat2_all_ignored [of clean_s_name hfiles hself0 ig] by auto
qed

theorem empty_mapping_raises_no_samples_witness:
  "parse_files parse_coverage_metrics_logs [\<lparr>f_s_name = ''s1'', f_fn = ''s1.txt'', f_f = ''no metric here''\<rparr>]
     \<lparr>data = [], trace = []\<rparr> = Inr \<lparr>data = [], trace = []\<rparr>
   \<and> (\<exists>self1. coverage_metrics_init (\<lambda>_. False)
                 [\<lparr>f_s_name = ''s1'', f_fn = ''s1.txt'', f_f = ''no metric here''\<rparr>]
               = Inl (UserWarning, self1) \<and> \<not> list_ex is_contribution (trace self1))
   \<and> parse_files parse_primerclip_logs [\<lparr>f_s_name = ''s1'', f_fn = ''s1.txt'', f_f = ''no metric here''\<rparr>]
     \<lparr>data = [], trace = []\<rparr> = Inr \<lparr>data = [], trace = []\<rparr>
   \<and> (\<exists>self1. primerclip_init (\<lambda>_. False)
                 [\<lparr>f_s_name = ''s1'', f_fn = ''s1.txt'', f_f = ''no metric here''\<rparr>]
               = Inl (UserWarning, self1) \<and> \<not> list_ex is_contribution (trace self1))
   \<and> parse_files parse_jax_trimmer_logs [\<lparr>f_s_name = ''s1'', f_fn = ''s1.txt'', f_f = ''no metric here''\<rparr>]
     \<lparr>data = [], trace = [], pe_bool = False\<rparr> = Inr \<lparr>data = [], trace = [], pe_bool = False\<rparr>
   \<and> (\<exists>self1. jax_trimmer_init (\<lambda>_. False)
                 [\<lparr>f_s_name = ''s1'', f_fn = ''s1.txt'', f_f = ''no metric here''\<rparr>]
               = Inl (UserWarning, self1) \<and> \<not> list_ex is_contribution (trace self1))
   \<and> parse_files (parse_hisat2_logs (\<lambda>g f. g))
        [\<lparr>f_s_name = ''s1'', f_fn = ''s1.txt'', f_f = [''Total reads: 7'' @ [CHR 0x0A]]\<rparr>]
        \<lparr>data = [], trace = [], heap = (\<lambda>_. []), next_addr = 0\<rparr>
       = Inr \<lparr>data = [], trace = [], heap = (\<lambda>_. []), next_addr = 0\<rparr>
   \<and> (\<exists>self1. hisat2_init (\<lambda>g f. g) (\<lambda>_. False)
                 [\<lparr>f_s_name = ''s1'', f_fn = ''s1.txt'', f_f = [''Total reads: 7'' @ [CHR 0x0A]]\<rparr>]
               = Inl (ModuleNoSamplesFound, self1) \<and> \<not> list_ex is_contribution (trace self1))"
proof -
  let ?f = "\<lparr>f_s_name = ''s1'', f_fn = ''s1.txt'', f_f = ''no metric here''\<rparr>"
  let ?hf = "\<lparr>f_s_name = ''s1'', f_fn = ''s1.txt'', f_f = [''Total reads: 7'' @ [CHR 0x0A]]\<rparr>"
  let ?e = "\<lparr>data = [], trace = []\<rparr> :: dict module"
  let ?je = "\<lparr>data = [], trace = [], pe_bool = False\<rparr>"
  let ?he = "\<lparr>data = [], trace = [], heap = (\<lambda>_. []), next_addr = 0\<rparr> :: hisat2_module"
  have 1: "parse_files parse_coverage_metrics_logs [?f] ?e = Inr ?e"
    by (simp add: simple_eval_defs)
  have 2: "parse_files parse_primerclip_logs [?f] ?e = Inr ?e"
    by (simp add: simple_eval_defs)
  have 3: "parse_files parse_jax_trimmer_logs [?f] ?je = Inr ?je"
    by (simp add: simple_eval_defs)
  have 4: "parse_files (parse_hisat2_logs (\<lambda>g f. g)) [?hf] ?he = Inr ?he"
    by (simp add: hisat2_eval_defs)
  from empty_mapping_raises_no_samples [of "[?f]" ?e "\<lambda>_. False" ?je "\<lambda>g f. g" "[?hf]" ?he]
    1 2 3 4
  show ?thesis by simp
qed


text \<open>
  Claim C9. The no-samples check reads the mapping after the ignore filter: when the parse
  pass returns and the filter ignores every sample name it stored, \<^verbatim>\<open>__init__\<close> raises the
  no-samples signal with an empty mapping and no report contribution, as it does when
  nothing was stored.
\<close>

theorem all_ignored_raises_no_samples:
  "(parse_files parse_coverage_metrics_logs files \<lparr>data = [], trace = []\<rparr> = Inr self0
      \<and> (\<forall>n\<in>set (map fst (data self0)). ig n) \<longrightarrow>
      (\<exists>self1. coverage_metrics_init ig files = Inl (UserWarning, self1) \<and> data self1 = []
               \<and> \<not> list_ex is_contribution (trace self1)))
   \<and> (parse_files parse_primerclip_logs files \<lparr>data = [], trace = []\<rparr> = Inr self0
      \<and> (\<forall>n\<in>set (map fst (data self0)). ig n) \<longrightarrow>
      (\<exists>self1. primerclip_init ig files = Inl (UserWarning, self1) \<and> data self1 = []
               \<and> \<not> list_ex is_contribution (trace self1)))
   \<and> (parse_files parse_jax_trimmer_logs files \<lparr>data = [], trace = [], pe_bool = False\<rparr> = Inr jself0
      \<and> (\<forall>n\<in>set (map fst (data jself0)). ig n) \<longrightarrow>
      (\<exists>self1. jax_trimmer_init ig files = Inl (UserWarning, self1) \<and> data self1 = []
               \<and> \<not> list_ex is_contribution (trace self1)))
   \<and> (parse_files (parse_hisat2_logs clean_s_name) hfiles
         \<lparr>data = [], trace = [], heap = (\<lambda>_. []), next_addr = 0\<rparr> = Inr hself0
      \<and> (\<forall>n\<in>set (map fst (data hself0)). ig n) \<longrightarrow>
      (\<exists>self1. hisat2_init clean_s_name ig hfiles = Inl (ModuleNoSamplesFound, self1)
               \<and> data self1 = [] \<and> \<not> list_ex is_contribution (trace self1)))"
  using coverage_metrics_all_ignored [of files self0 ig] primerclip_all_ignored [of files self0 ig]
    jax_trimmer_all_ignored [of files jself0 ig] hisat2_all_ignored [of clean_s_name hfiles hself0 ig]
  by blast

theorem all_ignored_raises_no_samples_witness:
  "parse_files parse_coverage_metrics_logs
       [\<lparr>f_s_name = ''s1'', f_fn = ''s1.txt'', f_f = ''on_target_percent 91.5''\<rparr>]
       \<lparr>data = [], trace = []\<rparr>
     = Inr \<lparr>data = [(''s1'', [(''on_target_percent'', PyFloat (183 / 2))])],
            trace = [AddDataSource ''s1.txt'' ''s1'']\<rparr>
   \<and> (\<exists>self1. coverage_metrics_init (\<lambda>_. True)
                 [\<lparr>f_s_name = ''s1'', f_fn = ''s1.txt'', f_f = ''on_target_percent 91.5''\<rparr>]
               = Inl (UserWarning, self1) \<and> data self1 = []
               \<and> \<not> list_ex is_contribution (trace self1))
   \<and> parse_files parse_primerclip_logs
       [\<lparr>f_s_name = ''s1'', f_fn = ''s1.txt'', f_f = ''Total mapped alignments: 12''\<rparr>]
       \<lparr>data = [], trace = []\<rparr>
     = Inr \<lparr>data = [(''s1'', [(''total_mapped_alignments'', PyFloat 12)])],
            trace = [AddDataSource ''s1.txt'' ''s1'']\<rparr>
   \<and> (\<exists>self1. primerclip_init (\<lambda>_. True)
                 [\<lparr>f_s_name = ''s1'', f_fn = ''s1.txt'', f_f = ''Total mapped alignments: 12''\<rparr>]
               = Inl (UserWarning, self1) \<and> data self1 = []
               \<and> \<not> list_ex is_contribution (trace self1))
   \<and> parse_files parse_jax_trimmer_logs
       [\<lparr>f_s_name = ''s1_stat'', f_fn = ''s1_stat'', f_f = ''Total number of reads 100''\<rparr>]
       \<lparr>data = [], trace = [], pe_bool = False\<rparr>
     = Inr \<lparr>data = [(''s1'', [(''total_reads_1'', PyFloat 100)])],
            trace = [AddDataSource ''s1_stat'' ''s1''], pe_bool = False\<rparr>
   \<and> (\<exists>self1. jax_trimmer_init (\<lambda>_. True)
                 [\<lparr>f_s_name = ''s1_stat'', f_fn = ''s1_stat'', f_f = ''Total number of reads 100''\<rparr>]
               = Inl (UserWarning, self1) \<and> data self1 = []
               \<and> \<not> list_ex is_contribution (trace self1))
   \<and> parse_files (parse_hisat2_logs (\<lambda>g f. g))
        [\<lparr>f_s_name = ''s1'', f_fn = ''s1.txt'', f_f = [''Overall alignment rate: 50%'' @ [CHR 0x0A]]\<rparr>]
        \<lparr>data = [], trace = [], heap = (\<lambda>_. []), next_addr = 0\<rparr>
       = Inr \<lparr>data = [(''s1'', 0)], trace = [AddDataSource ''s1.txt'' ''s1''],
              heap = (\<lambda>_. [])(0 := [(''overall_alignment_rate'', PyFloat 50)]), next_addr = Suc 0\<rparr>
   \<and> (\<exists>self1. hisat2_init (\<lambda>g f. g) (\<lambda>_. True)
                 [\<lparr>f_s_name = ''s1'', f_fn = ''s1.txt'', f_f = [''Overall alignment rate: 50%'' @ [CHR 0x0A]]\<rparr>]
               = Inl (ModuleNoSamplesFound, self1) \<and> data self1 = []
               \<and> \<not> list_ex is_contribution (trace self1))"
proof -
  let ?cf = "\<lparr>f_s_name = ''s1'', f_fn = ''s1.txt'', f_f = ''on_target_percent 91.5''\<rparr>"
  let ?pf = "\<lparr>f_s_name = ''s1'', f_fn = ''s1.txt'', f_f = ''Total mapped alignments: 12''\<rparr>"
  let ?jf = "\<lparr>f_s_name = ''s1_stat'', f_fn = ''s1_stat'', f_f = ''Total number of reads 100''\<rparr>"
  let ?hf = "\<lparr>f_s_name = ''s1'', f_fn = ''s1.txt'', f_f = [''Overall alignment rate: 50%'' @ [CHR 0x0A]]\<rparr>"
  let ?c = "\<lparr>data = [(''s1'', [(''on_target_percent'', PyFloat (183 / 2))])],
            trace = [AddDataSource ''s1.txt'' ''s1'']\<rparr>"
  let ?p = "\<lparr>data = [(''s1'', [(''total_mapped_alignments'', PyFloat 12)])],
            trace = [AddDataSource ''s1.txt'' ''s1'']\<rparr>"
  let ?j = "\<lparr>data = [(''s1'', [(''total_reads_1'', PyFloat 100)])],
            trace = [AddDataSource ''s1_stat'' ''s1''], pe_bool = False\<rparr>"
  let ?h = "\<lparr>data = [(''s1'', 0)], trace = [AddDataSource ''s1.txt'' ''s1''],
              heap = (\<lambda>_. [])(0 := [(''overall_alignment_rate'', PyFloat 50)]), next_addr = Suc 0\<rparr>"
  have 1: "parse_files parse_coverage_metrics_logs [?cf] \<lparr>data = [], trace = []\<rparr> = Inr ?c"
    by (simp add: simple_eval_defs)
  have 2: "parse_files parse_primerclip_logs [?pf] \<lparr>data = [], trace = []\<rparr> = Inr ?p"
    by (simp add: simple_eval_defs)
  have 3: "parse_files parse_jax_trimmer_logs [?jf] \<lparr>data = [], trace = [], pe_bool = False\<rparr> = Inr ?j"
    by (simp add: simple_eval_defs)
  have 4: "parse_files (parse_hisat2_logs (\<lambda>g f. g)) [?hf]
             \<lparr>data = [], trace = [], heap = (\<lambda>_. []), next_addr = 0\<rparr> = Inr ?h"
    by (simp add: hisat2_eval_defs)
  have a: "\<exists>self1. coverage_metrics_init (\<lambda>_. True) [?cf] = Inl (UserWarning, self1)
             \<and> data self1 = [] \<and> \<not> list_ex is_contribution (trace self1)"
    using all_ignored_raises_no_samples [of "[?cf]" ?c "\<lambda>_. True"] 1 by simp
  have b: "\<exists>self1. primerclip_init (\<lambda>_. True) [?pf] = Inl (UserWarning, self1)
             \<and> data self1 = [] \<and> \<not> list_ex is_contribution (trace self1)"
    using all_ignored_raises_no_samples [of "[?pf]" ?p "\<lambda>_. True"] 2 by simp
  have c: "\<exists>self1. jax_trimmer_init (\<lambda>_. True) [?jf] = Inl (UserWarning, self1)
             \<and> data self1 = [] \<and> \<not> list_ex is_contribution (trace self1)"
    using all_ignored_raises_no_samples [of "[?jf]" _ "\<lambda>_. True" ?j] 3 by simp
  have d: "\<exists>self1. hisat2_init (\<lambda>g f. g) (\<lambda>_. True) [?hf] = Inl (ModuleNoSamplesFound, self1)
             \<and> data self1 = [] \<and> \<not> list_ex is_contribution (trace self1)"
    using all_ignored_raises_no_samples [of _ _ "\<lambda>_. True" _ "\<lambda>g f. g" "[?hf]" ?h] 4 by simp
  from 1 2 3 4 a b c d show ?thesis by blast
qed

subsection \<open>Where records are stored\<close>

text \<open>
  Claim C10. In hisat2 the lines that follow the last \<^verbatim>\<open>Overall alignment rate:\<close> line of a
  file (all its lines, when it has none) are parsed without an exception and leave the
  mapping and the stored records as they were: what they matched is dropped. In
  coverage\_metrics, primerclip and jax\_trimmer a non-empty parsed mapping is stored under
  the sample name at the end of the file.
\<close>

theorem hisat2_stores_only_at_overall:
  "((\<forall>l\<in>set tail. re_search overall_regex l = None) \<and> f_f hf = ls @ tail
      \<and> hisat2_lines clean_s_name hf ls (f_s_name hf, [], hself) = Inr (s1, pd1, self1) \<longrightarrow>
      (\<exists>self2. parse_hisat2_logs clean_s_name hf hself = Inr self2
               \<and> data self2 = data self1 \<and> heap self2 = heap self1))
   \<and> (scan_lines py_float coverage_metrics_regexes (splitlines (f_f f)) [] = Inr parsed_data
        \<and> parsed_data \<noteq> [] \<longrightarrow>
      (\<exists>self'. parse_coverage_metrics_logs f self = Inr self'
          \<and> map_of (data self') (remove_all ''_amplicon_coverage_metrics'' (f_s_name f))
              = Some parsed_data))
   \<and> (scan_lines py_float primerclip_regexes (splitlines (f_f f)) [] = Inr parsed_data
        \<and> parsed_data \<noteq> [] \<longrightarrow>
      (\<exists>self'. parse_primerclip_logs f self = Inr self'
          \<and> map_of (data self') (remove_all ''_primerclip_runstats'' (f_s_name f))
              = Some parsed_data))
   \<and> (jax_lines (splitlines (f_f f)) (False, []) = Inr (pe, parsed_data)
        \<and> parsed_data \<noteq> [] \<longrightarrow>
      (\<exists>self'. parse_jax_trimmer_logs f jself = Inr self'
          \<and> map_of (data self') (rsplit1_head (f_s_name f)) = Some parsed_data))"
proof (intro conjI impI)
  assume a: "(\<forall>l\<in>set tail. re_search overall_regex l = None) \<and> f_f hf = ls @ tail
      \<and> hisat2_lines clean_s_name hf ls (f_s_name hf, [], hself) = Inr (s1, pd1, self1)"
  then have q: "\<forall>l\<in>set tail. re_search overall_regex l = None" by simp
  from hisat2_lines_quiet [OF q, of clean_s_name hf s1 pd1 self1] obtain s2 pd2 self2 where
    "hisat2_lines clean_s_name hf tail (s1, pd1, self1) = Inr (s2, pd2, self2)"
    "data self2 = data self1" "heap self2 = heap self1" by blast
  with a show "\<exists>self2. parse_hisat2_logs clean_s_name hf hself = Inr self2
               \<and> data self2 = data self1 \<and> heap self2 = heap self1"
    by (simp add: parse_hisat2_logs_def hisat2_lines_append)
qed (simp_all add: parse_coverage_metrics_logs_def parse_primerclip_logs_def
       parse_jax_trimmer_logs_def store_sample_lookup Let_def)

theorem hisat2_stores_only_at_overall_witness:
  "re_search overall_regex (''Total reads: 9'' @ [CHR 0x0A]) = None
   \<and> hisat2_lines (\<lambda>g f. g)
        \<lparr>f_s_name = ''run'', f_fn = ''run.log'',
         f_f = [''Overall alignment rate: 50%'' @ [CHR 0x0A], ''Total reads: 9'' @ [CHR 0x0A]]\<rparr>
        [''Overall alignment rate: 50%'' @ [CHR 0x0A]]
        (''run'', [], \<lparr>data = [], trace = [], heap = (\<lambda>_. []), next_addr = 0\<rparr>)
      = Inr (''run'', [],
             \<lparr>data = [(''run'', 0)], trace = [AddDataSource ''run.log'' ''run''],
              heap = (\<lambda>_. [])(0 := [(''overall_alignment_rate'', PyFloat 50)]), next_addr = Suc 0\<rparr>)
   \<and> (\<exists>self2. parse_hisat2_logs (\<lambda>g f. g)
           \<lparr>f_s_name = ''run'', f_fn = ''run.log'',
            f_f = [''Overall alignment rate: 50%'' @ [CHR 0x0A], ''Total reads: 9'' @ [CHR 0x0A]]\<rparr>
           \<lparr>data = [], trace = [], heap = (\<lambda>_. []), next_addr = 0\<rparr> = Inr self2
         \<and> hisat2_view self2 = [(''run'', [(''overall_alignment_rate'', PyFloat 50)])])
   \<and> scan_lines py_float coverage_metrics_regexes (splitlines ''coverage_uniformity 88'') []
       = Inr [(''coverage_uniformity'', PyFloat 88)]
   \<and> (\<exists>self'. parse_coverage_metrics_logs
           \<lparr>f_s_name = ''s1'', f_fn = ''s1.txt'', f_f = ''coverage_uniformity 88''\<rparr>
           \<lparr>data = [], trace = []\<rparr> = Inr self'
         \<and> map_of (data self') ''s1'' = Some [(''coverage_uniformity'', PyFloat 88)])
   \<and> scan_lines py_float primerclip_regexes (splitlines ''Total mapped alignments: 12'') []
       = Inr [(''total_mapped_alignments'', PyFloat 12)]
   \<and> (\<exists>self'. parse_primerclip_logs
           \<lparr>f_s_name = ''s1'', f_fn = ''s1.txt'', f_f = ''Total mapped alignments: 12''\<rparr>
           \<lparr>data = [], trace = []\<rparr> = Inr self'
         \<and> map_of (data self') ''s1'' = Some [(''total_mapped_alignments'', PyFloat 12)])
   \<and> jax_lines (splitlines ''Total number of reads 100'') (False, [])
       = Inr (False, [(''total_reads_1'', PyFloat 100)])
   \<and> (\<exists>self'. parse_jax_trimmer_logs
           \<lparr>f_s_name = ''s1_stat'', f_fn = ''s1_stat'', f_f = ''Total number of reads 100''\<rparr>
           \<lparr>data = [], trace = [], pe_bool = False\<rparr> = Inr self'
         \<and> map_of (data self') ''s1'' = Some [(''total_reads_1'', PyFloat 100)])"
proof -
  let ?hf = "\<lparr>f_s_name = ''run'', f_fn = ''run.log'',
        f_f = [''Overall alignment rate: 50%'' @ [CHR 0x0A], ''Total reads: 9'' @ [CHR 0x0A]]\<rparr>"
  let ?he = "\<lparr>data = [], trace = [], heap = (\<lambda>_. []), next_addr = 0\<rparr> :: hisat2_module"
  let ?h1 = "\<lparr>data = [(''run'', 0)], trace = [AddDataSource ''run.log'' ''run''],
              heap = (\<lambda>_. [])(0 := [(''overall_alignment_rate'', PyFloat 50)]), next_addr = Suc 0\<rparr>"
  let ?cf = "\<lparr>f_s_name = ''s1'', f_fn = ''s1.txt'', f_f = ''coverage_uniformity 88''\<rparr>"
  let ?pf = "\<lparr>f_s_name = ''s1'', f_fn = ''s1.txt'', f_f = ''Total mapped alignments: 12''\<rparr>"
  let ?jf = "\<lparr>f_s_name = ''s1_stat'', f_fn = ''s1_stat'', f_f = ''Total number of reads 100''\<rparr>"
  have h1: "f_f ?hf = [''Overall alignment rate: 50%'' @ [CHR 0x0A]] @ [''Total reads: 9'' @ [CHR 0x0A]]"
    by simp
  have h2: "\<forall>l\<in>set [''Total reads: 9'' @ [CHR 0x0A]]. re_search overall_regex l = None"
    by (simp add: hisat2_eval_defs)
  have h3: "hisat2_lines (\<lambda>g f. g) ?hf [''Overall alignment rate: 50%'' @ [CHR 0x0A]]
              (f_s_name ?hf, [], ?he) = Inr (''run'', [], ?h1)"
    by (simp add: hisat2_eval_defs)
  have c1: "scan_lines py_float coverage_metrics_regexes (splitlines (f_f ?cf)) []
              = Inr [(''coverage_uniformity'', PyFloat 88)]"
    by (simp add: simple_eval_defs)
  have p1: "scan_lines py_float primerclip_regexes (splitlines (f_f ?pf)) []
              = Inr [(''total_mapped_alignments'', PyFloat 12)]"
    by (simp add: simple_eval_defs)
  have j1: "jax_lines (splitlines (f_f ?jf)) (False, []) = Inr (False, [(''total_reads_1'', PyFloat 100)])"
    by (simp add: simple_eval_defs)
  have s1: "remove_all ''_amplicon_coverage_metrics'' (f_s_name ?cf) = ''s1''"
    "remove_all ''_primerclip_runstats'' (f_s_name ?pf) = ''s1''"
    "rsplit1_head (f_s_name ?jf) = ''s1''"
    by (simp_all add: eval_defs)
  note T = hisat2_stores_only_at_overall
  have "\<exists>self2. parse_hisat2_logs (\<lambda>g f. g) ?hf ?he = Inr self2
           \<and> data self2 = data ?h1 \<and> heap self2 = heap ?h1"
    using T [where tail = "[''Total reads: 9'' @ [CHR 0x0A]]" and hf = ?hf
      and ls = "[''Overall alignment rate: 50%'' @ [CHR 0x0A]]" and clean_s_name = "\<lambda>g f. g"
      and hself = ?he and ?s1.0 = "''run''" and ?pd1.0 = "[]" and ?self1.0 = ?h1, THEN conjunct1]
      h1 h2 h3 by blast
  then have H: "\<exists>self2. parse_hisat2_logs (\<lambda>g f. g) ?hf ?he = Inr self2
         \<and> hisat2_view self2 = [(''run'', [(''overall_alignment_rate'', PyFloat 50)])]"
    by (auto simp: hisat2_view_def view_def)
  have C: "\<exists>self'. parse_coverage_metrics_logs ?cf \<lparr>data = [], trace = []\<rparr> = Inr self'
         \<and> map_of (data self') ''s1'' = Some [(''coverage_uniformity'', PyFloat 88)]"
    using T [where f = ?cf and parsed_data = "[(''coverage_uniformity'', PyFloat 88)]"
      and self = "\<lparr>data = [], trace = []\<rparr>", THEN conjunct2, THEN conjunct1] c1 s1
    by simp
  have P: "\<exists>self'. parse_primerclip_logs ?pf \<lparr>data = [], trace = []\<rparr> = Inr self'
         \<and> map_of (data self') ''s1'' = Some [(''total_mapped_alignments'', PyFloat 12)]"
    using T [where f = ?pf and parsed_data = "[(''total_mapped_alignments'', PyFloat 12)]"
      and self = "\<lparr>data = [], trace = []\<rparr>", THEN conjunct2, THEN conjunct2, THEN conjunct1]
      p1 s1
    by simp
  have J: "\<exists>self'. parse_jax_trimmer_logs ?jf \<lparr>data = [], trace = [], pe_bool = False\<rparr> = Inr self'
         \<and> map_of (data self') ''s1'' = Some [(''total_reads_1'', PyFloat 100)]"
    using T [where f = ?jf and parsed_data = "[(''total_reads_1'', PyFloat 100)]" and pe = False
      and jself = "\<lparr>data = [], trace = [], pe_bool = False\<rparr>",
      THEN conjunct2, THEN conjunct2, THEN conjunct2] j1 s1
    by simp
  from h2 have h2': "re_search overall_regex (''Total reads: 9'' @ [CHR 0x0A]) = None" by simp
  from h2' h3 H c1 C p1 P j1 J show ?thesis by simp
qed

subsection \<open>Duplicate sample names\<close>

lemma update_values: "set (map snd (AList.update k v d)) \<subseteq> insert v (set (map snd d))"
  by (induction d) auto

lemma distinct_values_update:
  "distinct (map snd d) \<Longrightarrow> v \<notin> set (map snd d) \<Longrightarrow> distinct (map snd (AList.update k v d))"
proof (induction d)
  case Nil
  then show ?case by simp
next
  case (Cons a d)
  then show ?case using update_values [of k v d] by (cases a) auto
qed

lemma hisat2_line_data:
  assumes "hisat2_line clean f line (s, pd, self) = Inr (s', pd', self')"
  shows "(data self' = data self \<and> heap self' = heap self \<and> next_addr self' = next_addr self)
         \<or> (\<exists>name r. data self' = AList.update name (next_addr self) (data self)
               \<and> heap self' = (heap self)(next_addr self := r)
               \<and> next_addr self' = Suc (next_addr self))"
proof (cases "re_search overall_regex line")
  case None
  from hisat2_line_quiet [OF None, of clean f s pd self] assms show ?thesis by auto
next
  case (Some m)
  show ?thesis
  proof (cases "py_float (mgroup m 1)")
    case (Inl e)
    from hisat2_line_raise [OF Some Inl, of clean f s pd self] assms show ?thesis by auto
  next
    case (Inr v)
    from hisat2_line_store [OF Some Inr, of clean f s pd self] assms show ?thesis by auto
  qed
qed

lemma hisat2_line_inv:
  assumes "hisat2_line clean f line (s, pd, self) = Inr (s', pd', self')"
  shows "(distinct (map fst (data self)) \<longrightarrow> distinct (map fst (data self')))
         \<and> (heap_ok self \<longrightarrow> heap_ok self')"
proof -
  from hisat2_line_data [OF assms] show ?thesis
  proof
    assume "data self' = data self \<and> heap self' = heap self \<and> next_addr self' = next_addr self"
    then show ?thesis by (simp add: heap_ok_def)
  next
    assume "\<exists>name r. data self' = AList.update name (next_addr self) (data self)
               \<and> heap self' = (heap self)(next_addr self := r)
               \<and> next_addr self' = Suc (next_addr self)"
    then obtain name r where d: "data self' = AList.update name (next_addr self) (data self)"
      and n: "next_addr self' = Suc (next_addr self)" by blast
    have "heap_ok self'" if ok: "heap_ok self"
    proof -
      from ok have fresh: "next_addr self \<notin> set (map snd (data self))"
        by (auto simp: heap_ok_def list_all_iff)
      from ok have "distinct (map snd (data self'))"
        unfolding d by (intro distinct_values_update fresh) (simp add: heap_ok_def)
      moreover from ok update_values [of name "next_addr self" "data self"]
      have "list_all (\<lambda>a. a < next_addr self') (map snd (data self'))"
        unfolding d n heap_ok_def list_all_iff by fastforce
      ultimately show ?thesis by (simp add: heap_ok_def)
    qed
    moreover have "distinct (map fst (data self)) \<longrightarrow> distinct (map fst (data self'))"
      by (simp add: d distinct_update)
    ultimately show ?thesis by blast
  qed
qed

lemma hisat2_lines_inv:
  "hisat2_lines clean f ls (s, pd, self) = Inr (s', pd', self') \<Longrightarrow>
   (distinct (map fst (data self)) \<longrightarrow> distinct (map fst (data self')))
   \<and> (heap_ok self \<longrightarrow> heap_ok self')"
proof (induction ls arbitrary: s pd self)
  case Nil
  then show ?case by simp
next
  case (Cons l ls)
  then obtain s1 pd1 self1 where 1: "hisat2_line clean f l (s, pd, self) = Inr (s1, pd1, self1)"
    and 2: "hisat2_lines clean f ls (s1, pd1, self1) = Inr (s', pd', self')"
    by (auto split: sum.splits)
  from Cons.IH [OF 2] hisat2_line_inv [OF 1] show ?case by blast
qed

lemma parse_hisat2_inv:
  "parse_hisat2_logs clean f self = Inr self' \<Longrightarrow>
   (distinct (map fst (data self)) \<longrightarrow> distinct (map fst (data self')))
   \<and> (heap_ok self \<longrightarrow> heap_ok self')"
  by (auto simp: parse_hisat2_logs_def split: sum.splits dest!: hisat2_lines_inv)







subsection \<open>The rendering stage\<close>

lemma m_keys_distinct: "distinct m_keys"
  by (simp add: m_keys_def)

lemma heap_ok_new: "heap_ok \<lparr>data = [], trace = [], heap = (\<lambda>_. []), next_addr = 0\<rparr>"
  by (simp add: heap_ok_def)

lemma parse_files_hisat2_heap_ok:
  "parse_files (parse_hisat2_logs clean) files self = Inr self' \<Longrightarrow> heap_ok self \<Longrightarrow> heap_ok self'"
proof (induction files arbitrary: self)
  case Nil
  then show ?case by simp
next
  case (Cons f fs)
  then obtain s1 where 1: "parse_hisat2_logs clean f self = Inr s1"
    and 2: "parse_files (parse_hisat2_logs clean) fs s1 = Inr self'" by (auto split: sum.splits)
  from parse_hisat2_inv [OF 1] Cons.prems(2) have "heap_ok s1" by simp
  from Cons.IH [OF 2 this] show ?case .
qed

lemma heap_ok_ignore: "heap_ok self \<Longrightarrow> heap_ok (self\<lparr>data := ignore_samples ig (data self)\<rparr>)"
  by (auto simp: heap_ok_def ignore_samples_def list_all_iff distinct_map_filter)

lemma halve_cases:
  "halve v = Inr v' \<Longrightarrow> v' = half_of v"
  "halve v = Inl e \<Longrightarrow> e = OverflowError \<and> (\<exists>i. v = PyInt i \<and> float_overflows i)"
  by (cases v; auto simp: halve_def half_of_def split: if_splits)+

lemma update_present_keys: "map_of d k = Some v \<Longrightarrow> map fst (AList.update k v' d) = map fst d"
  by (force simp: update_keys dest: map_of_SomeD)

lemma halve_keys_keys:
  "halve_keys ks d = Inr d' \<Longrightarrow> map fst d' = map fst d"
  "halve_keys ks d = Inl (e, d') \<Longrightarrow> map fst d' = map fst d"
proof (induction ks arbitrary: d)
  case Nil
  { case 1 then show ?case by simp }
  { case 2 then show ?case by simp }
next
  case (Cons k ks)
  { case 1
    then show ?case
      by (auto split: option.splits sum.splits dest!: Cons.IH(1) simp: update_present_keys) }
  { case 2
    then show ?case
      by (auto split: option.splits sum.splits dest!: Cons.IH(2) simp: update_present_keys) }
qed

lemma halve_keys_returns:
  "distinct ks \<Longrightarrow> halve_keys ks d = Inr d' \<Longrightarrow>
   map_of d' k = (if k \<in> set ks then map_option half_of (map_of d k) else map_of d k)"
proof (induction ks arbitrary: d)
  case Nil
  then show ?case by simp
next
  case (Cons k0 ks)
  then have dk: "distinct ks" and notin: "k0 \<notin> set ks" by simp_all
  show ?case
  proof (cases "map_of d k0")
    case None
    with Cons.prems have "halve_keys ks d = Inr d'" by simp
    from Cons.IH [OF dk this] None notin show ?thesis by auto
  next
    case (Some v)
    with Cons.prems obtain v' where v': "halve v = Inr v'"
      and r: "halve_keys ks (AList.update k0 v' d) = Inr d'" by (auto split: sum.splits)
    from halve_cases(1) [OF v'] Cons.IH [OF dk r] Some notin show ?thesis
      by (auto simp: update_conv')
  qed
qed

lemma halve_keys_raises:
  "distinct ks \<Longrightarrow> halve_keys ks d = Inl (e, d') \<Longrightarrow>
   e = OverflowError
   \<and> (\<forall>k. map_of d' k = map_of d k \<or> (k \<in> set ks \<and> map_of d' k = map_option half_of (map_of d k)))
   \<and> (\<exists>k i. k \<in> set ks \<and> map_of d k = Some (PyInt i) \<and> float_overflows i)"
proof (induction ks arbitrary: d)
  case Nil
  then show ?case by simp
next
  case (Cons k0 ks)
  then have dk: "distinct ks" and notin: "k0 \<notin> set ks" by simp_all
  show ?case
  proof (cases "map_of d k0")
    case None
    with Cons.prems have "halve_keys ks d = Inl (e, d')" by simp
    from Cons.IH [OF dk this] show ?thesis by auto
  next
    case (Some v)
    show ?thesis
    proof (cases "halve v")
      case (Inl e0)
      with Some Cons.prems have "e = e0" "d' = d" by simp_all
      with halve_cases(2) [OF Inl] Some show ?thesis by auto
    next
      case (Inr v')
      with Some Cons.prems have r: "halve_keys ks (AList.update k0 v' d) = Inl (e, d')" by simp
      from Cons.IH [OF dk r] have e: "e = OverflowError"
        and vals: "\<forall>k. map_of d' k = map_of (AList.update k0 v' d) k
                     \<or> (k \<in> set ks \<and> map_of d' k = map_option half_of (map_of (AList.update k0 v' d) k))"
        and ov: "\<exists>k i. k \<in> set ks \<and> map_of (AList.update k0 v' d) k = Some (PyInt i) \<and> float_overflows i"
        by simp_all
      from ov notin have ov': "\<exists>k i. k \<in> set (k0 # ks) \<and> map_of d k = Some (PyInt i) \<and> float_overflows i"
        by (auto simp: update_conv' split: if_splits)
      have "map_of d' k = map_of d k
              \<or> (k \<in> set (k0 # ks) \<and> map_of d' k = map_option half_of (map_of d k))" for k
      proof (cases "k = k0")
        case True
        with vals [rule_format, of k0] notin have "map_of d' k0 = Some v'"
          by (auto simp: update_conv')
        with True Some halve_cases(1) [OF Inr] show ?thesis by simp
      next
        case False
        with vals [rule_format, of k] show ?thesis by (auto simp: update_conv')
      qed
      with e ov' show ?thesis by blast
    qed
  qed
qed

lemma split_se_pe_returns:
  "distinct (map snd items) \<Longrightarrow> split_se_pe items (se, pe, h) = Inr (se', pe', h') \<Longrightarrow>
   (if a \<in> set (map snd items) \<and> map_of (h a) ''paired_total'' \<noteq> None
    then halve_keys m_keys (h a) = Inr (h' a) else h' a = h a)"
proof (induction items arbitrary: se pe h)
  case Nil
  then show ?case by simp
next
  case (Cons x items)
  obtain n b where x: "x = (n, b)" by (cases x)
  from Cons.prems x have d: "distinct (map snd items)" and nb: "b \<notin> set (map snd items)" by auto
  show ?case
  proof (cases "map_of (h b) ''paired_total'' \<noteq> None")
    case True
    with Cons.prems x obtain dd where dd: "halve_keys m_keys (h b) = Inr dd"
      and r: "split_se_pe items (se, AList.update n b pe, h(b := dd)) = Inr (se', pe', h')"
      by (auto split: sum.splits)
    from Cons.IH [OF d r] True nb x dd show ?thesis by (auto split: if_splits)
  next
    case False
    with Cons.prems x have "split_se_pe items (AList.update n b se, pe, h) = Inr (se', pe', h')"
      by simp
    from Cons.IH [OF d this] False nb x show ?thesis by (auto split: if_splits)
  qed
qed

lemma split_se_pe_raises:
  "distinct (map snd items) \<Longrightarrow> split_se_pe items (se, pe, h) = Inl (e, h') \<Longrightarrow>
   (\<forall>a. h' a = h a
     \<or> (a \<in> set (map snd items) \<and> map_of (h a) ''paired_total'' \<noteq> None
         \<and> (halve_keys m_keys (h a) = Inr (h' a) \<or> halve_keys m_keys (h a) = Inl (e, h' a))))
   \<and> (\<exists>b d. b \<in> set (map snd items) \<and> map_of (h b) ''paired_total'' \<noteq> None
             \<and> halve_keys m_keys (h b) = Inl (e, d))"
proof (induction items arbitrary: se pe h)
  case Nil
  then show ?case by simp
next
  case (Cons x items)
  obtain n b where x: "x = (n, b)" by (cases x)
  from Cons.prems x have d: "distinct (map snd items)" and nb: "b \<notin> set (map snd items)" by auto
  show ?case
  proof (cases "map_of (h b) ''paired_total'' \<noteq> None")
    case True
    show ?thesis
    proof (cases "halve_keys m_keys (h b)")
      case (Inl ed)
      obtain e0 d0 where ed: "ed = (e0, d0)" by (cases ed)
      with Inl True Cons.prems x have "e = e0" "h' = h(b := d0)" by simp_all
      with Inl ed True x show ?thesis by auto
    next
      case (Inr dd)
      with True Cons.prems x have
        r: "split_se_pe items (se, AList.update n b pe, h(b := dd)) = Inl (e, h')" by simp
      let ?h1 = "h(b := dd)"
      from Cons.IH [OF d r] have
        1: "\<forall>a. h' a = ?h1 a
              \<or> (a \<in> set (map snd items) \<and> map_of (?h1 a) ''paired_total'' \<noteq> None
                  \<and> (halve_keys m_keys (?h1 a) = Inr (h' a) \<or> halve_keys m_keys (?h1 a) = Inl (e, h' a)))"
        and 2: "\<exists>c d. c \<in> set (map snd items) \<and> map_of (?h1 c) ''paired_total'' \<noteq> None
                  \<and> halve_keys m_keys (?h1 c) = Inl (e, d)"
        by simp_all
      from 2 obtain c d0 where c: "c \<in> set (map snd items)" "map_of (?h1 c) ''paired_total'' \<noteq> None"
        "halve_keys m_keys (?h1 c) = Inl (e, d0)" by blast
      with nb have "c \<noteq> b" by auto
      with c x have B: "\<exists>b d. b \<in> set (map snd (x # items)) \<and> map_of (h b) ''paired_total'' \<noteq> None
             \<and> halve_keys m_keys (h b) = Inl (e, d)" by auto
      have A: "h' a = h a
          \<or> (a \<in> set (map snd (x # items)) \<and> map_of (h a) ''paired_total'' \<noteq> None
              \<and> (halve_keys m_keys (h a) = Inr (h' a) \<or> halve_keys m_keys (h a) = Inl (e, h' a)))" for a
      proof (cases "a = b")
        case True
        with 1 [rule_format, of b] nb have "h' b = dd" by auto
        with True Inr \<open>map_of (h b) ''paired_total'' \<noteq> None\<close> x show ?thesis by simp
      next
        case False
        with 1 [rule_format, of a] x show ?thesis by auto
      qed
      from A B show ?thesis by blast
    qed
  next
    case False
    with Cons.prems x have "split_se_pe items (AList.update n b se, pe, h) = Inl (e, h')"
      by simp
    from Cons.IH [OF d this] False x show ?thesis by auto
  qed
qed

lemma hisat2_alignment_plot_returns:
  assumes "distinct (map snd (data self))" and "hisat2_alignment_plot self = Inr self'"
  shows "data self' = data self"
    and "(if a \<in> set (map snd (data self)) \<and> map_of (heap self a) ''paired_total'' \<noteq> None
          then halve_keys m_keys (heap self a) = Inr (heap self' a) else heap self' a = heap self a)"
proof -
  from assms(2) obtain se pe h where s: "split_se_pe (data self) ([], [], heap self) = Inr (se, pe, h)"
    and h: "heap self' = h" and d: "data self' = data self"
    by (auto simp: hisat2_alignment_plot_def split: sum.splits prod.splits)
  from d show "data self' = data self" .
  from split_se_pe_returns [OF assms(1) s, of a] h
  show "(if a \<in> set (map snd (data self)) \<and> map_of (heap self a) ''paired_total'' \<noteq> None
          then halve_keys m_keys (heap self a) = Inr (heap self' a) else heap self' a = heap self a)"
    by simp
qed

lemma hisat2_alignment_plot_raises:
  assumes "distinct (map snd (data self))" and "hisat2_alignment_plot self = Inl (e, self')"
  shows "data self' = data self" and "trace self' = trace self"
    and "heap self' a = heap self a
         \<or> (a \<in> set (map snd (data self)) \<and> map_of (heap self a) ''paired_total'' \<noteq> None
             \<and> (halve_keys m_keys (heap self a) = Inr (heap self' a)
                 \<or> halve_keys m_keys (heap self a) = Inl (e, heap self' a)))"
    and "\<exists>b d. b \<in> set (map snd (data self)) \<and> map_of (heap self b) ''paired_total'' \<noteq> None
             \<and> halve_keys m_keys (heap self b) = Inl (e, d)"
proof -
  from assms(2) obtain h where s: "split_se_pe (data self) ([], [], heap self) = Inl (e, h)"
    and h: "heap self' = h" and d: "data self' = data self" and t: "trace self' = trace self"
    by (auto simp: hisat2_alignment_plot_def split: sum.splits prod.splits)
  from d show "data self' = data self" .
  from t show "trace self' = trace self" .
  from split_se_pe_raises [OF assms(1) s] h
  show "heap self' a = heap self a
         \<or> (a \<in> set (map snd (data self)) \<and> map_of (heap self a) ''paired_total'' \<noteq> None
             \<and> (halve_keys m_keys (heap self a) = Inr (heap self' a)
                 \<or> halve_keys m_keys (heap self a) = Inl (e, heap self' a)))"
    and "\<exists>b d. b \<in> set (map snd (data self)) \<and> map_of (heap self b) ''paired_total'' \<noteq> None
             \<and> halve_keys m_keys (heap self b) = Inl (e, d)"
    by blast+
qed

lemma small_counts_fit: "\<bar>n\<bar> \<le> 1000000 \<Longrightarrow> \<not> float_overflows n"
proof -
  have "(1000000::int) < 2 ^ 1024 - 2 ^ 970" by simp
  then show "\<bar>n\<bar> \<le> 1000000 \<Longrightarrow> \<not> float_overflows n"
    by (simp add: float_overflows_def)
qed

lemma huge_count_overflows: "float_overflows (2 ^ 1024)"
  by (simp add: float_overflows_def)

lemmas hisat2_init_eval_defs = hisat2_eval_defs hisat2_init_def hisat2_alignment_plot_def
  hisat2_general_stats_table_def ignore_samples_def m_keys_def keep_name_def ignore_none_def
  hisat2_new_def outcome_view_def halve_def small_counts_fit

text \<open>
  Claim C7 says that no stored record changes after the parse pass. In hisat2 it does: for a
  sample with \<^verbatim>\<open>paired_total\<close> the chart stage writes half of \<^verbatim>\<open>unpaired_aligned_one\<close> into
  the stored record, here 4 after the parse pass and 2.0 when \<^verbatim>\<open>__init__\<close> returns.
\<close>

theorem stored_record_changes_after_parse_counterexample:
  "outcome_view (parse_files (parse_hisat2_logs keep_name)
       [\<lparr>f_s_name = ''run'', f_fn = ''run.log'',
         f_f = [''Total pairs: 10'' @ [CHR 0x0A], ''Aligned 1 time: 4 (20.0%)'' @ [CHR 0x0A],
                ''Overall alignment rate: 97.5%'' @ [CHR 0x0A]]\<rparr>] hisat2_new)
     = Inr [(''run'', [(''paired_total'', PyInt 10), (''unpaired_aligned_one'', PyInt 4),
                       (''overall_alignment_rate'', PyFloat (195 / 2))])]
   \<and> outcome_view (hisat2_init keep_name ignore_none
       [\<lparr>f_s_name = ''run'', f_fn = ''run.log'',
         f_f = [''Total pairs: 10'' @ [CHR 0x0A], ''Aligned 1 time: 4 (20.0%)'' @ [CHR 0x0A],
                ''Overall alignment rate: 97.5%'' @ [CHR 0x0A]]\<rparr>])
     = Inr [(''run'', [(''paired_total'', PyInt 10), (''unpaired_aligned_one'', PyFloat 2),
                       (''overall_alignment_rate'', PyFloat (195 / 2))])]"
  by (simp add: hisat2_init_eval_defs)

text \<open>
  Claim C7, amended. The general-statistics stage of every module leaves the mapping and its
  records as they are. The chart stage of hisat2 leaves every sample name with a record of
  the same keys. When it returns, values have changed only in the records that hold
  \<^verbatim>\<open>paired_total\<close>: there each of \<^verbatim>\<open>unpaired_total\<close>, \<^verbatim>\<open>unpaired_aligned_none\<close>,
  \<^verbatim>\<open>unpaired_aligned_one\<close> and \<^verbatim>\<open>unpaired_aligned_multi\<close> that is present is half its
  value, as a float. It raises only OverflowError, and only when such a record holds one of
  these counts as an int beyond the float range; then no chart is added, and each of these
  values is either unchanged or already halved, every other value unchanged. The heap
  discipline assumed holds after every parse pass and ignore filter.
\<close>

theorem rendering_halves_mate_counts_in_place:
  "data (coverage_metrics_general_stats_table self) = data self
   \<and> data (primerclip_general_stats_table self) = data self
   \<and> data (jax_trimmer_general_stats_table jself) = data jself
   \<and> hisat2_view (hisat2_general_stats_table hself) = hisat2_view hself
   \<and> (parse_files (parse_hisat2_logs clean_s_name) hfiles
         \<lparr>data = [], trace = [], heap = (\<lambda>_. []), next_addr = 0\<rparr> = Inr hself0
        \<longrightarrow> heap_ok (hself0\<lparr>data := ignore_samples ig (data hself0)\<rparr>))
   \<and> (heap_ok hself \<and> map_of (hisat2_view hself) n = Some r
        \<and> hisat2_alignment_plot hself = Inr self' \<longrightarrow>
        (\<exists>r'. map_of (hisat2_view self') n = Some r'
           \<and> map fst r' = map fst r
           \<and> (\<forall>k. map_of r' k
                 = (if map_of r ''paired_total'' \<noteq> None \<and> k \<in> set m_keys
                    then map_option half_of (map_of r k) else map_of r k))))
   \<and> (heap_ok hself \<and> map_of (hisat2_view hself) n = Some r
        \<and> hisat2_alignment_plot hself = Inl (e, self') \<longrightarrow>
        e = OverflowError \<and> trace self' = trace hself
        \<and> (\<exists>r'. map_of (hisat2_view self') n = Some r'
              \<and> map fst r' = map fst r
              \<and> (\<forall>k. map_of r' k = map_of r k
                     \<or> (map_of r ''paired_total'' \<noteq> None \<and> k \<in> set m_keys
                         \<and> map_of r' k = map_option half_of (map_of r k)))))
   \<and> (heap_ok hself \<and> hisat2_alignment_plot hself = Inl (e, self') \<longrightarrow>
        (\<exists>n a k i. (n, a) \<in> set (data hself) \<and> map_of (heap hself a) ''paired_total'' \<noteq> None
            \<and> k \<in> set m_keys \<and> map_of (heap hself a) k = Some (PyInt i) \<and> float_overflows i))"
proof -
  have P5: "parse_files (parse_hisat2_logs clean_s_name) hfiles
         \<lparr>data = [], trace = [], heap = (\<lambda>_. []), next_addr = 0\<rparr> = Inr hself0
        \<longrightarrow> heap_ok (hself0\<lparr>data := ignore_samples ig (data hself0)\<rparr>)"
  proof (rule impI)
  assume "parse_files (parse_hisat2_logs clean_s_name) hfiles
         \<lparr>data = [], trace = [], heap = (\<lambda>_. []), next_addr = 0\<rparr> = Inr hself0"
  from parse_files_hisat2_heap_ok [OF this heap_ok_new]
  show "heap_ok (hself0\<lparr>data := ignore_samples ig (data hself0)\<rparr>)" by (rule heap_ok_ignore)
  qed
  have P6: "heap_ok hself \<and> map_of (hisat2_view hself) n = Some r
        \<and> hisat2_alignment_plot hself = Inr self' \<longrightarrow>
        (\<exists>r'. map_of (hisat2_view self') n = Some r'
           \<and> map fst r' = map fst r
           \<and> (\<forall>k. map_of r' k
                 = (if map_of r ''paired_total'' \<noteq> None \<and> k \<in> set m_keys
                    then map_option half_of (map_of r k) else map_of r k)))"
  proof (rule impI)
  assume a: "heap_ok hself \<and> map_of (hisat2_view hself) n = Some r
        \<and> hisat2_alignment_plot hself = Inr self'"
  then obtain a where na: "map_of (data hself) n = Some a" and r: "r = heap hself a"
    by (auto simp: hisat2_view_def map_of_view)
  from na have mem: "a \<in> set (map snd (data hself))" by (force dest: map_of_SomeD)
  from a have d: "distinct (map snd (data hself))" and run: "hisat2_alignment_plot hself = Inr self'"
    by (simp_all add: heap_ok_def)
  let ?r' = "heap self' a"
  note R = hisat2_alignment_plot_returns [OF d run]
  have 1: "map_of (hisat2_view self') n = Some ?r'"
    by (simp add: hisat2_view_def map_of_view R(1) na)
  have 2: "map fst ?r' = map fst r \<and> (\<forall>k. map_of ?r' k
                 = (if map_of r ''paired_total'' \<noteq> None \<and> k \<in> set m_keys
                    then map_option half_of (map_of r k) else map_of r k))"
  proof (cases "map_of r ''paired_total'' \<noteq> None")
    case True
    with R(2) [of a] mem r have h: "halve_keys m_keys r = Inr ?r'" by simp
    from halve_keys_keys(1) [OF h] halve_keys_returns [OF m_keys_distinct h] True
    show ?thesis by simp
  next
    case False
    with R(2) [of a] r have "?r' = r" by simp
    with False show ?thesis by simp
  qed
  from 1 2 show "\<exists>r'. map_of (hisat2_view self') n = Some r'
           \<and> map fst r' = map fst r
           \<and> (\<forall>k. map_of r' k
                 = (if map_of r ''paired_total'' \<noteq> None \<and> k \<in> set m_keys
                    then map_option half_of (map_of r k) else map_of r k))"
    by blast
  qed
  have P7: "heap_ok hself \<and> map_of (hisat2_view hself) n = Some r
        \<and> hisat2_alignment_plot hself = Inl (e, self') \<longrightarrow>
        e = OverflowError \<and> trace self' = trace hself
        \<and> (\<exists>r'. map_of (hisat2_view self') n = Some r'
              \<and> map fst r' = map fst r
              \<and> (\<forall>k. map_of r' k = map_of r k
                     \<or> (map_of r ''paired_total'' \<noteq> None \<and> k \<in> set m_keys
                         \<and> map_of r' k = map_option half_of (map_of r k))))"
  proof (rule impI)
  assume a: "heap_ok hself \<and> map_of (hisat2_view hself) n = Some r
        \<and> hisat2_alignment_plot hself = Inl (e, self')"
  then obtain a where na: "map_of (data hself) n = Some a" and r: "r = heap hself a"
    by (auto simp: hisat2_view_def map_of_view)
  from a have d: "distinct (map snd (data hself))"
    and run: "hisat2_alignment_plot hself = Inl (e, self')"
    by (simp_all add: heap_ok_def)
  note R = hisat2_alignment_plot_raises [OF d run]
  from R(4) obtain b d0 where b: "halve_keys m_keys (heap hself b) = Inl (e, d0)" by blast
  from halve_keys_raises [OF m_keys_distinct b] have e: "e = OverflowError" by simp
  let ?r' = "heap self' a"
  have 1: "map_of (hisat2_view self') n = Some ?r'"
    by (simp add: hisat2_view_def map_of_view R(1) na)
  from R(3) [of a] r have c: "?r' = r
      \<or> (map_of r ''paired_total'' \<noteq> None
          \<and> (halve_keys m_keys r = Inr ?r' \<or> halve_keys m_keys r = Inl (e, ?r')))" by auto
  have 2: "map fst ?r' = map fst r \<and> (\<forall>k. map_of ?r' k = map_of r k
                     \<or> (map_of r ''paired_total'' \<noteq> None \<and> k \<in> set m_keys
                         \<and> map_of ?r' k = map_option half_of (map_of r k)))"
  proof -
    from c consider "?r' = r"
      | "map_of r ''paired_total'' \<noteq> None" "halve_keys m_keys r = Inr ?r'"
      | "map_of r ''paired_total'' \<noteq> None" "halve_keys m_keys r = Inl (e, ?r')" by blast
    then show ?thesis
    proof cases
      case 1
      then show ?thesis by simp
    next
      case 2
      from halve_keys_keys(1) [OF 2(2)] halve_keys_returns [OF m_keys_distinct 2(2)] 2(1)
      show ?thesis by auto
    next
      case 3
      from halve_keys_keys(2) [OF 3(2)] halve_keys_raises [OF m_keys_distinct 3(2)] 3(1)
      show ?thesis by auto
    qed
  qed
  from e R(2) 1 2 show "e = OverflowError \<and> trace self' = trace hself
        \<and> (\<exists>r'. map_of (hisat2_view self') n = Some r'
              \<and> map fst r' = map fst r
              \<and> (\<forall>k. map_of r' k = map_of r k
                     \<or> (map_of r ''paired_total'' \<noteq> None \<and> k \<in> set m_keys
                         \<and> map_of r' k = map_option half_of (map_of r k))))"
    by blast
  qed
  have P8: "heap_ok hself \<and> hisat2_alignment_plot hself = Inl (e, self') \<longrightarrow>
        (\<exists>n a k i. (n, a) \<in> set (data hself) \<and> map_of (heap hself a) ''paired_total'' \<noteq> None
            \<and> k \<in> set m_keys \<and> map_of (heap hself a) k = Some (PyInt i) \<and> float_overflows i)"
  proof (rule impI)
  assume a: "heap_ok hself \<and> hisat2_alignment_plot hself = Inl (e, self')"
  then have d: "distinct (map snd (data hself))"
    and run: "hisat2_alignment_plot hself = Inl (e, self')" by (simp_all add: heap_ok_def)
  from hisat2_alignment_plot_raises(4) [OF d run] obtain b d0 where
    b: "b \<in> set (map snd (data hself))" "map_of (heap hself b) ''paired_total'' \<noteq> None"
    "halve_keys m_keys (heap hself b) = Inl (e, d0)" by blast
  from halve_keys_raises [OF m_keys_distinct b(3)] obtain k i where
    "k \<in> set m_keys" "map_of (heap hself b) k = Some (PyInt i)" "float_overflows i" by blast
  moreover from b(1) obtain n where "(n, b) \<in> set (data hself)" by auto
  ultimately show "\<exists>n a k i. (n, a) \<in> set (data hself) \<and> map_of (heap hself a) ''paired_total'' \<noteq> None
            \<and> k \<in> set m_keys \<and> map_of (heap hself a) k = Some (PyInt i) \<and> float_overflows i"
    using b(2) by blast
  qed
  show ?thesis
    by (intro conjI P5 P6 P7 P8)
       (simp_all add: coverage_metrics_general_stats_table_def primerclip_general_stats_table_def
          jax_trimmer_general_stats_table_def hisat2_general_stats_table_def hisat2_view_def)
qed

theorem rendering_halves_mate_counts_in_place_witness:
  "parse_files (parse_hisat2_logs keep_name)
       [\<lparr>f_s_name = ''run'', f_fn = ''run.log'',
         f_f = [''Total pairs: 10'' @ [CHR 0x0A], ''Aligned 1 time: 4 (20.0%)'' @ [CHR 0x0A],
                ''Overall alignment rate: 97.5%'' @ [CHR 0x0A]]\<rparr>]
       \<lparr>data = [], trace = [], heap = (\<lambda>_. []), next_addr = 0\<rparr>
     = Inr \<lparr>data = [(''run'', 0)], trace = [AddDataSource ''run.log'' ''run''],
            heap = (\<lambda>_. [])(0 := [(''paired_total'', PyInt 10), (''unpaired_aligned_one'', PyInt 4),
                                   (''overall_alignment_rate'', PyFloat (195 / 2))]),
            next_addr = Suc 0\<rparr>
   \<and> heap_ok \<lparr>data = [(''run'', 0)], trace = [AddDataSource ''run.log'' ''run''],
            heap = (\<lambda>_. [])(0 := [(''paired_total'', PyInt 10), (''unpaired_aligned_one'', PyInt 4),
                                   (''overall_alignment_rate'', PyFloat (195 / 2))]),
            next_addr = Suc 0\<rparr>
   \<and> (\<exists>self' r'. hisat2_alignment_plot
           \<lparr>data = [(''run'', 0)], trace = [AddDataSource ''run.log'' ''run''],
            heap = (\<lambda>_. [])(0 := [(''paired_total'', PyInt 10), (''unpaired_aligned_one'', PyInt 4),
                                   (''overall_alignment_rate'', PyFloat (195 / 2))]),
            next_addr = Suc 0\<rparr> = Inr self'
         \<and> map_of (hisat2_view self') ''run'' = Some r'
         \<and> map fst r' = [''paired_total'', ''unpaired_aligned_one'', ''overall_alignment_rate'']
         \<and> map_of r' ''paired_total'' = Some (PyInt 10)
         \<and> map_of r' ''unpaired_aligned_one'' = Some (PyFloat 2)
         \<and> map_of r' ''overall_alignment_rate'' = Some (PyFloat (195 / 2)))
   \<and> heap_ok \<lparr>data = [(''big'', 0)], trace = [],
            heap = (\<lambda>_. [])(0 := [(''paired_total'', PyInt 1), (''unpaired_total'', PyInt (2 ^ 1024))]),
            next_addr = Suc 0\<rparr>
   \<and> float_overflows (2 ^ 1024)
   \<and> (\<exists>self' r'. hisat2_alignment_plot
           \<lparr>data = [(''big'', 0)], trace = [],
            heap = (\<lambda>_. [])(0 := [(''paired_total'', PyInt 1), (''unpaired_total'', PyInt (2 ^ 1024))]),
            next_addr = Suc 0\<rparr> = Inl (OverflowError, self')
         \<and> trace self' = []
         \<and> map_of (hisat2_view self') ''big'' = Some r'
         \<and> map fst r' = [''paired_total'', ''unpaired_total''])
   \<and> (\<exists>n a k i. (n, a) \<in> set [(''big'', 0 :: nat)]
         \<and> map_of (((\<lambda>_. [])(0 := [(''paired_total'', PyInt 1),
                                         (''unpaired_total'', PyInt (2 ^ 1024))])) a)
               ''paired_total'' \<noteq> None
         \<and> k \<in> set m_keys
         \<and> map_of (((\<lambda>_. [])(0 := [(''paired_total'', PyInt 1),
                                         (''unpaired_total'', PyInt (2 ^ 1024))])) a) k
             = Some (PyInt i)
         \<and> float_overflows i)"
proof -
  let ?f = "\<lparr>f_s_name = ''run'', f_fn = ''run.log'',
         f_f = [''Total pairs: 10'' @ [CHR 0x0A], ''Aligned 1 time: 4 (20.0%)'' @ [CHR 0x0A],
                ''Overall alignment rate: 97.5%'' @ [CHR 0x0A]]\<rparr>"
  let ?r = "[(''paired_total'', PyInt 10), (''unpaired_aligned_one'', PyInt 4),
             (''overall_alignment_rate'', PyFloat (195 / 2))]"
  let ?h = "\<lparr>data = [(''run'', 0)], trace = [AddDataSource ''run.log'' ''run''],
            heap = (\<lambda>_. [])(0 := ?r), next_addr = Suc 0\<rparr>"
  let ?b = "[(''paired_total'', PyInt 1), (''unpaired_total'', PyInt (2 ^ 1024))]"
  let ?o = "\<lparr>data = [(''big'', 0)], trace = [], heap = (\<lambda>_. [])(0 := ?b), next_addr = Suc 0\<rparr>"
  note T = rendering_halves_mate_counts_in_place
  have 1: "parse_files (parse_hisat2_logs keep_name) [?f]
             \<lparr>data = [], trace = [], heap = (\<lambda>_. []), next_addr = 0\<rparr> = Inr ?h"
    by (simp add: hisat2_init_eval_defs)
  have 2: "heap_ok (?h\<lparr>data := ignore_samples ignore_none (data ?h)\<rparr>)"
    using T [where clean_s_name = keep_name and hfiles = "[?f]" and ?hself0.0 = ?h
        and ig = ignore_none, THEN conjunct2, THEN conjunct2, THEN conjunct2, THEN conjunct2,
        THEN conjunct1] 1 by blast
  then have 3: "heap_ok ?h" by (simp add: ignore_samples_def ignore_none_def)
  have 4: "map_of (hisat2_view ?h) ''run'' = Some ?r" by (simp add: hisat2_view_def view_def)
  have "\<exists>self'. hisat2_alignment_plot ?h = Inr self'" by (simp add: hisat2_init_eval_defs)
  then obtain h' where h': "hisat2_alignment_plot ?h = Inr h'" by blast
  from T [where hself = ?h and n = "''run''" and r = ?r and self' = h', THEN conjunct2,
      THEN conjunct2, THEN conjunct2, THEN conjunct2, THEN conjunct2, THEN conjunct1] 3 4 h'
  obtain r' where a: "map_of (hisat2_view h') ''run'' = Some r'"
    and b: "map fst r' = map fst ?r"
    and c: "\<forall>k. map_of r' k
                 = (if map_of ?r ''paired_total'' \<noteq> None \<and> k \<in> set m_keys
                    then map_option half_of (map_of ?r k) else map_of ?r k)"
    by blast
  from c have "map_of r' ''paired_total'' = Some (PyInt 10)"
    "map_of r' ''unpaired_aligned_one'' = Some (PyFloat 2)"
    "map_of r' ''overall_alignment_rate'' = Some (PyFloat (195 / 2))"
    by (simp_all add: m_keys_def half_of_def)
  with a b h' have A: "\<exists>self' r'. hisat2_alignment_plot ?h = Inr self'
         \<and> map_of (hisat2_view self') ''run'' = Some r'
         \<and> map fst r' = [''paired_total'', ''unpaired_aligned_one'', ''overall_alignment_rate'']
         \<and> map_of r' ''paired_total'' = Some (PyInt 10)
         \<and> map_of r' ''unpaired_aligned_one'' = Some (PyFloat 2)
         \<and> map_of r' ''overall_alignment_rate'' = Some (PyFloat (195 / 2))" by auto
  have 5: "heap_ok ?o" by (simp add: heap_ok_def)
  note 6 = huge_count_overflows
  have 7: "map_of (hisat2_view ?o) ''big'' = Some ?b" by (simp add: hisat2_view_def view_def)
  have "\<exists>self'. hisat2_alignment_plot ?o = Inl (OverflowError, self')"
    by (simp add: hisat2_alignment_plot_def m_keys_def halve_def huge_count_overflows
          del: power_numeral)
  then obtain o' where o': "hisat2_alignment_plot ?o = Inl (OverflowError, o')" by blast
  note T7 = T [where hself = ?o and n = "''big''" and r = ?b and self' = o' and e = OverflowError,
      THEN conjunct2, THEN conjunct2, THEN conjunct2, THEN conjunct2, THEN conjunct2,
      THEN conjunct2, THEN conjunct1, THEN mp, OF conjI [OF 5 conjI [OF 7 o']]]
  from T7 have t: "trace o' = []" by simp
  from T7 obtain r' where "map_of (hisat2_view o') ''big'' = Some r'"
    "map fst r' = [''paired_total'', ''unpaired_total'']" by auto
  note this t
  with o' have B: "\<exists>self' r'. hisat2_alignment_plot ?o = Inl (OverflowError, self')
         \<and> trace self' = []
         \<and> map_of (hisat2_view self') ''big'' = Some r'
         \<and> map fst r' = [''paired_total'', ''unpaired_total'']" by auto
  note T8 = T [where hself = ?o and self' = o' and e = OverflowError,
      THEN conjunct2, THEN conjunct2, THEN conjunct2, THEN conjunct2, THEN conjunct2,
      THEN conjunct2, THEN conjunct2, THEN mp, OF conjI [OF 5 o']]
  from T8 have D: "\<exists>n a k i. (n, a) \<in> set [(''big'', 0 :: nat)]
         \<and> map_of (((\<lambda>_. [])(0 := ?b)) a) ''paired_total'' \<noteq> None
         \<and> k \<in> set m_keys
         \<and> map_of (((\<lambda>_. [])(0 := ?b)) a) k = Some (PyInt i)
         \<and> float_overflows i" by (simp del: power_numeral)
  from 1 3 A 5 6 B D show ?thesis by blast
qed

subsection \<open>Which line decides a value\<close>

lemma suffix_1_2: "k @ ''_1'' \<noteq> k' @ ''_2''"
proof
  assume "k @ ''_1'' = k' @ ''_2''"
  then have "last (k @ ''_1'') = last (k' @ ''_2'')" by simp
  then show False by simp
qed

lemma jax_scan_pe_absent:
  "jax_scan_pe rs l pd = Inr pd' \<Longrightarrow> k \<notin> set (map fst rs) \<Longrightarrow>
   map_of pd' (k @ ''_1'') = map_of pd (k @ ''_1'') \<and> map_of pd' (k @ ''_2'') = map_of pd (k @ ''_2'')"
proof (induction rs arbitrary: pd)
  case Nil
  then show ?case by simp
next
  case (Cons a rs)
  obtain k0 r0 where a: "a = (k0, r0)" by (cases a)
  with Cons.prems have ne: "k0 \<noteq> k" and rest: "k \<notin> set (map fst rs)" by auto
  show ?case
  proof (cases "re_search r0 l")
    case None
    with Cons.prems(1) a have "jax_scan_pe rs l pd = Inr pd'" by simp
    from Cons.IH [OF this rest] show ?thesis .
  next
    case (Some m)
    with Cons.prems(1) a obtain v1 v2 where
      "jax_scan_pe rs l (AList.update (k0 @ ''_2'') v2 (AList.update (k0 @ ''_1'') v1 pd)) = Inr pd'"
      by (auto split: sum.splits)
    from Cons.IH [OF this rest] ne suffix_1_2 [of k k0] suffix_1_2 [of k0 k] show ?thesis
      by (simp add: update_conv')
  qed
qed

lemma jax_scan_pe_miss:
  "jax_scan_pe rs l pd = Inr pd' \<Longrightarrow> \<not> matches rs k l \<Longrightarrow> distinct (map fst rs) \<Longrightarrow>
   map_of pd' (k @ ''_1'') = map_of pd (k @ ''_1'') \<and> map_of pd' (k @ ''_2'') = map_of pd (k @ ''_2'')"
proof (induction rs arbitrary: pd)
  case Nil
  then show ?case by simp
next
  case (Cons a rs)
  obtain k0 r0 where a: "a = (k0, r0)" by (cases a)
  from Cons.prems a have d: "distinct (map fst rs)" and k0: "k0 \<notin> set (map fst rs)" by auto
  show ?case
  proof (cases "k0 = k")
    case True
    with Cons.prems(2) a have "re_search r0 l = None" by (simp add: matches_def)
    with Cons.prems(1) a have "jax_scan_pe rs l pd = Inr pd'" by simp
    from jax_scan_pe_absent [OF this] k0 True show ?thesis by simp
  next
    case False
    with Cons.prems(2) a have m: "\<not> matches rs k l" by (simp add: matches_def)
    show ?thesis
    proof (cases "re_search r0 l")
      case None
      with Cons.prems(1) a have "jax_scan_pe rs l pd = Inr pd'" by simp
      from Cons.IH [OF this m d] show ?thesis .
    next
      case (Some mm)
      with Cons.prems(1) a obtain v1 v2 where
        "jax_scan_pe rs l (AList.update (k0 @ ''_2'') v2 (AList.update (k0 @ ''_1'') v1 pd)) = Inr pd'"
        by (auto split: sum.splits)
      from Cons.IH [OF this m d] False suffix_1_2 [of k k0] suffix_1_2 [of k0 k] show ?thesis
        by (simp add: update_conv')
    qed
  qed
qed

lemma jax_scan_pe_hit:
  "jax_scan_pe rs l pd = Inr pd' \<Longrightarrow> map_of rs k = Some r \<Longrightarrow> re_search r l = Some m
   \<Longrightarrow> distinct (map fst rs) \<Longrightarrow>
   \<exists>v1 v2. py_float (mgroup m 1) = Inr v1 \<and> py_float (mgroup m 2) = Inr v2
      \<and> map_of pd' (k @ ''_1'') = Some v1 \<and> map_of pd' (k @ ''_2'') = Some v2"
proof (induction rs arbitrary: pd)
  case Nil
  then show ?case by simp
next
  case (Cons a rs)
  obtain k0 r0 where a: "a = (k0, r0)" by (cases a)
  from Cons.prems a have d: "distinct (map fst rs)" and k0: "k0 \<notin> set (map fst rs)" by auto
  show ?case
  proof (cases "k0 = k")
    case True
    with Cons.prems a have r0: "r0 = r" by simp
    from Cons.prems a True r0 obtain v1 v2 where v: "py_float (mgroup m 1) = Inr v1"
      "py_float (mgroup m 2) = Inr v2"
      and rest: "jax_scan_pe rs l (AList.update (k @ ''_2'') v2 (AList.update (k @ ''_1'') v1 pd)) = Inr pd'"
      by (auto split: sum.splits)
    from jax_scan_pe_absent [OF rest] k0 True suffix_1_2 [of k k]
    have "map_of pd' (k @ ''_1'') = Some v1 \<and> map_of pd' (k @ ''_2'') = Some v2"
      by (simp add: update_conv')
    with v show ?thesis by blast
  next
    case False
    with Cons.prems a have mo: "map_of rs k = Some r" by simp
    show ?thesis
    proof (cases "re_search r0 l")
      case None
      with Cons.prems(1) a have "jax_scan_pe rs l pd = Inr pd'" by simp
      from Cons.IH [OF this mo Cons.prems(3) d] show ?thesis .
    next
      case (Some mm)
      with Cons.prems(1) a obtain v1 v2 where
        "jax_scan_pe rs l (AList.update (k0 @ ''_2'') v2 (AList.update (k0 @ ''_1'') v1 pd)) = Inr pd'"
        by (auto split: sum.splits)
      from Cons.IH [OF this mo Cons.prems(3) d] show ?thesis .
    qed
  qed
qed

lemma jax_scan_se_absent:
  "jax_scan_se rs l pd = Inr pd' \<Longrightarrow>
   map_of pd' (k @ ''_2'') = map_of pd (k @ ''_2'')
   \<and> (k \<notin> set (map fst rs) \<longrightarrow> map_of pd' (k @ ''_1'') = map_of pd (k @ ''_1''))"
proof (induction rs arbitrary: pd)
  case Nil
  then show ?case by simp
next
  case (Cons a rs)
  obtain k0 r0 where a: "a = (k0, r0)" by (cases a)
  show ?case
  proof (cases "re_search r0 l")
    case None
    with Cons.prems(1) a have "jax_scan_se rs l pd = Inr pd'" by simp
    from Cons.IH [OF this] a show ?thesis by simp
  next
    case (Some m)
    with Cons.prems(1) a obtain v1 where
      "jax_scan_se rs l (AList.update (k0 @ ''_1'') v1 pd) = Inr pd'"
      by (auto split: sum.splits)
    from Cons.IH [OF this] a suffix_1_2 [of k0 k] show ?thesis
      by (auto simp: update_conv')
  qed
qed

lemma jax_scan_se_miss:
  "jax_scan_se rs l pd = Inr pd' \<Longrightarrow> \<not> matches rs k l \<Longrightarrow> distinct (map fst rs) \<Longrightarrow>
   map_of pd' (k @ ''_1'') = map_of pd (k @ ''_1'')"
proof (induction rs arbitrary: pd)
  case Nil
  then show ?case by simp
next
  case (Cons a rs)
  obtain k0 r0 where a: "a = (k0, r0)" by (cases a)
  from Cons.prems a have d: "distinct (map fst rs)" and k0: "k0 \<notin> set (map fst rs)" by auto
  show ?case
  proof (cases "k0 = k")
    case True
    with Cons.prems(2) a have "re_search r0 l = None" by (simp add: matches_def)
    with Cons.prems(1) a have "jax_scan_se rs l pd = Inr pd'" by simp
    from jax_scan_se_absent [OF this, of k] k0 True show ?thesis by simp
  next
    case False
    with Cons.prems(2) a have m: "\<not> matches rs k l" by (simp add: matches_def)
    show ?thesis
    proof (cases "re_search r0 l")
      case None
      with Cons.prems(1) a have "jax_scan_se rs l pd = Inr pd'" by simp
      from Cons.IH [OF this m d] show ?thesis .
    next
      case (Some mm)
      with Cons.prems(1) a obtain v1 where
        "jax_scan_se rs l (AList.update (k0 @ ''_1'') v1 pd) = Inr pd'"
        by (auto split: sum.splits)
      from Cons.IH [OF this m d] False show ?thesis by (simp add: update_conv')
    qed
  qed
qed

lemma jax_scan_se_hit:
  "jax_scan_se rs l pd = Inr pd' \<Longrightarrow> map_of rs k = Some r \<Longrightarrow> re_search r l = Some m
   \<Longrightarrow> distinct (map fst rs) \<Longrightarrow>
   \<exists>v1. py_float (mgroup m 1) = Inr v1 \<and> map_of pd' (k @ ''_1'') = Some v1"
proof (induction rs arbitrary: pd)
  case Nil
  then show ?case by simp
next
  case (Cons a rs)
  obtain k0 r0 where a: "a = (k0, r0)" by (cases a)
  from Cons.prems a have d: "distinct (map fst rs)" and k0: "k0 \<notin> set (map fst rs)" by auto
  show ?case
  proof (cases "k0 = k")
    case True
    with Cons.prems a have r0: "r0 = r" by simp
    from Cons.prems a True r0 obtain v1 where v: "py_float (mgroup m 1) = Inr v1"
      and rest: "jax_scan_se rs l (AList.update (k @ ''_1'') v1 pd) = Inr pd'"
      by (auto split: sum.splits)
    from jax_scan_se_absent [OF rest, of k] k0 True
    have "map_of pd' (k @ ''_1'') = Some v1" by (simp add: update_conv')
    with v show ?thesis by blast
  next
    case False
    with Cons.prems a have mo: "map_of rs k = Some r" by simp
    show ?thesis
    proof (cases "re_search r0 l")
      case None
      with Cons.prems(1) a have "jax_scan_se rs l pd = Inr pd'" by simp
      from Cons.IH [OF this mo Cons.prems(3) d] show ?thesis .
    next
      case (Some mm)
      with Cons.prems(1) a obtain v1 where
        "jax_scan_se rs l (AList.update (k0 @ ''_1'') v1 pd) = Inr pd'"
        by (auto split: sum.splits)
      from Cons.IH [OF this mo Cons.prems(3) d] show ?thesis .
    qed
  qed
qed

lemma jax_tables_distinct: "distinct (map fst (jax_table pe))"
  by (simp add: jax_table_def jax_regexes_def jax_regexes_se_def)

lemma jax_lines_step:
  assumes "jax_lines (l # ls) (pe, pd) = Inr res"
  shows "\<exists>pd1. jax_lines ls (if str_in ''Read'' l \<and> str_in ''Read 2'' l then True else pe, pd1) = Inr res
           \<and> (if str_in ''Read'' l then pd1 = pd
               else (if pe then jax_scan_pe jax_regexes l pd
                     else jax_scan_se jax_regexes_se l pd) = Inr pd1)"
proof (cases "str_in ''Read'' l")
  case True
  with assms show ?thesis by (cases "str_in ''Read 2'' l") simp_all
next
  case False
  with assms show ?thesis by (cases res) (auto split: sum.splits)
qed

lemma jax_line_miss:
  assumes "if str_in ''Read'' l then pd1 = pd
           else (if pe then jax_scan_pe jax_regexes l pd
                 else jax_scan_se jax_regexes_se l pd) = Inr pd1"
    and "\<not> matches (jax_table pe) k l"
  shows "map_of pd1 (k @ ''_1'') = map_of pd (k @ ''_1'')
         \<and> map_of pd1 (k @ ''_2'') = map_of pd (k @ ''_2'')"
proof (cases "str_in ''Read'' l")
  case True
  with assms(1) show ?thesis by simp
next
  case False
  show ?thesis
  proof (cases pe)
    case True
    with False assms(1) have s: "jax_scan_pe jax_regexes l pd = Inr pd1" by simp
    from assms(2) True have "\<not> matches jax_regexes k l" by (simp add: jax_table_def)
    from jax_scan_pe_miss [OF s this] jax_tables_distinct [of True] show ?thesis
      by (simp add: jax_table_def)
  next
    case nope: False
    with False assms(1) have s: "jax_scan_se jax_regexes_se l pd = Inr pd1" by simp
    from assms(2) nope have "\<not> matches jax_regexes_se k l" by (simp add: jax_table_def)
    from jax_scan_se_miss [OF s this] jax_scan_se_absent [OF s, of k] jax_tables_distinct [of False]
    show ?thesis by (simp add: jax_table_def)
  qed
qed

lemma jax_line_hit:
  assumes "(if pe then jax_scan_pe jax_regexes l pd else jax_scan_se jax_regexes_se l pd) = Inr pd1"
    and "map_of (jax_table pe) k = Some r" and "re_search r l = Some m"
  shows "\<exists>v1. py_float (mgroup m 1) = Inr v1 \<and> map_of pd1 (k @ ''_1'') = Some v1
           \<and> (pe \<longrightarrow> (\<exists>v2. py_float (mgroup m 2) = Inr v2 \<and> map_of pd1 (k @ ''_2'') = Some v2))"
proof (cases pe)
  case True
  with assms have s: "jax_scan_pe jax_regexes l pd = Inr pd1" and r: "map_of jax_regexes k = Some r"
    by (simp_all add: jax_table_def)
  from jax_scan_pe_hit [OF s r assms(3)] jax_tables_distinct [of True] show ?thesis
    by (auto simp: jax_table_def)
next
  case False
  with assms have s: "jax_scan_se jax_regexes_se l pd = Inr pd1"
    and r: "map_of jax_regexes_se k = Some r" by (simp_all add: jax_table_def)
  from jax_scan_se_hit [OF s r assms(3)] jax_tables_distinct [of False] False show ?thesis
    by (auto simp: jax_table_def)
qed

lemma jax_lines_miss:
  "jax_lines ls (pe0, pd0) = Inr (pe', pd') \<Longrightarrow>
   \<forall>(p, l')\<in>set (jax_modes pe0 ls). \<not> matches (jax_table p) k l' \<Longrightarrow>
   map_of pd' (k @ ''_1'') = map_of pd0 (k @ ''_1'') \<and> map_of pd' (k @ ''_2'') = map_of pd0 (k @ ''_2'')"
proof (induction ls arbitrary: pe0 pd0)
  case Nil
  then show ?case by simp
next
  case (Cons l ls)
  let ?pe1 = "if str_in ''Read'' l \<and> str_in ''Read 2'' l then True else pe0"
  from jax_lines_step [OF Cons.prems(1)] obtain pd1 where
    1: "jax_lines ls (?pe1, pd1) = Inr (pe', pd')"
    and 2: "if str_in ''Read'' l then pd1 = pd0
            else (if pe0 then jax_scan_pe jax_regexes l pd0
                  else jax_scan_se jax_regexes_se l pd0) = Inr pd1" by blast
  from Cons.prems(2) have here: "\<not> matches (jax_table pe0) k l"
    and rest: "\<forall>(p, l')\<in>set (jax_modes ?pe1 ls). \<not> matches (jax_table p) k l'" by simp_all
  from jax_line_miss [OF 2 here] Cons.IH [OF 1 rest] show ?case by simp
qed

lemma jax_lines_last:
  "jax_lines ls (pe0, pd0) = Inr (pe', pd') \<Longrightarrow> jax_modes pe0 ls = mpre @ (pe, l) # mpost \<Longrightarrow>
   \<not> str_in ''Read'' l \<Longrightarrow> map_of (jax_table pe) k = Some r \<Longrightarrow> re_search r l = Some m \<Longrightarrow>
   \<forall>(p, l')\<in>set mpost. \<not> matches (jax_table p) k l' \<Longrightarrow>
   \<exists>v1. py_float (mgroup m 1) = Inr v1 \<and> map_of pd' (k @ ''_1'') = Some v1
      \<and> (pe \<longrightarrow> (\<exists>v2. py_float (mgroup m 2) = Inr v2 \<and> map_of pd' (k @ ''_2'') = Some v2))"
proof (induction ls arbitrary: pe0 pd0 mpre)
  case Nil
  then show ?case by simp
next
  case (Cons x xs)
  let ?pe1 = "if str_in ''Read'' x \<and> str_in ''Read 2'' x then True else pe0"
  from jax_lines_step [OF Cons.prems(1)] obtain pd1 where
    1: "jax_lines xs (?pe1, pd1) = Inr (pe', pd')"
    and 2: "if str_in ''Read'' x then pd1 = pd0
            else (if pe0 then jax_scan_pe jax_regexes x pd0
                  else jax_scan_se jax_regexes_se x pd0) = Inr pd1" by blast
  show ?case
  proof (cases mpre)
    case Nil
    with Cons.prems(2) have eq: "pe = pe0" "l = x" and post: "mpost = jax_modes ?pe1 xs" by auto
    from 2 eq Cons.prems(3) have
      s: "(if pe then jax_scan_pe jax_regexes l pd0 else jax_scan_se jax_regexes_se l pd0) = Inr pd1"
      by (auto split: if_splits)
    from jax_line_hit [OF s Cons.prems(4) Cons.prems(5)] obtain v1 where
      v1: "py_float (mgroup m 1) = Inr v1" "map_of pd1 (k @ ''_1'') = Some v1"
      and v2: "pe \<longrightarrow> (\<exists>v2. py_float (mgroup m 2) = Inr v2 \<and> map_of pd1 (k @ ''_2'') = Some v2)"
      by blast
    from Cons.prems(6) post have
      "\<forall>(p, l')\<in>set (jax_modes ?pe1 xs). \<not> matches (jax_table p) k l'" by simp
    from jax_lines_miss [OF 1 this] v1 v2 show ?thesis by auto
  next
    case (Cons y ys)
    with Cons.prems(2) have "jax_modes ?pe1 xs = ys @ (pe, l) # mpost" by simp
    from Cons.IH [OF 1 this Cons.prems(3) Cons.prems(4) Cons.prems(5) Cons.prems(6)]
    show ?thesis .
  qed
qed

lemma hisat2_keys_not_overall: "map_of hisat2_regexes ''overall_alignment_rate'' = None"
  by (simp add: hisat2_regexes_def)

text \<open>
  Claim C2 says that the first matching line decides the stored value. It is the last: with
  \<^verbatim>\<open>on_target_percent 1\<close> followed by \<^verbatim>\<open>on_target_percent 2\<close>, the first line alone gives
  1.0, the second line matches the same pattern, and the stored value is 2.0.
\<close>

theorem first_match_does_not_win_counterexample:
  "scan_lines py_float coverage_metrics_regexes [''on_target_percent 1''] []
     = Inr [(''on_target_percent'', PyFloat 1)]
   \<and> matches coverage_metrics_regexes ''on_target_percent'' ''on_target_percent 2''
   \<and> parse_coverage_metrics_logs
        \<lparr>f_s_name = ''s1'', f_fn = ''s1.txt'',
         f_f = ''on_target_percent 1'' @ [CHR 0x0A] @ ''on_target_percent 2''\<rparr>
        \<lparr>data = [], trace = []\<rparr>
     = Inr \<lparr>data = [(''s1'', [(''on_target_percent'', PyFloat 2)])],
            trace = [AddDataSource ''s1.txt'' ''s1'']\<rparr>"
  by (simp add: simple_eval_defs matches_def)

text \<open>
  Claim C2, amended. The value stored under a key is the converted capture of the last line
  that matches the key's pattern: every later matching line overwrites it. In
  coverage\_metrics and primerclip, when the parse returns, this holds of the lines of the
  file. In hisat2 it holds of the lines of a record's segment, which ends with a terminating
  line whose capture \<^verbatim>\<open>float\<close> accepts. In jax\_trimmer, when the parse returns, it holds of
  the lines matched by the key's pattern in the table of the mode in force at the line,
  provided the last of them does not contain \<^verbatim>\<open>Read\<close>: group 1 is stored under the key with
  \<^verbatim>\<open>_1\<close> and, in paired-end mode, group 2 under the key with \<^verbatim>\<open>_2\<close>.
\<close>

theorem last_match_wins:
  "(splitlines (f_f f) = pre @ l # post \<and> map_of coverage_metrics_regexes k = Some r
      \<and> re_search r l = Some m \<and> (\<forall>l'\<in>set post. \<not> matches coverage_metrics_regexes k l')
      \<and> parse_coverage_metrics_logs f self = Inr self' \<longrightarrow>
      (\<exists>parsed_data v.
          map_of (data self') (remove_all ''_amplicon_coverage_metrics'' (f_s_name f)) = Some parsed_data
        \<and> py_float (mgroup m 1) = Inr v \<and> map_of parsed_data k = Some v))
   \<and> (splitlines (f_f f) = pre @ l # post \<and> map_of primerclip_regexes k = Some r
      \<and> re_search r l = Some m \<and> (\<forall>l'\<in>set post. \<not> matches primerclip_regexes k l')
      \<and> parse_primerclip_logs f self = Inr self' \<longrightarrow>
      (\<exists>parsed_data v.
          map_of (data self') (remove_all ''_primerclip_runstats'' (f_s_name f)) = Some parsed_data
        \<and> py_float (mgroup m 1) = Inr v \<and> map_of parsed_data k = Some v))
   \<and> (body @ [t] = pre @ l # post \<and> (\<forall>x\<in>set body. re_search overall_regex x = None)
      \<and> re_search overall_regex t = Some mo \<and> py_float (mgroup mo 1) = Inr vo
      \<and> map_of hisat2_regexes k = Some r
      \<and> re_search r l = Some m \<and> (\<forall>l'\<in>set post. \<not> matches hisat2_regexes k l') \<longrightarrow>
      (\<exists>self' name record v.
          hisat2_lines clean_s_name hf (body @ [t]) (s_name, [], hself) = Inr (f_s_name hf, [], self')
        \<and> map_of (hisat2_view self') name = Some record
        \<and> map_of record ''overall_alignment_rate'' = Some vo
        \<and> py_int (mgroup m 1) = Inr v \<and> map_of record k = Some v))
   \<and> (jax_modes False (splitlines (f_f f)) = mpre @ (pe, l) # mpost \<and> \<not> str_in ''Read'' l
      \<and> map_of (jax_table pe) k = Some r \<and> re_search r l = Some m
      \<and> (\<forall>(p, l')\<in>set mpost. \<not> matches (jax_table p) k l')
      \<and> parse_jax_trimmer_logs f jself = Inr jself' \<longrightarrow>
      (\<exists>parsed_data v1.
          map_of (data jself') (rsplit1_head (f_s_name f)) = Some parsed_data
        \<and> py_float (mgroup m 1) = Inr v1 \<and> map_of parsed_data (k @ ''_1'') = Some v1
        \<and> (pe \<longrightarrow> (\<exists>v2. py_float (mgroup m 2) = Inr v2
                       \<and> map_of parsed_data (k @ ''_2'') = Some v2))))"
proof (intro conjI impI)
  assume a: "splitlines (f_f f) = pre @ l # post \<and> map_of coverage_metrics_regexes k = Some r
      \<and> re_search r l = Some m \<and> (\<forall>l'\<in>set post. \<not> matches coverage_metrics_regexes k l')
      \<and> parse_coverage_metrics_logs f self = Inr self'"
  then obtain pd where
    scan: "scan_lines py_float coverage_metrics_regexes (pre @ l # post) [] = Inr pd"
    and self': "self' = store_sample f (remove_all ''_amplicon_coverage_metrics'' (f_s_name f)) pd self"
    by (auto simp: parse_coverage_metrics_logs_def Let_def split: sum.splits)
  from a have r: "map_of coverage_metrics_regexes k = Some r" and m: "re_search r l = Some m"
    and post: "\<forall>l'\<in>set post. \<not> matches coverage_metrics_regexes k l'" by simp_all
  from scan_lines_last [OF scan r m post distinct_tables(1)] obtain v where
    v: "py_float (mgroup m 1) = Inr v" "map_of pd k = Some v" by blast
  then have "pd \<noteq> []" by auto
  with self' v show "\<exists>parsed_data v.
          map_of (data self') (remove_all ''_amplicon_coverage_metrics'' (f_s_name f)) = Some parsed_data
        \<and> py_float (mgroup m 1) = Inr v \<and> map_of parsed_data k = Some v"
    by (simp add: store_sample_lookup)
next
  assume a: "splitlines (f_f f) = pre @ l # post \<and> map_of primerclip_regexes k = Some r
      \<and> re_search r l = Some m \<and> (\<forall>l'\<in>set post. \<not> matches primerclip_regexes k l')
      \<and> parse_primerclip_logs f self = Inr self'"
  then obtain pd where
    scan: "scan_lines py_float primerclip_regexes (pre @ l # post) [] = Inr pd"
    and self': "self' = store_sample f (remove_all ''_primerclip_runstats'' (f_s_name f)) pd self"
    by (auto simp: parse_primerclip_logs_def Let_def split: sum.splits)
  from a have r: "map_of primerclip_regexes k = Some r" and m: "re_search r l = Some m"
    and post: "\<forall>l'\<in>set post. \<not> matches primerclip_regexes k l'" by simp_all
  from scan_lines_last [OF scan r m post distinct_tables(2)] obtain v where
    v: "py_float (mgroup m 1) = Inr v" "map_of pd k = Some v" by blast
  then have "pd \<noteq> []" by auto
  with self' v show "\<exists>parsed_data v.
          map_of (data self') (remove_all ''_primerclip_runstats'' (f_s_name f)) = Some parsed_data
        \<and> py_float (mgroup m 1) = Inr v \<and> map_of parsed_data k = Some v"
    by (simp add: store_sample_lookup)
next
  assume a: "body @ [t] = pre @ l # post \<and> (\<forall>x\<in>set body. re_search overall_regex x = None)
      \<and> re_search overall_regex t = Some mo \<and> py_float (mgroup mo 1) = Inr vo
      \<and> map_of hisat2_regexes k = Some r
      \<and> re_search r l = Some m \<and> (\<forall>l'\<in>set post. \<not> matches hisat2_regexes k l')"
  then have q: "\<forall>x\<in>set body. re_search overall_regex x = None"
    and mo: "re_search overall_regex t = Some mo" and vo: "py_float (mgroup mo 1) = Inr vo"
    and r: "map_of hisat2_regexes k = Some r" and m: "re_search r l = Some m"
    and post: "\<forall>l'\<in>set post. \<not> matches hisat2_regexes k l'"
    and seg: "body @ [t] = pre @ l # post" by simp_all
  from hisat2_lines_quiet [OF q, of clean_s_name hf s_name "[]" hself] obtain s1 pd1 self1 where
    1: "hisat2_lines clean_s_name hf body (s_name, [], hself) = Inr (s1, pd1, self1)"
    and 2: "scan_lines py_int hisat2_regexes body [] = Inr pd1" by blast
  from hisat2_line_store [OF mo vo, of clean_s_name hf s1 pd1 self1] obtain pd2 self' where
    3: "hisat2_line clean_s_name hf t (s1, pd1, self1) = Inr (f_s_name hf, [], self')"
    and 4: "scan_line py_int hisat2_regexes t pd1 = Inr pd2"
    and 5: "data self' = AList.update (hisat2_name clean_s_name hf t s1) (next_addr self1) (data self1)"
    and 6: "heap self' = (heap self1)(next_addr self1 := AList.update ''overall_alignment_rate'' vo pd2)"
    by blast
  let ?rec = "AList.update ''overall_alignment_rate'' vo pd2"
  from 1 3 have run: "hisat2_lines clean_s_name hf (body @ [t]) (s_name, [], hself)
                        = Inr (f_s_name hf, [], self')"
    by (simp add: hisat2_lines_append)
  from 2 4 have "scan_lines py_int hisat2_regexes (body @ [t]) [] = Inr pd2"
    by (simp add: scan_lines_append)
  with seg have "scan_lines py_int hisat2_regexes (pre @ l # post) [] = Inr pd2" by simp
  from scan_lines_last [OF this r m post distinct_tables(3)] obtain v where
    v: "py_int (mgroup m 1) = Inr v" "map_of pd2 k = Some v" by blast
  from r hisat2_keys_not_overall have "k \<noteq> ''overall_alignment_rate''" by auto
  with v have k: "map_of ?rec k = Some v" by (simp add: update_conv')
  have o: "map_of ?rec ''overall_alignment_rate'' = Some vo" by (simp add: update_conv')
  from 5 6 have "map_of (hisat2_view self') (hisat2_name clean_s_name hf t s1) = Some ?rec"
    by (simp add: hisat2_view_def map_of_view update_conv')
  with run k o v show "\<exists>self' name record v.
          hisat2_lines clean_s_name hf (body @ [t]) (s_name, [], hself) = Inr (f_s_name hf, [], self')
        \<and> map_of (hisat2_view self') name = Some record
        \<and> map_of record ''overall_alignment_rate'' = Some vo
        \<and> py_int (mgroup m 1) = Inr v \<and> map_of record k = Some v"
    by blast
next
  assume a: "jax_modes False (splitlines (f_f f)) = mpre @ (pe, l) # mpost \<and> \<not> str_in ''Read'' l
      \<and> map_of (jax_table pe) k = Some r \<and> re_search r l = Some m
      \<and> (\<forall>(p, l')\<in>set mpost. \<not> matches (jax_table p) k l')
      \<and> parse_jax_trimmer_logs f jself = Inr jself'"
  then obtain pe' pd where
    run: "jax_lines (splitlines (f_f f)) (False, []) = Inr (pe', pd)"
    and self': "jself' = store_sample f (rsplit1_head (f_s_name f)) pd (jself\<lparr>pe_bool := pe'\<rparr>)"
    by (auto simp: parse_jax_trimmer_logs_def Let_def split: sum.splits prod.splits)
  from a have modes: "jax_modes False (splitlines (f_f f)) = mpre @ (pe, l) # mpost"
    and nr: "\<not> str_in ''Read'' l" and r: "map_of (jax_table pe) k = Some r"
    and m: "re_search r l = Some m"
    and post: "\<forall>(p, l')\<in>set mpost. \<not> matches (jax_table p) k l'" by simp_all
  from jax_lines_last [OF run modes nr r m post] obtain v1 where
    v1: "py_float (mgroup m 1) = Inr v1" "map_of pd (k @ ''_1'') = Some v1"
    and v2: "pe \<longrightarrow> (\<exists>v2. py_float (mgroup m 2) = Inr v2 \<and> map_of pd (k @ ''_2'') = Some v2)"
    by blast
  from v1 have "pd \<noteq> []" by auto
  with self' have "map_of (data jself') (rsplit1_head (f_s_name f)) = Some pd"
    by (simp add: store_sample_lookup)
  with v1 v2 show "(\<exists>parsed_data v1.
          map_of (data jself') (rsplit1_head (f_s_name f)) = Some parsed_data
        \<and> py_float (mgroup m 1) = Inr v1 \<and> map_of parsed_data (k @ ''_1'') = Some v1
        \<and> (pe \<longrightarrow> (\<exists>v2. py_float (mgroup m 2) = Inr v2
                       \<and> map_of parsed_data (k @ ''_2'') = Some v2)))"
    by blast
qed

theorem last_match_wins_witness:
  "splitlines (''on_target_percent 1'' @ [CHR 0x0A] @ ''on_target_percent 2'')
     = [''on_target_percent 1''] @ ''on_target_percent 2'' # []
   \<and> re_search (seq [Lit ''on_target_percent'', Many1 (Item CSpace), Group number_opt_frac])
        ''on_target_percent 2'' = Some [Some ''2'']
   \<and> py_float (mgroup [Some ''2''] 1) = Inr (PyFloat 2)
   \<and> (\<exists>self' parsed_data.
         parse_coverage_metrics_logs
           \<lparr>f_s_name = ''s1'', f_fn = ''s1.txt'',
            f_f = ''on_target_percent 1'' @ [CHR 0x0A] @ ''on_target_percent 2''\<rparr>
           \<lparr>data = [], trace = []\<rparr> = Inr self'
         \<and> map_of (data self') ''s1'' = Some parsed_data
         \<and> map_of parsed_data ''on_target_percent'' = Some (PyFloat 2))
   \<and> splitlines (''Total alignments processed: 5'' @ [CHR 0x0A] @ ''Total alignments processed: 7'')
     = [''Total alignments processed: 5''] @ ''Total alignments processed: 7'' # []
   \<and> (\<exists>self' parsed_data.
         parse_primerclip_logs
           \<lparr>f_s_name = ''s1'', f_fn = ''s1.txt'',
            f_f = ''Total alignments processed: 5'' @ [CHR 0x0A] @ ''Total alignments processed: 7''\<rparr>
           \<lparr>data = [], trace = []\<rparr> = Inr self'
         \<and> map_of (data self') ''s1'' = Some parsed_data
         \<and> map_of parsed_data ''total_alignments'' = Some (PyFloat 7))
   \<and> re_search overall_regex (''Total reads: 7'' @ [CHR 0x0A]) = None
   \<and> re_search overall_regex (''Total reads: 9'' @ [CHR 0x0A]) = None
   \<and> re_search overall_regex (''Overall alignment rate: 50%'' @ [CHR 0x0A]) = Some [Some ''50'']
   \<and> \<not> matches hisat2_regexes ''unpaired_total'' (''Overall alignment rate: 50%'' @ [CHR 0x0A])
   \<and> (\<exists>self' name record.
         hisat2_lines keep_name \<lparr>f_s_name = ''run'', f_fn = ''run.log'', f_f = []\<rparr>
           ([''Total reads: 7'' @ [CHR 0x0A], ''Total reads: 9'' @ [CHR 0x0A]]
            @ [''Overall alignment rate: 50%'' @ [CHR 0x0A]])
           (''run'', [], hisat2_new) = Inr (''run'', [], self')
         \<and> map_of (hisat2_view self') name = Some record
         \<and> map_of record ''overall_alignment_rate'' = Some (PyFloat 50)
         \<and> map_of record ''unpaired_total'' = Some (PyInt 9))
   \<and> jax_modes False (splitlines (''Statistic Read 1 Read 2'' @ [CHR 0x0A]
          @ ''Total number of reads 100 90'' @ [CHR 0x0A] @ ''Total number of reads 70 60''))
       = [(False, ''Statistic Read 1 Read 2''), (True, ''Total number of reads 100 90'')]
         @ (True, ''Total number of reads 70 60'') # []
   \<and> \<not> str_in ''Read'' ''Total number of reads 70 60''
   \<and> (\<exists>self' parsed_data.
         parse_jax_trimmer_logs
           \<lparr>f_s_name = ''s1_stat'', f_fn = ''s1_stat'',
            f_f = ''Statistic Read 1 Read 2'' @ [CHR 0x0A]
                  @ ''Total number of reads 100 90'' @ [CHR 0x0A] @ ''Total number of reads 70 60''\<rparr>
           \<lparr>data = [], trace = [], pe_bool = False\<rparr> = Inr self'
         \<and> map_of (data self') ''s1'' = Some parsed_data
         \<and> map_of parsed_data ''total_reads_1'' = Some (PyFloat 70)
         \<and> map_of parsed_data ''total_reads_2'' = Some (PyFloat 60))"
proof -
  let ?cf = "\<lparr>f_s_name = ''s1'', f_fn = ''s1.txt'',
            f_f = ''on_target_percent 1'' @ [CHR 0x0A] @ ''on_target_percent 2''\<rparr>"
  let ?pf = "\<lparr>f_s_name = ''s1'', f_fn = ''s1.txt'',
            f_f = ''Total alignments processed: 5'' @ [CHR 0x0A] @ ''Total alignments processed: 7''\<rparr>"
  let ?hf = "\<lparr>f_s_name = ''run'', f_fn = ''run.log'', f_f = ([] :: string list)\<rparr>"
  let ?e = "\<lparr>data = [], trace = []\<rparr> :: dict module"
  let ?cr = "seq [Lit ''on_target_percent'', Many1 (Item CSpace), Group number_opt_frac]"
  let ?pr = "seq [Lit ''Total alignments processed:'', Many1 (Item CSpace), Group (Many1 (Item CDigit))]"
  let ?hr = "seq [Lit ''Total'', Opt (Lit '' unpaired''), Lit '' reads: '', Group (Many1 (Item CDigit))]"
  let ?body = "[''Total reads: 7'' @ [CHR 0x0A], ''Total reads: 9'' @ [CHR 0x0A]]"
  let ?t = "''Overall alignment rate: 50%'' @ [CHR 0x0A]"
  note T = last_match_wins
  have c1: "splitlines (f_f ?cf) = [''on_target_percent 1''] @ ''on_target_percent 2'' # []"
    by (simp add: eval_defs)
  have c2: "map_of coverage_metrics_regexes ''on_target_percent'' = Some ?cr"
    by (simp add: coverage_metrics_regexes_def)
  have c3: "re_search ?cr ''on_target_percent 2'' = Some [Some ''2'']" by (simp add: eval_defs)
  have c4: "py_float (mgroup [Some ''2''] 1) = Inr (PyFloat 2)" by (simp add: eval_defs)
  have c5: "\<exists>self'. parse_coverage_metrics_logs ?cf ?e = Inr self'" by (simp add: simple_eval_defs)
  then obtain c' where c': "parse_coverage_metrics_logs ?cf ?e = Inr c'" by blast
  have s1: "remove_all ''_amplicon_coverage_metrics'' (f_s_name ?cf) = ''s1''"
    "remove_all ''_primerclip_runstats'' (f_s_name ?pf) = ''s1''" by simp_all
  have C: "\<exists>parsed_data v. map_of (data c') ''s1'' = Some parsed_data
        \<and> py_float (mgroup [Some ''2''] 1) = Inr v \<and> map_of parsed_data ''on_target_percent'' = Some v"
    using T [where f = ?cf and pre = "[''on_target_percent 1'']" and l = "''on_target_percent 2''"
        and post = "[]" and k = "''on_target_percent''" and r = ?cr and m = "[Some ''2'']"
        and self = ?e and self' = c', THEN conjunct1] c1 c2 c3 c' s1
    by simp
  have p1: "splitlines (f_f ?pf)
              = [''Total alignments processed: 5''] @ ''Total alignments processed: 7'' # []"
    by (simp add: eval_defs)
  have p2: "map_of primerclip_regexes ''total_alignments'' = Some ?pr"
    by (simp add: primerclip_regexes_def)
  have p3: "re_search ?pr ''Total alignments processed: 7'' = Some [Some ''7'']" by (simp add: eval_defs)
  have p4: "py_float (mgroup [Some ''7''] 1) = Inr (PyFloat 7)" by (simp add: eval_defs)
  have "\<exists>self'. parse_primerclip_logs ?pf ?e = Inr self'" by (simp add: simple_eval_defs)
  then obtain p' where p': "parse_primerclip_logs ?pf ?e = Inr p'" by blast
  have P: "\<exists>parsed_data v. map_of (data p') ''s1'' = Some parsed_data
        \<and> py_float (mgroup [Some ''7''] 1) = Inr v \<and> map_of parsed_data ''total_alignments'' = Some v"
    using T [where f = ?pf and pre = "[''Total alignments processed: 5'']"
        and l = "''Total alignments processed: 7''"
        and post = "[]" and k = "''total_alignments''" and r = ?pr and m = "[Some ''7'']"
        and self = ?e and self' = p', THEN conjunct2, THEN conjunct1] p1 p2 p3 p' s1
    by simp
  have h1: "\<forall>x\<in>set ?body. re_search overall_regex x = None" by (simp add: hisat2_eval_defs)
  have h2: "re_search overall_regex ?t = Some [Some ''50'']" by (simp add: hisat2_eval_defs)
  have h3: "py_float (mgroup [Some ''50''] 1) = Inr (PyFloat 50)" by (simp add: eval_defs)
  have h4: "map_of hisat2_regexes ''unpaired_total'' = Some ?hr" by (simp add: hisat2_regexes_def)
  have h5: "re_search ?hr (''Total reads: 9'' @ [CHR 0x0A]) = Some [Some ''9'']"
    by (simp add: eval_defs)
  have h6: "\<forall>l'\<in>set [?t]. \<not> matches hisat2_regexes ''unpaired_total'' l'"
    by (simp add: matches_def h4 eval_defs)
  have h7: "py_int (mgroup [Some ''9''] 1) = Inr (PyInt 9)" by (simp add: eval_defs)
  have h8: "?body @ [?t] = [''Total reads: 7'' @ [CHR 0x0A]] @ (''Total reads: 9'' @ [CHR 0x0A]) # [?t]"
    by simp
  have H: "\<exists>self' name record v.
          hisat2_lines keep_name ?hf (?body @ [?t]) (''run'', [], hisat2_new) = Inr (f_s_name ?hf, [], self')
        \<and> map_of (hisat2_view self') name = Some record
        \<and> map_of record ''overall_alignment_rate'' = Some (PyFloat 50)
        \<and> py_int (mgroup [Some ''9''] 1) = Inr v \<and> map_of record ''unpaired_total'' = Some v"
    using T [where body = ?body and t = ?t and pre = "[''Total reads: 7'' @ [CHR 0x0A]]"
        and l = "''Total reads: 9'' @ [CHR 0x0A]" and post = "[?t]" and mo = "[Some ''50'']"
        and vo = "PyFloat 50" and k = "''unpaired_total''" and r = ?hr and m = "[Some ''9'']"
        and clean_s_name = keep_name and hf = ?hf and s_name = "''run''" and hself = hisat2_new,
        THEN conjunct2, THEN conjunct2, THEN conjunct1] h1 h2 h3 h4 h5 h6 h8
    by blast
  from C c4 c' have C': "\<exists>self' parsed_data. parse_coverage_metrics_logs ?cf ?e = Inr self'
         \<and> map_of (data self') ''s1'' = Some parsed_data
         \<and> map_of parsed_data ''on_target_percent'' = Some (PyFloat 2)" by auto
  from P p4 p' have P': "\<exists>self' parsed_data. parse_primerclip_logs ?pf ?e = Inr self'
         \<and> map_of (data self') ''s1'' = Some parsed_data
         \<and> map_of parsed_data ''total_alignments'' = Some (PyFloat 7)" by auto
  from H h7 have H': "\<exists>self' name record.
         hisat2_lines keep_name ?hf (?body @ [?t]) (''run'', [], hisat2_new) = Inr (''run'', [], self')
         \<and> map_of (hisat2_view self') name = Some record
         \<and> map_of record ''overall_alignment_rate'' = Some (PyFloat 50)
         \<and> map_of record ''unpaired_total'' = Some (PyInt 9)" by auto
  let ?jf = "\<lparr>f_s_name = ''s1_stat'', f_fn = ''s1_stat'',
            f_f = ''Statistic Read 1 Read 2'' @ [CHR 0x0A]
                  @ ''Total number of reads 100 90'' @ [CHR 0x0A] @ ''Total number of reads 70 60''\<rparr>"
  let ?je = "\<lparr>data = [], trace = [], pe_bool = False\<rparr>"
  let ?jr = "seq [Lit ''Total number of reads'', Many1 (Item CSpace), Group (Many1 (Item CDigit)),
                  Many1 (Item CSpace), Group (Many1 (Item CDigit))]"
  let ?jl = "''Total number of reads 70 60''"
  have j1: "jax_modes False (splitlines (f_f ?jf))
              = [(False, ''Statistic Read 1 Read 2''), (True, ''Total number of reads 100 90'')]
                @ (True, ?jl) # []"
    by (simp add: eval_defs)
  have j2: "\<not> str_in ''Read'' ?jl" by simp
  have j3: "map_of (jax_table True) ''total_reads'' = Some ?jr"
    by (simp add: jax_table_def jax_regexes_def)
  have j4: "re_search ?jr ?jl = Some [Some ''70'', Some ''60'']" by (simp add: eval_defs)
  have j5: "py_float (mgroup [Some ''70'', Some ''60''] 1) = Inr (PyFloat 70)"
    "py_float (mgroup [Some ''70'', Some ''60''] 2) = Inr (PyFloat 60)" by (simp_all add: eval_defs)
  have j6: "\<forall>(p, l')\<in>set []. \<not> matches (jax_table p) ''total_reads'' l'" by simp
  have "\<exists>self'. parse_jax_trimmer_logs ?jf ?je = Inr self'" by (simp add: simple_eval_defs)
  then obtain j' where j': "parse_jax_trimmer_logs ?jf ?je = Inr j'" by blast
  have j7: "rsplit1_head (f_s_name ?jf) = ''s1''" by (simp add: eval_defs)
  note TJ = T [where f = ?jf and mpre = "[(False, ''Statistic Read 1 Read 2''),
        (True, ''Total number of reads 100 90'')]" and pe = True and l = ?jl and mpost = "[]"
        and k = "''total_reads''" and r = ?jr and m = "[Some ''70'', Some ''60'']"
        and jself = ?je and jself' = j', THEN conjunct2, THEN conjunct2, THEN conjunct2, THEN mp,
        OF conjI [OF j1 conjI [OF j2 conjI [OF j3 conjI [OF j4 conjI [OF j6 j']]]]]]
  from TJ j5 j7 have "\<exists>parsed_data. map_of (data j') ''s1'' = Some parsed_data
         \<and> map_of parsed_data ''total_reads_1'' = Some (PyFloat 70)
         \<and> map_of parsed_data ''total_reads_2'' = Some (PyFloat 60)" by auto
  with j' have J': "\<exists>self' parsed_data. parse_jax_trimmer_logs ?jf ?je = Inr self'
         \<and> map_of (data self') ''s1'' = Some parsed_data
         \<and> map_of parsed_data ''total_reads_1'' = Some (PyFloat 70)
         \<and> map_of parsed_data ''total_reads_2'' = Some (PyFloat 60)" by blast
  from h1 have h1': "re_search overall_regex (''Total reads: 7'' @ [CHR 0x0A]) = None"
    "re_search overall_regex (''Total reads: 9'' @ [CHR 0x0A]) = None" by simp_all
  from h6 have h6': "\<not> matches hisat2_regexes ''unpaired_total'' ?t" by simp
  from j1 have j1': "jax_modes False (splitlines (''Statistic Read 1 Read 2'' @ [CHR 0x0A]
          @ ''Total number of reads 100 90'' @ [CHR 0x0A] @ ''Total number of reads 70 60''))
       = [(False, ''Statistic Read 1 Read 2''), (True, ''Total number of reads 100 90'')]
         @ (True, ''Total number of reads 70 60'') # []" by simp
  from c1 c3 c4 C' p1 P' h1' h2 h6' H' j1' j2 J' show ?thesis by simp
qed

subsection \<open>jax\_trimmer: skipped lines and the paired-end flag\<close>

lemmas jax_init_eval_defs = simple_eval_defs jax_trimmer_init_def finish_init_def
  jax_trimmer_general_stats_table_def jax_trimmer_headers_def ignore_samples_def ignore_none_def
  matches_def

text \<open>
  Claim C1 at a paired-end log of jax\_trimmer: the line \<^verbatim>\<open>Reads passing filter 90 80\<close>
  matches the pattern of \<^verbatim>\<open>reads_passing\<close>, but it contains \<^verbatim>\<open>Read\<close>, so the loop never
  matches it against the table, and the stored record has neither \<^verbatim>\<open>reads_passing_1\<close> nor
  \<^verbatim>\<open>reads_passing_2\<close>.
\<close>

theorem jax_reads_passing_line_is_skipped:
  "matches jax_regexes ''reads_passing'' ''Reads passing filter      90      80''
   \<and> str_in ''Read'' ''Reads passing filter      90      80''
   \<and> parse_jax_trimmer_logs
        \<lparr>f_s_name = ''s1_stat'', f_fn = ''s1_stat'',
         f_f = ''Statistic   Read 1   Read 2'' @ [CHR 0x0A]
               @ ''Total number of reads     100     100'' @ [CHR 0x0A]
               @ ''Reads passing filter      90      80''\<rparr>
        \<lparr>data = [], trace = [], pe_bool = False\<rparr>
     = Inr \<lparr>data = [(''s1'', [(''total_reads_1'', PyFloat 100), (''total_reads_2'', PyFloat 100)])],
            trace = [AddDataSource ''s1_stat'' ''s1''], pe_bool = True\<rparr>"
  by (simp add: jax_init_eval_defs)

text \<open>
  Claim C6 at a paired-end file followed by a single-end file: \<^verbatim>\<open>self.pe_bool\<close> is reset at
  the start of each parse, so the table receives the \<^verbatim>\<open>_1\<close> headers only, although a
  \<^verbatim>\<open>Read 2\<close> marker was seen and the first sample holds \<^verbatim>\<open>_2\<close> keys. The value of
  \<^verbatim>\<open>max_trim_len_2\<close> is that of the first column, group 2 of the pattern being nested
  in group 1.
\<close>

theorem jax_paired_headers_follow_last_file:
  "jax_trimmer_init ignore_none
     [\<lparr>f_s_name = ''pe_stat'', f_fn = ''pe_stat'',
       f_f = ''Statistic   Read 1   Read 2'' @ [CHR 0x0A]
             @ ''Total number of reads     100     90'' @ [CHR 0x0A]
             @ ''Max Trimmed Length     150     140''\<rparr>,
      \<lparr>f_s_name = ''se_stat'', f_fn = ''se_stat'', f_f = ''Total number of reads     50''\<rparr>]
   = Inr \<lparr>data = [(''pe'', [(''total_reads_1'', PyFloat 100), (''total_reads_2'', PyFloat 90),
                            (''max_trim_len_1'', PyFloat 150), (''max_trim_len_2'', PyFloat 150)]),
                   (''se'', [(''total_reads_1'', PyFloat 50)])],
          trace = [AddDataSource ''pe_stat'' ''pe'', AddDataSource ''se_stat'' ''se'', LogInfoFound 2,
                   WriteDataFile
                     [(''pe'', [(''total_reads_1'', PyFloat 100), (''total_reads_2'', PyFloat 90),
                                (''max_trim_len_1'', PyFloat 150), (''max_trim_len_2'', PyFloat 150)]),
                      (''se'', [(''total_reads_1'', PyFloat 50)])] ''multiqc_jax_trimmer'',
                   GeneralStatsAddcols
                     [(''pe'', [(''total_reads_1'', PyFloat 100), (''total_reads_2'', PyFloat 90),
                                (''max_trim_len_1'', PyFloat 150), (''max_trim_len_2'', PyFloat 150)]),
                      (''se'', [(''total_reads_1'', PyFloat 50)])] jax_headers_1],
          pe_bool = False\<rparr>"
  by (simp add: jax_init_eval_defs)

end
